(* ===== verification/Prelude.thy ===== *)
theory Prelude
  imports Main "HOL-Library.Word" "HOL-Library.Multiset"
begin

text \<open>
  The shared vocabulary of the development: the machine integers of the C++ sources, the
  containers of the standard library that the code uses (\<open>std::unordered_map\<close>, a bounded
  \<open>std::deque\<close>, \<open>std::sort\<close> and \<open>std::stable_sort\<close>), decimal printing
  (\<open>std::to_string\<close>), and the generic lemmas the component theories rest on.

  A \<open>std::unordered_map\<close> is the list of its entries in iteration order, with distinct keys.
  The C++ standard leaves that order open; the model inserts at the end, and the properties
  that matter (\<open>Registry\<close>, \<open>Route\<close>) are proved to be independent of it. The locale
  \<open>unordered_map\<close> states the laws the clients use; the list model is its interpretation
  \<open>um\<close>.
\<close>

unbundle bit_operations_syntax

type_synonym u8 = "8 word"
type_synonym u16 = "16 word"
type_synonym u32 = "32 word"
type_synonym u64 = "64 word"
type_synonym bytes = "u8 list"

named_theorems wf_intros \<open>introduction rules for the parts of the well-formedness invariant\<close>
named_theorems enum_simps \<open>byte codes and printed names of the enumerations\<close>
named_theorems f64_simps \<open>case equations of the binary64 operations\<close>

section \<open>Machine words\<close>

lemma word_less_succ: "(v::u64) \<noteq> - 1 \<Longrightarrow> v < v + 1"
proof -
  assume "v \<noteq> - 1"
  then have "v + 1 \<noteq> 0" by (simp add: eq_neg_iff_add_eq_0)
  then have "unat (v + 1) = Suc (unat v)" by (metis Suc_eq_plus1 add.commute unatSuc)
  then show ?thesis by (simp add: word_less_nat_alt)
qed

section \<open>Bounded queues (std::deque with push_back and pop_front)\<close>

text \<open>
  \<open>next.push_back(x); if (next.size() > mx) next.pop_front();\<close>: at most one element leaves.
\<close>

definition push_bounded :: "nat \<Rightarrow> 'a list \<Rightarrow> 'a \<Rightarrow> 'a list" where
  "push_bounded mx xs x = (let ys = xs @ [x] in if length ys > mx then tl ys else ys)"

lemma length_push_bounded: "length xs \<le> mx \<Longrightarrow> length (push_bounded mx xs x) \<le> mx"
  by (auto simp: push_bounded_def Let_def)

lemma set_push_bounded: "set (push_bounded mx xs x) \<subseteq> insert x (set xs)"
  by (cases xs) (auto simp: push_bounded_def Let_def)

lemma push_bounded_last:
  "0 < mx \<Longrightarrow> push_bounded mx xs x \<noteq> [] \<and> last (push_bounded mx xs x) = x"
  by (cases xs) (auto simp: push_bounded_def Let_def)

lemma push_bounded_suffix: "\<exists>ys. xs @ [x] = ys @ push_bounded mx xs x"
proof (cases xs)
  case Nil
  then show ?thesis
    by (cases mx) (auto simp: push_bounded_def intro: exI [of _ "[x]"])
next
  case (Cons a list)
  then show ?thesis
    by (cases "mx < Suc (length xs)")
      (auto simp: push_bounded_def Let_def intro: exI [of _ "[a]"])
qed

section \<open>Unordered maps\<close>

definition um_find :: "('k \<times> 'v) list \<Rightarrow> 'k \<Rightarrow> 'v option" where
  "um_find m k = map_of m k"

definition um_emplace :: "'k \<Rightarrow> 'v \<Rightarrow> ('k \<times> 'v) list \<Rightarrow> ('k \<times> 'v) list" where
  \<comment> \<open>\<open>emplace\<close>: no effect when the key is present\<close>
  "um_emplace k v m = (case um_find m k of None \<Rightarrow> m @ [(k, v)] | Some _ \<Rightarrow> m)"

definition um_assign :: "'k \<Rightarrow> 'v \<Rightarrow> ('k \<times> 'v) list \<Rightarrow> ('k \<times> 'v) list" where
  \<comment> \<open>\<open>it->second = v\<close> for an iterator at key \<open>k\<close>\<close>
  "um_assign k v m = map (\<lambda>(k', v'). (k', if k' = k then v else v')) m"

definition um_erase :: "'k \<Rightarrow> ('k \<times> 'v) list \<Rightarrow> ('k \<times> 'v) list" where
  "um_erase k m = filter (\<lambda>(k', _). k' \<noteq> k) m"

definition um_erase_if :: "('v \<Rightarrow> bool) \<Rightarrow> ('k \<times> 'v) list \<Rightarrow> ('k \<times> 'v) list" where
  \<comment> \<open>the erase-while-iterating loop of \<open>remove_device\<close>\<close>
  "um_erase_if P m = filter (\<lambda>(_, v). \<not> P v) m"

definition um_transform :: "('v \<Rightarrow> 'v) \<Rightarrow> ('k \<times> 'v) list \<Rightarrow> ('k \<times> 'v) list" where
  \<comment> \<open>\<open>for (auto& kv : m) kv.second = f(kv.second)\<close>\<close>
  "um_transform f m = map (\<lambda>(k, v). (k, f v)) m"

definition um_values :: "('k \<times> 'v) list \<Rightarrow> 'v list" where
  "um_values m = map snd m"

definition um_invar :: "('k \<times> 'v) list \<Rightarrow> bool" where
  "um_invar m \<longleftrightarrow> distinct (map fst m)"

locale unordered_map =
  fixes find :: "'m \<Rightarrow> 'k \<Rightarrow> 'v option"
    and emplace :: "'k \<Rightarrow> 'v \<Rightarrow> 'm \<Rightarrow> 'm"
    and assign :: "'k \<Rightarrow> 'v \<Rightarrow> 'm \<Rightarrow> 'm"
    and erase :: "'k \<Rightarrow> 'm \<Rightarrow> 'm"
    and erase_if :: "('v \<Rightarrow> bool) \<Rightarrow> 'm \<Rightarrow> 'm"
    and transform :: "('v \<Rightarrow> 'v) \<Rightarrow> 'm \<Rightarrow> 'm"
    and values_of :: "'m \<Rightarrow> 'v list"
    and count :: "'m \<Rightarrow> nat"
    and invar :: "'m \<Rightarrow> bool"
  assumes find_emplace:
      "find (emplace k v m) = (case find m k of None \<Rightarrow> (find m)(k \<mapsto> v) | Some _ \<Rightarrow> find m)"
    and find_assign: "find m k \<noteq> None \<Longrightarrow> find (assign k v m) = (find m)(k \<mapsto> v)"
    and find_erase: "find (erase k m) = (find m)(k := None)"
    and find_erase_if: "invar m \<Longrightarrow>
      find (erase_if P m) k = (case find m k of None \<Rightarrow> None | Some v \<Rightarrow> if P v then None else Some v)"
    and find_transform: "find (transform f m) k = map_option f (find m k)"
    and values_find: "invar m \<Longrightarrow> v \<in> set (values_of m) \<longleftrightarrow> (\<exists>k. find m k = Some v)"
    and count_emplace: "find m k = None \<Longrightarrow> count (emplace k v m) = Suc (count m)"
    and count_assign: "count (assign k v m) = count m"
    and count_erase: "count (erase k m) \<le> count m"
    and count_erase_if: "count (erase_if P m) \<le> count m"
    and count_transform: "count (transform f m) = count m"
    and invar_emplace: "invar m \<Longrightarrow> invar (emplace k v m)"
    and invar_assign: "invar m \<Longrightarrow> invar (assign k v m)"
    and invar_erase: "invar m \<Longrightarrow> invar (erase k m)"
    and invar_erase_if: "invar m \<Longrightarrow> invar (erase_if P m)"
    and invar_transform: "invar m \<Longrightarrow> invar (transform f m)"
begin

definition all_entries :: "('k \<Rightarrow> 'v \<Rightarrow> bool) \<Rightarrow> 'm \<Rightarrow> bool" where
  "all_entries P m \<longleftrightarrow> (\<forall>k v. find m k = Some v \<longrightarrow> P k v)"

lemma all_entriesD: "all_entries P m \<Longrightarrow> find m k = Some v \<Longrightarrow> P k v"
  by (simp add: all_entries_def)

lemma all_entries_mono: "all_entries P m \<Longrightarrow> (\<And>k v. P k v \<Longrightarrow> Q k v) \<Longrightarrow> all_entries Q m"
  by (auto simp: all_entries_def)

lemma all_entries_emplace: "all_entries P m \<Longrightarrow> P k v \<Longrightarrow> all_entries P (emplace k v m)"
  by (auto simp: all_entries_def find_emplace split: option.splits if_splits)

lemma all_entries_assign:
  "all_entries P m \<Longrightarrow> find m k \<noteq> None \<Longrightarrow> P k v \<Longrightarrow> all_entries P (assign k v m)"
  by (auto simp: all_entries_def find_assign split: if_splits)

lemma all_entries_erase: "all_entries P m \<Longrightarrow> all_entries P (erase k m)"
  by (auto simp: all_entries_def find_erase split: if_splits)

lemma all_entries_erase_if:
  "invar m \<Longrightarrow> all_entries P m \<Longrightarrow> all_entries (\<lambda>k v. P k v \<and> \<not> Q v) (erase_if Q m)"
  by (auto simp: all_entries_def find_erase_if split: option.splits if_splits)

lemma all_entries_transform:
  "all_entries (\<lambda>k v. P k (f v)) m \<Longrightarrow> all_entries P (transform f m)"
  by (auto simp: all_entries_def find_transform)

lemma find_emplace_same: "find m k = None \<Longrightarrow> find (emplace k v m) k = Some v"
  by (simp add: find_emplace)

lemma find_emplace_other: "k' \<noteq> k \<Longrightarrow> find (emplace k v m) k' = find m k'"
  by (simp add: find_emplace split: option.splits)

lemma find_emplace_present: "find m k' \<noteq> None \<Longrightarrow> find (emplace k v m) k' = find m k'"
  by (auto simp: find_emplace split: option.splits)

end

lemma um_find_map_values:
  "um_find (map (\<lambda>(k', v'). (k', if k' = k then v else v')) m) =
   (if um_find m k = None then um_find m else (um_find m)(k \<mapsto> v))"
  by (induction m) (auto simp: um_find_def fun_eq_iff)

interpretation um: unordered_map um_find um_emplace um_assign um_erase um_erase_if
  um_transform um_values length um_invar
proof unfold_locales
  fix k :: 'a and v :: 'b and m
  show "um_find (um_emplace k v m) =
      (case um_find m k of None \<Rightarrow> (um_find m)(k \<mapsto> v) | Some _ \<Rightarrow> um_find m)"
    by (auto simp: um_emplace_def um_find_def map_add_def fun_eq_iff split: option.splits)
next
  fix m :: "('a \<times> 'b) list" and k v
  assume "um_find m k \<noteq> None"
  then show "um_find (um_assign k v m) = (um_find m)(k \<mapsto> v)"
    by (auto simp: um_assign_def um_find_map_values)
next
  fix k :: 'a and m :: "('a \<times> 'b) list"
  show "um_find (um_erase k m) = (um_find m)(k := None)"
    by (induction m) (auto simp: um_erase_def um_find_def fun_eq_iff)
next
  fix m :: "('a \<times> 'b) list" and P k
  assume "um_invar m"
  then show "um_find (um_erase_if P m) k =
      (case um_find m k of None \<Rightarrow> None | Some v \<Rightarrow> if P v then None else Some v)"
    by (induction m)
      (auto simp: um_invar_def um_erase_if_def um_find_def map_of_eq_None_iff split: option.splits)
next
  fix f :: "'b \<Rightarrow> 'b" and m :: "('a \<times> 'b) list" and k
  show "um_find (um_transform f m) k = map_option f (um_find m k)"
    by (induction m) (auto simp: um_find_def um_transform_def)
next
  fix m :: "('a \<times> 'b) list" and v
  assume "um_invar m"
  then show "(v \<in> set (um_values m)) = (\<exists>k. um_find m k = Some v)"
    by (force simp: um_invar_def um_values_def um_find_def)
qed (auto simp: um_emplace_def um_assign_def um_erase_def um_erase_if_def um_transform_def
  um_invar_def um_find_def distinct_map_filter map_of_eq_None_iff comp_def case_prod_unfold
  split: option.splits)

lemma um_find_Nil [simp]: "um_find [] k = None"
  by (simp add: um_find_def)

lemma um_invar_Nil [simp]: "um_invar []"
  by (simp add: um_invar_def)

lemma um_all_entries_Nil [simp]: "um.all_entries P []"
  by (simp add: um.all_entries_def)

lemma um_all_entries_list:
  "um_invar m \<Longrightarrow> um.all_entries P m \<longleftrightarrow> list_all (\<lambda>(k, v). P k v) m"
  by (auto simp: um.all_entries_def um_find_def um_invar_def list_all_iff)

lemma um_values_map_of:
  "um_invar m \<Longrightarrow> (k, v) \<in> set m \<longleftrightarrow> um_find m k = Some v"
  by (simp add: um_invar_def um_find_def)

lemma um_find_perm:
  "mset m = mset m' \<Longrightarrow> um_invar m \<Longrightarrow> um_find m = um_find m'"
proof -
  assume eq: "mset m = mset m'" and inv: "um_invar m"
  then have inv': "um_invar m'"
    by (metis mset_map mset_eq_imp_distinct_iff um_invar_def)
  have "set m = set m'"
    using eq by (metis set_mset_mset)
  then show "um_find m = um_find m'"
    using inv inv' map_of_inject_set [of m m'] by (auto simp: um_invar_def um_find_def fun_eq_iff)
qed

section \<open>Sorted listings of a map\<close>

text \<open>
  The sources copy the values of a map into a vector and \<open>std::sort\<close> it by the identity
  stored in the value. When that identity is the key, the listing holds exactly the entries,
  in strictly increasing order, whatever the iteration order was.
\<close>

definition keyed_by :: "('v \<Rightarrow> 'k) \<Rightarrow> ('k \<times> 'v) list \<Rightarrow> bool" where
  "keyed_by f m \<longleftrightarrow> list_all (\<lambda>(k, v). f v = k) m"

lemma keyed_by_map: "keyed_by f m \<Longrightarrow> map (\<lambda>v. (f v, v)) (um_values m) = m"
  by (induction m) (auto simp: keyed_by_def um_values_def)

lemma keyed_by_keys: "keyed_by f m \<Longrightarrow> map f (um_values m) = map fst m"
  by (induction m) (auto simp: keyed_by_def um_values_def)

lemma sorted_listing_find:
  assumes "um_invar m" "keyed_by f m"
  shows "um_find (map (\<lambda>v. (f v, v)) (sort_key f (um_values m))) = um_find m"
proof -
  let ?l = "map (\<lambda>v. (f v, v)) (sort_key f (um_values m))"
  have "mset ?l = mset (map (\<lambda>v. (f v, v)) (um_values m))" by simp
  also have "\<dots> = mset m" by (simp only: keyed_by_map [OF assms(2)])
  finally show ?thesis using um_find_perm [of m ?l] assms(1) by simp
qed

lemma sorted_listing_distinct:
  assumes "um_invar m" "keyed_by f m"
  shows "distinct (map f (sort_key f (um_values m)))"
proof -
  have "mset (map f (sort_key f (um_values m))) = mset (map fst m)"
    by (metis assms(2) keyed_by_keys mset_map mset_sort)
  then show ?thesis
    using assms(1) by (metis mset_eq_imp_distinct_iff um_invar_def)
qed

lemma sorted_listing_strict:
  assumes "um_invar m" "keyed_by f m"
  shows "sorted_wrt (<) (map f (sort_key f (um_values m)))"
  using sorted_listing_distinct [OF assms] by (simp add: strict_sorted_iff)

lemma sorted_listing_perm:
  assumes "um_invar m" "keyed_by f m" "mset m = mset m'"
  shows "sort_key f (um_values m) = sort_key f (um_values m')"
proof (rule sort_key_eq_sort_key)
  show "mset (um_values m) = mset (um_values m')"
    using assms(3) by (simp add: um_values_def)
  have "distinct (map f (um_values m))"
    using assms(1,2) keyed_by_keys um_invar_def by metis
  then show "inj_on f (set (um_values m))" by (simp add: distinct_map)
qed

end
