(* ===== verification/Enums.thy ===== *)
theory Enums
  imports Prelude
begin

text \<open>
  The enumerations of \<open>enums.hpp\<close>, \<open>capability.hpp\<close> and \<open>topology.hpp\<close>. Each one
  is a C++ \<open>enum class\<close> over \<open>std::uint8_t\<close>, so an object of it can hold every byte
  (the decoders cast unchecked bytes into them): the datatypes have the source's enumerators and
  a constructor \<open>RAW\<close> for the bytes that name none. \<open>_to_u8\<close> is the cast to the underlying
  byte, \<open>_of_u8\<close> the cast from it, and \<open>_canon\<close> holds of the values a cast can produce.
  The printed names follow the \<open>switch\<close> statements, with the text after the
  \<open>switch\<close> for the unnamed values. \<open>PathQualityOutcome\<close> and \<open>RouteRejectionReason\<close>
  never cross a byte boundary and have no \<open>RAW\<close> constructor. \<open>Provenance\<close> is a bit set.
\<close>

datatype evidence_class
  = EV_REAL | EV_SYNTHETIC | EV_UNSUPPORTED | EV_RAW u8

fun evidence_class_name :: "evidence_class \<Rightarrow> string" where
  "evidence_class_name EV_REAL = ''REAL''"
| "evidence_class_name EV_SYNTHETIC = ''SYNTHETIC''"
| "evidence_class_name EV_UNSUPPORTED = ''UNSUPPORTED''"
| "evidence_class_name (EV_RAW _) = ''UNKNOWN''"

fun evidence_class_to_u8 :: "evidence_class \<Rightarrow> u8" where
  "evidence_class_to_u8 EV_REAL = 0"
| "evidence_class_to_u8 EV_SYNTHETIC = 1"
| "evidence_class_to_u8 EV_UNSUPPORTED = 2"
| "evidence_class_to_u8 (EV_RAW b) = b"

definition evidence_class_of_u8 :: "u8 \<Rightarrow> evidence_class" where
  "evidence_class_of_u8 b =
    (if b = 0 then EV_REAL else if b = 1 then EV_SYNTHETIC else if b = 2 then
     EV_UNSUPPORTED else EV_RAW b)"

definition evidence_class_canon :: "evidence_class \<Rightarrow> bool" where
  "evidence_class_canon x \<longleftrightarrow> evidence_class_of_u8 (evidence_class_to_u8 x) = x"

lemma evidence_class_to_of_u8 [enum_simps]: "evidence_class_to_u8 (evidence_class_of_u8 b) = b"
  by (simp add: evidence_class_of_u8_def)

lemma evidence_class_of_to_u8 [enum_simps]: "evidence_class_canon x \<Longrightarrow> evidence_class_of_u8 (evidence_class_to_u8 x) = x"
  by (simp add: evidence_class_canon_def)

datatype interconnect_technology
  = IT_UNKNOWN | IT_NONE | IT_NVLINK | IT_PCIE | IT_CXL | IT_OTHER | IT_RAW u8

fun interconnect_technology_name :: "interconnect_technology \<Rightarrow> string" where
  "interconnect_technology_name IT_UNKNOWN = ''UNKNOWN''"
| "interconnect_technology_name IT_NONE = ''NONE''"
| "interconnect_technology_name IT_NVLINK = ''NVLink''"
| "interconnect_technology_name IT_PCIE = ''PCIe''"
| "interconnect_technology_name IT_CXL = ''CXL''"
| "interconnect_technology_name IT_OTHER = ''OTHER''"
| "interconnect_technology_name (IT_RAW _) = ''UNKNOWN''"

fun interconnect_technology_to_u8 :: "interconnect_technology \<Rightarrow> u8" where
  "interconnect_technology_to_u8 IT_UNKNOWN = 0"
| "interconnect_technology_to_u8 IT_NONE = 1"
| "interconnect_technology_to_u8 IT_NVLINK = 2"
| "interconnect_technology_to_u8 IT_PCIE = 3"
| "interconnect_technology_to_u8 IT_CXL = 4"
| "interconnect_technology_to_u8 IT_OTHER = 5"
| "interconnect_technology_to_u8 (IT_RAW b) = b"

definition interconnect_technology_of_u8 :: "u8 \<Rightarrow> interconnect_technology" where
  "interconnect_technology_of_u8 b =
    (if b = 0 then IT_UNKNOWN else if b = 1 then IT_NONE else if b = 2 then IT_NVLINK
     else if b = 3 then IT_PCIE else if b = 4 then IT_CXL else if b = 5 then IT_OTHER
     else IT_RAW b)"

definition interconnect_technology_canon :: "interconnect_technology \<Rightarrow> bool" where
  "interconnect_technology_canon x \<longleftrightarrow> interconnect_technology_of_u8 (interconnect_technology_to_u8 x) = x"

lemma interconnect_technology_to_of_u8 [enum_simps]: "interconnect_technology_to_u8 (interconnect_technology_of_u8 b) = b"
  by (simp add: interconnect_technology_of_u8_def)

lemma interconnect_technology_of_to_u8 [enum_simps]: "interconnect_technology_canon x \<Longrightarrow> interconnect_technology_of_u8 (interconnect_technology_to_u8 x) = x"
  by (simp add: interconnect_technology_canon_def)

datatype device_health_state
  = DH_UNKNOWN | DH_PRESENT | DH_ABSENT | DH_DEGRADED | DH_REVALIDATION_REQUIRED
  | DH_INCOMPATIBLE | DH_UNREACHABLE | DH_RAW u8

fun device_health_name :: "device_health_state \<Rightarrow> string" where
  "device_health_name DH_UNKNOWN = ''UNKNOWN''"
| "device_health_name DH_PRESENT = ''PRESENT''"
| "device_health_name DH_ABSENT = ''ABSENT''"
| "device_health_name DH_DEGRADED = ''DEGRADED''"
| "device_health_name DH_REVALIDATION_REQUIRED = ''REVALIDATION_REQUIRED''"
| "device_health_name DH_INCOMPATIBLE = ''INCOMPATIBLE''"
| "device_health_name DH_UNREACHABLE = ''UNREACHABLE''"
| "device_health_name (DH_RAW _) = ''UNKNOWN''"

fun device_health_state_to_u8 :: "device_health_state \<Rightarrow> u8" where
  "device_health_state_to_u8 DH_UNKNOWN = 0"
| "device_health_state_to_u8 DH_PRESENT = 1"
| "device_health_state_to_u8 DH_ABSENT = 2"
| "device_health_state_to_u8 DH_DEGRADED = 3"
| "device_health_state_to_u8 DH_REVALIDATION_REQUIRED = 4"
| "device_health_state_to_u8 DH_INCOMPATIBLE = 5"
| "device_health_state_to_u8 DH_UNREACHABLE = 6"
| "device_health_state_to_u8 (DH_RAW b) = b"

definition device_health_state_of_u8 :: "u8 \<Rightarrow> device_health_state" where
  "device_health_state_of_u8 b =
    (if b = 0 then DH_UNKNOWN else if b = 1 then DH_PRESENT else if b = 2 then DH_ABSENT
     else if b = 3 then DH_DEGRADED else if b = 4 then DH_REVALIDATION_REQUIRED else if
     b = 5 then DH_INCOMPATIBLE else if b = 6 then DH_UNREACHABLE else DH_RAW b)"

definition device_health_state_canon :: "device_health_state \<Rightarrow> bool" where
  "device_health_state_canon x \<longleftrightarrow> device_health_state_of_u8 (device_health_state_to_u8 x) = x"

lemma device_health_state_to_of_u8 [enum_simps]: "device_health_state_to_u8 (device_health_state_of_u8 b) = b"
  by (simp add: device_health_state_of_u8_def)

lemma device_health_state_of_to_u8 [enum_simps]: "device_health_state_canon x \<Longrightarrow> device_health_state_of_u8 (device_health_state_to_u8 x) = x"
  by (simp add: device_health_state_canon_def)

datatype link_operational_state
  = LS_UNKNOWN | LS_PRESENT | LS_ABSENT | LS_SUPPORTED | LS_UNSUPPORTED | LS_UP | LS_DOWN
  | LS_DEGRADED | LS_REVALIDATION_REQUIRED | LS_STALE | LS_INCOMPATIBLE | LS_UNREACHABLE
  | LS_RAW u8

fun link_state_name :: "link_operational_state \<Rightarrow> string" where
  "link_state_name LS_UNKNOWN = ''UNKNOWN''"
| "link_state_name LS_PRESENT = ''PRESENT''"
| "link_state_name LS_ABSENT = ''ABSENT''"
| "link_state_name LS_SUPPORTED = ''SUPPORTED''"
| "link_state_name LS_UNSUPPORTED = ''UNSUPPORTED''"
| "link_state_name LS_UP = ''UP''"
| "link_state_name LS_DOWN = ''DOWN''"
| "link_state_name LS_DEGRADED = ''DEGRADED''"
| "link_state_name LS_REVALIDATION_REQUIRED = ''REVALIDATION_REQUIRED''"
| "link_state_name LS_STALE = ''STALE''"
| "link_state_name LS_INCOMPATIBLE = ''INCOMPATIBLE''"
| "link_state_name LS_UNREACHABLE = ''UNREACHABLE''"
| "link_state_name (LS_RAW _) = ''UNKNOWN''"

fun link_operational_state_to_u8 :: "link_operational_state \<Rightarrow> u8" where
  "link_operational_state_to_u8 LS_UNKNOWN = 0"
| "link_operational_state_to_u8 LS_PRESENT = 1"
| "link_operational_state_to_u8 LS_ABSENT = 2"
| "link_operational_state_to_u8 LS_SUPPORTED = 3"
| "link_operational_state_to_u8 LS_UNSUPPORTED = 4"
| "link_operational_state_to_u8 LS_UP = 5"
| "link_operational_state_to_u8 LS_DOWN = 6"
| "link_operational_state_to_u8 LS_DEGRADED = 7"
| "link_operational_state_to_u8 LS_REVALIDATION_REQUIRED = 8"
| "link_operational_state_to_u8 LS_STALE = 9"
| "link_operational_state_to_u8 LS_INCOMPATIBLE = 10"
| "link_operational_state_to_u8 LS_UNREACHABLE = 11"
| "link_operational_state_to_u8 (LS_RAW b) = b"

definition link_operational_state_of_u8 :: "u8 \<Rightarrow> link_operational_state" where
  "link_operational_state_of_u8 b =
    (if b = 0 then LS_UNKNOWN else if b = 1 then LS_PRESENT else if b = 2 then LS_ABSENT
     else if b = 3 then LS_SUPPORTED else if b = 4 then LS_UNSUPPORTED else if b = 5
     then LS_UP else if b = 6 then LS_DOWN else if b = 7 then LS_DEGRADED else if b = 8
     then LS_REVALIDATION_REQUIRED else if b = 9 then LS_STALE else if b = 10 then
     LS_INCOMPATIBLE else if b = 11 then LS_UNREACHABLE else LS_RAW b)"

definition link_operational_state_canon :: "link_operational_state \<Rightarrow> bool" where
  "link_operational_state_canon x \<longleftrightarrow> link_operational_state_of_u8 (link_operational_state_to_u8 x) = x"

lemma link_operational_state_to_of_u8 [enum_simps]: "link_operational_state_to_u8 (link_operational_state_of_u8 b) = b"
  by (simp add: link_operational_state_of_u8_def)

lemma link_operational_state_of_to_u8 [enum_simps]: "link_operational_state_canon x \<Longrightarrow> link_operational_state_of_u8 (link_operational_state_to_u8 x) = x"
  by (simp add: link_operational_state_canon_def)

datatype route_decision_outcome
  = RD_ROUTE_ALLOWED | RD_ROUTE_ALLOWED_DEGRADED | RD_NO_ROUTE | RD_STALE_TOPOLOGY
  | RD_REVALIDATION_REQUIRED | RD_UNSUPPORTED | RD_INSUFFICIENT_EVIDENCE | RD_POLICY_REJECTED
  | RD_ENDPOINT_STALE | RD_LINK_STALE | RD_RAW u8

fun route_outcome_name :: "route_decision_outcome \<Rightarrow> string" where
  "route_outcome_name RD_ROUTE_ALLOWED = ''ROUTE_ALLOWED''"
| "route_outcome_name RD_ROUTE_ALLOWED_DEGRADED = ''ROUTE_ALLOWED_DEGRADED''"
| "route_outcome_name RD_NO_ROUTE = ''NO_ROUTE''"
| "route_outcome_name RD_STALE_TOPOLOGY = ''STALE_TOPOLOGY''"
| "route_outcome_name RD_REVALIDATION_REQUIRED = ''REVALIDATION_REQUIRED''"
| "route_outcome_name RD_UNSUPPORTED = ''UNSUPPORTED''"
| "route_outcome_name RD_INSUFFICIENT_EVIDENCE = ''INSUFFICIENT_EVIDENCE''"
| "route_outcome_name RD_POLICY_REJECTED = ''POLICY_REJECTED''"
| "route_outcome_name RD_ENDPOINT_STALE = ''ENDPOINT_STALE''"
| "route_outcome_name RD_LINK_STALE = ''LINK_STALE''"
| "route_outcome_name (RD_RAW _) = ''UNKNOWN''"

fun route_decision_outcome_to_u8 :: "route_decision_outcome \<Rightarrow> u8" where
  "route_decision_outcome_to_u8 RD_ROUTE_ALLOWED = 0"
| "route_decision_outcome_to_u8 RD_ROUTE_ALLOWED_DEGRADED = 1"
| "route_decision_outcome_to_u8 RD_NO_ROUTE = 2"
| "route_decision_outcome_to_u8 RD_STALE_TOPOLOGY = 3"
| "route_decision_outcome_to_u8 RD_REVALIDATION_REQUIRED = 4"
| "route_decision_outcome_to_u8 RD_UNSUPPORTED = 5"
| "route_decision_outcome_to_u8 RD_INSUFFICIENT_EVIDENCE = 6"
| "route_decision_outcome_to_u8 RD_POLICY_REJECTED = 7"
| "route_decision_outcome_to_u8 RD_ENDPOINT_STALE = 8"
| "route_decision_outcome_to_u8 RD_LINK_STALE = 9"
| "route_decision_outcome_to_u8 (RD_RAW b) = b"

definition route_decision_outcome_of_u8 :: "u8 \<Rightarrow> route_decision_outcome" where
  "route_decision_outcome_of_u8 b =
    (if b = 0 then RD_ROUTE_ALLOWED else if b = 1 then RD_ROUTE_ALLOWED_DEGRADED else if
     b = 2 then RD_NO_ROUTE else if b = 3 then RD_STALE_TOPOLOGY else if b = 4 then
     RD_REVALIDATION_REQUIRED else if b = 5 then RD_UNSUPPORTED else if b = 6 then
     RD_INSUFFICIENT_EVIDENCE else if b = 7 then RD_POLICY_REJECTED else if b = 8 then
     RD_ENDPOINT_STALE else if b = 9 then RD_LINK_STALE else RD_RAW b)"

definition route_decision_outcome_canon :: "route_decision_outcome \<Rightarrow> bool" where
  "route_decision_outcome_canon x \<longleftrightarrow> route_decision_outcome_of_u8 (route_decision_outcome_to_u8 x) = x"

lemma route_decision_outcome_to_of_u8 [enum_simps]: "route_decision_outcome_to_u8 (route_decision_outcome_of_u8 b) = b"
  by (simp add: route_decision_outcome_of_u8_def)

lemma route_decision_outcome_of_to_u8 [enum_simps]: "route_decision_outcome_canon x \<Longrightarrow> route_decision_outcome_of_u8 (route_decision_outcome_to_u8 x) = x"
  by (simp add: route_decision_outcome_canon_def)

datatype measurement_support
  = MS_UNKNOWN | MS_UNSUPPORTED | MS_SYNTHETIC_ONLY | MS_REAL | MS_RAW u8

fun measurement_support_name :: "measurement_support \<Rightarrow> string" where
  "measurement_support_name MS_UNKNOWN = ''UNKNOWN''"
| "measurement_support_name MS_UNSUPPORTED = ''UNSUPPORTED''"
| "measurement_support_name MS_SYNTHETIC_ONLY = ''SYNTHETIC_ONLY''"
| "measurement_support_name MS_REAL = ''REAL''"
| "measurement_support_name (MS_RAW _) = ''UNKNOWN''"

fun measurement_support_to_u8 :: "measurement_support \<Rightarrow> u8" where
  "measurement_support_to_u8 MS_UNKNOWN = 0"
| "measurement_support_to_u8 MS_UNSUPPORTED = 1"
| "measurement_support_to_u8 MS_SYNTHETIC_ONLY = 2"
| "measurement_support_to_u8 MS_REAL = 3"
| "measurement_support_to_u8 (MS_RAW b) = b"

definition measurement_support_of_u8 :: "u8 \<Rightarrow> measurement_support" where
  "measurement_support_of_u8 b =
    (if b = 0 then MS_UNKNOWN else if b = 1 then MS_UNSUPPORTED else if b = 2 then
     MS_SYNTHETIC_ONLY else if b = 3 then MS_REAL else MS_RAW b)"

definition measurement_support_canon :: "measurement_support \<Rightarrow> bool" where
  "measurement_support_canon x \<longleftrightarrow> measurement_support_of_u8 (measurement_support_to_u8 x) = x"

lemma measurement_support_to_of_u8 [enum_simps]: "measurement_support_to_u8 (measurement_support_of_u8 b) = b"
  by (simp add: measurement_support_of_u8_def)

lemma measurement_support_of_to_u8 [enum_simps]: "measurement_support_canon x \<Longrightarrow> measurement_support_of_u8 (measurement_support_to_u8 x) = x"
  by (simp add: measurement_support_canon_def)

datatype node_kind
  = NK_ACCELERATOR | NK_SWITCH | NK_HOST | NK_UNKNOWN | NK_RAW u8

fun node_kind_name :: "node_kind \<Rightarrow> string" where
  "node_kind_name NK_ACCELERATOR = ''ACCELERATOR''"
| "node_kind_name NK_SWITCH = ''SWITCH''"
| "node_kind_name NK_HOST = ''HOST''"
| "node_kind_name NK_UNKNOWN = ''UNKNOWN''"
| "node_kind_name (NK_RAW _) = ''UNKNOWN''"

fun node_kind_to_u8 :: "node_kind \<Rightarrow> u8" where
  "node_kind_to_u8 NK_ACCELERATOR = 0"
| "node_kind_to_u8 NK_SWITCH = 1"
| "node_kind_to_u8 NK_HOST = 2"
| "node_kind_to_u8 NK_UNKNOWN = 3"
| "node_kind_to_u8 (NK_RAW b) = b"

definition node_kind_of_u8 :: "u8 \<Rightarrow> node_kind" where
  "node_kind_of_u8 b =
    (if b = 0 then NK_ACCELERATOR else if b = 1 then NK_SWITCH else if b = 2 then
     NK_HOST else if b = 3 then NK_UNKNOWN else NK_RAW b)"

definition node_kind_canon :: "node_kind \<Rightarrow> bool" where
  "node_kind_canon x \<longleftrightarrow> node_kind_of_u8 (node_kind_to_u8 x) = x"

lemma node_kind_to_of_u8 [enum_simps]: "node_kind_to_u8 (node_kind_of_u8 b) = b"
  by (simp add: node_kind_of_u8_def)

lemma node_kind_of_to_u8 [enum_simps]: "node_kind_canon x \<Longrightarrow> node_kind_of_u8 (node_kind_to_u8 x) = x"
  by (simp add: node_kind_canon_def)

datatype path_quality_outcome
  = PQ_HEALTHY | PQ_DEGRADED | PQ_CONTENDED | PQ_LINK_DOWN | PQ_NO_PATH
  | PQ_INSUFFICIENT_EVIDENCE | PQ_REVALIDATION_REQUIRED | PQ_UNSUPPORTED

fun path_quality_outcome_name :: "path_quality_outcome \<Rightarrow> string" where
  "path_quality_outcome_name PQ_HEALTHY = ''HEALTHY''"
| "path_quality_outcome_name PQ_DEGRADED = ''DEGRADED''"
| "path_quality_outcome_name PQ_CONTENDED = ''CONTENDED''"
| "path_quality_outcome_name PQ_LINK_DOWN = ''LINK_DOWN''"
| "path_quality_outcome_name PQ_NO_PATH = ''NO_PATH''"
| "path_quality_outcome_name PQ_INSUFFICIENT_EVIDENCE = ''INSUFFICIENT_EVIDENCE''"
| "path_quality_outcome_name PQ_REVALIDATION_REQUIRED = ''REVALIDATION_REQUIRED''"
| "path_quality_outcome_name PQ_UNSUPPORTED = ''UNSUPPORTED''"

datatype route_rejection_reason
  = RR_NONE | RR_ENDPOINT_UNKNOWN | RR_ENDPOINT_ABSENT | RR_ENDPOINT_STALE_GENERATION
  | RR_LINK_UNSUPPORTED | RR_LINK_DOWN | RR_LINK_DEGRADED_BELOW_MINIMUM
  | RR_LINK_STALE_GENERATION | RR_TOPOLOGY_STALE | RR_INSUFFICIENT_EVIDENCE
  | RR_FRESHNESS_VIOLATION | RR_MIN_CAPABILITY_UNMET | RR_TECHNOLOGY_EXCLUDED
  | RR_POLICY_EXCLUDED | RR_PATH_TOO_DEEP | RR_NOT_DIRECT

fun rejection_reason_name :: "route_rejection_reason \<Rightarrow> string" where
  "rejection_reason_name RR_NONE = ''NONE''"
| "rejection_reason_name RR_ENDPOINT_UNKNOWN = ''ENDPOINT_UNKNOWN''"
| "rejection_reason_name RR_ENDPOINT_ABSENT = ''ENDPOINT_ABSENT''"
| "rejection_reason_name RR_ENDPOINT_STALE_GENERATION = ''ENDPOINT_STALE_GENERATION''"
| "rejection_reason_name RR_LINK_UNSUPPORTED = ''LINK_UNSUPPORTED''"
| "rejection_reason_name RR_LINK_DOWN = ''LINK_DOWN''"
| "rejection_reason_name RR_LINK_DEGRADED_BELOW_MINIMUM = ''LINK_DEGRADED_BELOW_MINIMUM''"
| "rejection_reason_name RR_LINK_STALE_GENERATION = ''LINK_STALE_GENERATION''"
| "rejection_reason_name RR_TOPOLOGY_STALE = ''TOPOLOGY_STALE''"
| "rejection_reason_name RR_INSUFFICIENT_EVIDENCE = ''INSUFFICIENT_EVIDENCE''"
| "rejection_reason_name RR_FRESHNESS_VIOLATION = ''FRESHNESS_VIOLATION''"
| "rejection_reason_name RR_MIN_CAPABILITY_UNMET = ''MIN_CAPABILITY_UNMET''"
| "rejection_reason_name RR_TECHNOLOGY_EXCLUDED = ''TECHNOLOGY_EXCLUDED''"
| "rejection_reason_name RR_POLICY_EXCLUDED = ''POLICY_EXCLUDED''"
| "rejection_reason_name RR_PATH_TOO_DEEP = ''PATH_TOO_DEEP''"
| "rejection_reason_name RR_NOT_DIRECT = ''NOT_DIRECT''"

section \<open>Provenance bits\<close>

type_synonym provenance = u32

definition PROV_NONE :: provenance where "PROV_NONE = 0"
definition PROV_NVML :: provenance where "PROV_NVML = 1"
definition PROV_CUDA_RUNTIME :: provenance where "PROV_CUDA_RUNTIME = push_bit 1 1"
definition PROV_CUDA_DRIVER :: provenance where "PROV_CUDA_DRIVER = push_bit 2 1"
definition PROV_OPERATING_SYSTEM :: provenance where "PROV_OPERATING_SYSTEM = push_bit 3 1"
definition PROV_BENCHMARK :: provenance where "PROV_BENCHMARK = push_bit 4 1"
definition PROV_PERSISTED :: provenance where "PROV_PERSISTED = push_bit 5 1"
definition PROV_DERIVED :: provenance where "PROV_DERIVED = push_bit 6 1"
definition PROV_SYNTHETIC_FIXTURE :: provenance where "PROV_SYNTHETIC_FIXTURE = push_bit 7 1"

definition add_provenance_name :: "provenance \<Rightarrow> provenance \<times> string \<Rightarrow> string \<Rightarrow> string" where
  \<comment> \<open>the lambda \<open>add\<close> of \<open>provenance_name\<close>\<close>
  "add_provenance_name p bn out =
     (if p AND fst bn \<noteq> 0 then (if out \<noteq> [] then out @ ''|'' else out) @ snd bn else out)"

definition provenance_names :: "(provenance \<times> string) list" where
  "provenance_names =
     [(PROV_NVML, ''NVML''), (PROV_CUDA_RUNTIME, ''CUDA_RUNTIME''),
      (PROV_CUDA_DRIVER, ''CUDA_DRIVER''), (PROV_OPERATING_SYSTEM, ''OS''),
      (PROV_BENCHMARK, ''BENCHMARK''), (PROV_PERSISTED, ''PERSISTED''),
      (PROV_DERIVED, ''DERIVED''), (PROV_SYNTHETIC_FIXTURE, ''SYNTHETIC_FIXTURE'')]"

definition provenance_name :: "provenance \<Rightarrow> string" where
  "provenance_name p =
     (let out = fold (add_provenance_name p) provenance_names []
      in if out = [] then ''NONE'' else out)"

end
