(* ===== verification/Binary64.thy ===== *)
theory Binary64
  imports Complex_Main Prelude "HOL-Library.Log_Nat"
begin

text \<open>
  The C++ type \<open>double\<close> as IEEE 754 binary64 with round to nearest, ties to even: the finite
  values are rational numbers, and every arithmetic operation rounds the exact result
  (\<open>f64_round\<close>: 53 significant bits, smallest exponent \<open>-1074\<close>, overflow to an
  infinity). NaN and the infinities are values of their own. The sign of a zero is not
  represented: the sources only divide by a value that is at least \<open>1.0\<close> or of the form
  \<open>1.0 + x\<close>, which is never a negative zero, so it cannot be observed.
\<close>

datatype f64 = F64_NaN | F64_NInf | F64_PInf | F64 rat

section \<open>Rounding\<close>

definition ilog2 :: "rat \<Rightarrow> int" where
  \<comment> \<open>\<open>\<lfloor>log2 x\<rfloor>\<close> for a positive \<open>x\<close>, from the bit lengths of numerator and denominator\<close>
  "ilog2 x = (let (p, q) = quotient_of x; k = bitlen p - bitlen q
              in if 2 powi k \<le> x then k else k - 1)"

definition round_half_even :: "rat \<Rightarrow> int" where
  "round_half_even m =
     (let f = \<lfloor>m\<rfloor>; d = m - of_int f
      in if d < 1 / 2 then f else if 1 / 2 < d then f + 1 else if even f then f else f + 1)"

definition f64_ulp_exp :: "rat \<Rightarrow> int" where
  "f64_ulp_exp x = max (ilog2 \<bar>x\<bar> - 52) (- 1074)"

definition f64_round :: "rat \<Rightarrow> f64" where
  "f64_round x =
     (if x = 0 then F64 0
      else let e = f64_ulp_exp x; r = of_int (round_half_even (x / 2 powi e)) * 2 powi e
           in if 2 ^ 1024 \<le> r then F64_PInf else if r \<le> - (2 ^ 1024) then F64_NInf else F64 r)"

section \<open>Arithmetic and comparison\<close>

definition f64_inf :: "bool \<Rightarrow> f64" where
  "f64_inf neg = (if neg then F64_NInf else F64_PInf)"

fun f64_add :: "f64 \<Rightarrow> f64 \<Rightarrow> f64" where
  "f64_add F64_NaN y = F64_NaN"
| "f64_add x F64_NaN = F64_NaN"
| "f64_add F64_PInf F64_NInf = F64_NaN"
| "f64_add F64_NInf F64_PInf = F64_NaN"
| "f64_add F64_PInf y = F64_PInf"
| "f64_add x F64_PInf = F64_PInf"
| "f64_add F64_NInf y = F64_NInf"
| "f64_add x F64_NInf = F64_NInf"
| "f64_add (F64 a) (F64 b) = f64_round (a + b)"

fun f64_mul :: "f64 \<Rightarrow> f64 \<Rightarrow> f64" where
  "f64_mul F64_NaN y = F64_NaN"
| "f64_mul x F64_NaN = F64_NaN"
| "f64_mul (F64 a) (F64 b) = f64_round (a * b)"
| "f64_mul (F64 a) y = (if a = 0 then F64_NaN else f64_inf ((a < 0) \<noteq> (y = F64_NInf)))"
| "f64_mul x (F64 b) = (if b = 0 then F64_NaN else f64_inf ((b < 0) \<noteq> (x = F64_NInf)))"
| "f64_mul x y = f64_inf ((x = F64_NInf) \<noteq> (y = F64_NInf))"

fun f64_div :: "f64 \<Rightarrow> f64 \<Rightarrow> f64" where
  "f64_div F64_NaN y = F64_NaN"
| "f64_div x F64_NaN = F64_NaN"
| "f64_div (F64 a) (F64 b) =
     (if b = 0 then (if a = 0 then F64_NaN else f64_inf (a < 0)) else f64_round (a / b))"
| "f64_div (F64 a) y = F64 0"
| "f64_div x (F64 b) = f64_inf ((b < 0) \<noteq> (x = F64_NInf))"
| "f64_div x y = F64_NaN"

fun f64_lt :: "f64 \<Rightarrow> f64 \<Rightarrow> bool" where
  "f64_lt F64_NaN y = False"
| "f64_lt x F64_NaN = False"
| "f64_lt (F64 a) (F64 b) = (a < b)"
| "f64_lt F64_NInf y = (y \<noteq> F64_NInf)"
| "f64_lt x F64_PInf = (x \<noteq> F64_PInf)"
| "f64_lt x y = False"

definition f64_eq :: "f64 \<Rightarrow> f64 \<Rightarrow> bool" where
  \<comment> \<open>\<open>==\<close>: NaN is different from everything, itself included\<close>
  "f64_eq x y \<longleftrightarrow> x \<noteq> F64_NaN \<and> x = y"

definition f64_le :: "f64 \<Rightarrow> f64 \<Rightarrow> bool" where
  "f64_le x y \<longleftrightarrow> f64_lt x y \<or> f64_eq x y"

definition f64_max :: "f64 \<Rightarrow> f64 \<Rightarrow> f64" where
  \<comment> \<open>\<open>std::max(a, b)\<close> is \<open>(a < b) ? b : a\<close>\<close>
  "f64_max a b = (if f64_lt a b then b else a)"

definition f64_of_nat :: "nat \<Rightarrow> f64" where
  \<comment> \<open>\<open>static_cast<double>\<close> of an unsigned integer\<close>
  "f64_of_nat n = f64_round (of_nat n)"

definition f64_of_u64 :: "u64 \<Rightarrow> f64" where
  "f64_of_u64 x = f64_of_nat (unat x)"

section \<open>The order\<close>

definition f64_is_nan :: "f64 \<Rightarrow> bool" where
  "f64_is_nan x \<longleftrightarrow> x = F64_NaN"

lemma f64_lt_irrefl [simp]: "\<not> f64_lt x x"
  by (cases x) auto

lemma f64_lt_trans: "f64_lt x y \<Longrightarrow> f64_lt y z \<Longrightarrow> f64_lt x z"
  by (cases x; cases y; cases z) auto

lemma f64_lt_asym: "f64_lt x y \<Longrightarrow> \<not> f64_lt y x"
  using f64_lt_trans f64_lt_irrefl by blast

lemma f64_lt_nan [simp]: "\<not> f64_lt x F64_NaN" "\<not> f64_lt F64_NaN x"
  by (cases x; simp)+

lemma f64_lt_total: "x \<noteq> F64_NaN \<Longrightarrow> y \<noteq> F64_NaN \<Longrightarrow> f64_lt x y \<or> x = y \<or> f64_lt y x"
  by (cases x; cases y) auto

lemma f64_max_ge: "\<not> f64_lt (f64_max a b) a"
  by (auto simp: f64_max_def dest: f64_lt_asym)

section \<open>Rounding is exact on small significands, monotone and bounded\<close>

lemma bitlen_powi_bounds:
  assumes "0 < (p::int)"
  shows "2 powi (bitlen p - 1) \<le> (of_int p :: rat)" and "(of_int p :: rat) < 2 powi (bitlen p)"
proof -
  from assms have b: "2 ^ nat (bitlen p - 1) \<le> p" "p < 2 ^ nat (bitlen p)"
    using bitlen_bounds by auto
  have pos: "0 < bitlen p" using b(2) assms by (cases "0 < bitlen p") auto
  have "(of_int (2 ^ nat (bitlen p - 1)) :: rat) \<le> of_int p" using b(1) by (simp only: of_int_le_iff)
  then show "2 powi (bitlen p - 1) \<le> (of_int p :: rat)" using pos by (simp add: power_int_def)
  have "(of_int p :: rat) < of_int (2 ^ nat (bitlen p))" using b(2) by (simp only: of_int_less_iff)
  then show "(of_int p :: rat) < 2 powi (bitlen p)" using pos by (simp add: power_int_def)
qed

lemma ilog2_bounds:
  assumes "0 < x"
  shows "2 powi (ilog2 x) \<le> x" and "x < 2 powi (ilog2 x + 1)"
proof -
  obtain p q where pq: "quotient_of x = (p, q)" by force
  then have q: "0 < q" and x: "x = of_int p / of_int q"
    using quotient_of_denom_pos quotient_of_div by blast+
  with assms have p: "0 < p" by (simp add: zero_less_divide_iff)
  let ?k = "bitlen p - bitlen q"
  note bp = bitlen_powi_bounds [OF p] and bq = bitlen_powi_bounds [OF q]
  have "2 powi (?k - 1) * of_int q \<le> 2 powi (?k - 1) * (2 powi (bitlen q) :: rat)"
    using bq by (intro mult_left_mono) auto
  also have "\<dots> = 2 powi (bitlen p - 1)"
    by (simp flip: power_int_add)
  finally have lo: "2 powi (?k - 1) \<le> x" using q bp by (simp add: x field_simps)
  have "2 powi (bitlen p) = 2 powi (?k + 1) * (2 powi (bitlen q - 1) :: rat)"
    by (simp flip: power_int_add)
  also have "\<dots> \<le> 2 powi (?k + 1) * of_int q"
    using bq by (intro mult_left_mono) auto
  finally have hi: "x < 2 powi (?k + 1)" using q bp by (simp add: x field_simps)
  show "2 powi (ilog2 x) \<le> x" and "x < 2 powi (ilog2 x + 1)"
    using lo hi by (auto simp: ilog2_def pq Let_def)
qed

lemma ilog2_unique:
  assumes "2 powi k \<le> x" "x < 2 powi (k + 1)"
  shows "ilog2 x = k"
proof -
  have pos: "0 < x" using assms(1) by (meson less_le_trans zero_less_numeral zero_less_power_int)
  have "2 powi k < (2 powi (ilog2 x + 1) :: rat)" "2 powi (ilog2 x) < (2 powi (k + 1) :: rat)"
    using ilog2_bounds [OF pos] assms by linarith+
  then have "k < ilog2 x + 1" "ilog2 x < k + 1"
    by (meson not_le one_le_numeral power_int_increasing)+
  then show ?thesis by simp
qed

lemma round_half_even_of_int [simp]: "round_half_even (of_int n) = n"
  by (simp add: round_half_even_def)

lemma round_half_even_mono: "a \<le> b \<Longrightarrow> round_half_even a \<le> round_half_even b"
proof -
  assume ab: "a \<le> b"
  show ?thesis
  proof (cases "\<lfloor>a\<rfloor> = \<lfloor>b\<rfloor>")
    case True
    with ab show ?thesis by (auto simp: round_half_even_def Let_def)
  next
    case False
    with ab have "\<lfloor>a\<rfloor> + 1 \<le> \<lfloor>b\<rfloor>" using floor_mono [OF ab] by linarith
    then show ?thesis by (auto simp: round_half_even_def Let_def)
  qed
qed

lemma power_int_2_pos [simp]: "0 < (2 powi e :: rat)"
  by simp

lemma f64_round_exact:
  assumes "\<bar>m\<bar> < 2 ^ 53" "- 1074 \<le> e" "e \<le> 971"
  shows "f64_round (of_int m * 2 powi e) = F64 (of_int m * 2 powi e)"
proof (cases "m = 0")
  case True
  then show ?thesis by (simp add: f64_round_def)
next
  case False
  define x :: rat where "x = of_int m * 2 powi e"
  define u where "u = f64_ulp_exp x"
  have absx: "\<bar>x\<bar> = of_int \<bar>m\<bar> * 2 powi e" by (simp add: x_def abs_mult)
  have x0: "x \<noteq> 0" using False by (simp add: x_def)
  have "(of_int \<bar>m\<bar> :: rat) < 2 powi 53" using assms(1)
    by (simp add: power_int_def)
  then have "\<bar>x\<bar> < 2 powi 53 * 2 powi e" unfolding absx by (intro mult_strict_right_mono) auto
  then have xb: "\<bar>x\<bar> < 2 powi (53 + e)" by (simp add: power_int_add)
  have "2 powi (ilog2 \<bar>x\<bar>) < (2 powi (53 + e) :: rat)"
    using ilog2_bounds(1) [of "\<bar>x\<bar>"] x0 xb by linarith
  then have "ilog2 \<bar>x\<bar> < 53 + e" by (meson not_le one_le_numeral power_int_increasing)
  then have ue: "u \<le> e" using assms(2) by (simp add: u_def f64_ulp_exp_def)
  have "x / 2 powi u = of_int m * 2 powi (e - u)" by (simp add: x_def power_int_diff)
  also have "\<dots> = of_int (m * 2 ^ nat (e - u))" using ue by (simp add: power_int_def)
  finally have q: "x / 2 powi u = of_int (m * 2 ^ nat (e - u))" .
  have "of_int (round_half_even (x / 2 powi u)) = x / 2 powi u"
    unfolding q by (simp only: round_half_even_of_int)
  then have r: "of_int (round_half_even (x / 2 powi u)) * 2 powi u = x" by simp
  have "\<bar>x\<bar> < 2 powi 1024" using xb assms(3)
      power_int_increasing [of "53 + e" 1024 "2::rat"] by simp
  then have "\<bar>x\<bar> < 2 ^ 1024" by (simp add: power_int_def)
  then show ?thesis using x0 r unfolding f64_round_def Let_def u_def [symmetric] x_def [symmetric] by auto
qed

definition f64_round_fin :: "rat \<Rightarrow> rat" where
  "f64_round_fin x = (if x = 0 then 0 else of_int (round_half_even (x / 2 powi (f64_ulp_exp x))) * 2 powi (f64_ulp_exp x))"

lemma f64_round_alt:
  "f64_round x = (if 2 ^ 1024 \<le> f64_round_fin x then F64_PInf
     else if f64_round_fin x \<le> - (2 ^ 1024) then F64_NInf else F64 (f64_round_fin x))"
  by (auto simp: f64_round_def f64_round_fin_def Let_def)

lemma f64_ulp_exp_mono: "0 < x \<Longrightarrow> x \<le> y \<Longrightarrow> f64_ulp_exp x \<le> f64_ulp_exp y"
proof -
  assume *: "0 < x" "x \<le> y"
  have "2 powi (ilog2 x) < (2 powi (ilog2 y + 1) :: rat)"
    using ilog2_bounds(1) [of x] ilog2_bounds(2) [of y] * by linarith
  then have "ilog2 x < ilog2 y + 1" by (meson not_le one_le_numeral power_int_increasing)
  with * show ?thesis by (simp add: f64_ulp_exp_def)
qed

lemma f64_round_fin_nonneg: "0 \<le> x \<Longrightarrow> 0 \<le> f64_round_fin x"
proof -
  assume "0 \<le> x"
  then have "0 \<le> round_half_even (x / 2 powi (f64_ulp_exp x))"
    using round_half_even_mono [of 0 "x / 2 powi (f64_ulp_exp x)"] round_half_even_of_int [of 0] by simp
  then show ?thesis by (simp add: f64_round_fin_def)
qed

lemma f64_round_fin_mono_pos:
  assumes "0 < x" "x \<le> y"
  shows "f64_round_fin x \<le> f64_round_fin y"
proof (cases "f64_ulp_exp x = f64_ulp_exp y")
  case True
  have "round_half_even (x / 2 powi (f64_ulp_exp y)) \<le> round_half_even (y / 2 powi (f64_ulp_exp y))"
    using assms by (intro round_half_even_mono divide_right_mono) auto
  with assms True show ?thesis
    by (simp add: f64_round_fin_def)
next
  case False
  define u v where "u = f64_ulp_exp x" and "v = f64_ulp_exp y"
  have uv: "u < v" using f64_ulp_exp_mono [OF assms] False by (simp add: u_def v_def)
  have y0: "0 < y" using assms by simp
  have vl: "v = ilog2 y - 52" using uv assms by (auto simp: u_def v_def f64_ulp_exp_def)
  have "x < 2 powi (ilog2 x + 1)" using ilog2_bounds(2) assms by simp
  also have "\<dots> \<le> 2 powi (u + 53)" using assms by (intro power_int_increasing) (auto simp: u_def f64_ulp_exp_def)
  finally have "x / 2 powi u \<le> 2 powi 53" by (simp add: power_int_add field_simps)
  then have "x / 2 powi u \<le> of_int (2 ^ 53)" by (simp add: power_int_def)
  from round_half_even_mono [OF this] have "round_half_even (x / 2 powi u) \<le> 2 ^ 53" by (simp only: round_half_even_of_int)
  then have "(of_int (round_half_even (x / 2 powi u)) :: rat) \<le> of_int (2 ^ 53)" by (simp only: of_int_le_iff)
  then have "f64_round_fin x \<le> 2 powi 53 * 2 powi u"
    using assms by (simp add: f64_round_fin_def u_def power_int_def mult_right_mono)
  also have "\<dots> = 2 powi (53 + u)" by (simp add: power_int_add)
  also have "\<dots> \<le> 2 powi (52 + v)" using uv by (intro power_int_increasing) auto
  finally have fx: "f64_round_fin x \<le> 2 powi 52 * 2 powi v" by (simp add: power_int_add)
  have "2 powi (52 + v) \<le> y" using ilog2_bounds(1) [OF y0] vl by simp
  then have "2 powi 52 \<le> y / 2 powi v" by (simp add: power_int_add field_simps)
  then have "of_int (2 ^ 52) \<le> y / 2 powi v" by (simp add: power_int_def)
  from round_half_even_mono [OF this] have "2 ^ 52 \<le> round_half_even (y / 2 powi v)" by (simp only: round_half_even_of_int)
  then have "(of_int (2 ^ 52) :: rat) \<le> of_int (round_half_even (y / 2 powi v))" by (simp only: of_int_le_iff)
  then have "2 powi 52 * 2 powi v \<le> f64_round_fin y"
    using y0 by (simp add: f64_round_fin_def v_def power_int_def mult_right_mono)
  with fx show ?thesis by linarith
qed

lemma f64_round_fin_mono_nonneg: "0 \<le> x \<Longrightarrow> x \<le> y \<Longrightarrow> f64_round_fin x \<le> f64_round_fin y"
  using f64_round_fin_mono_pos [of x y] f64_round_fin_nonneg [of y]
  by (cases "x = 0") (auto simp: f64_round_fin_def)

lemma f64_round_fin_of_int:
  assumes "\<bar>m\<bar> < 2 ^ 53" shows "f64_round_fin (of_int m) = of_int m"
  using f64_round_exact [OF assms, of 0]
  by (simp add: f64_round_alt split: if_splits)

text \<open>Rounding a value between zero and a small integer stays between them.\<close>

lemma f64_round_between:
  assumes "0 \<le> x" "x \<le> of_nat n" "n < 2 ^ 53"
  shows "\<exists>r. f64_round x = F64 r \<and> 0 \<le> r \<and> r \<le> of_nat n"
proof -
  have n: "f64_round_fin (of_nat n) = of_nat n"
    using f64_round_fin_of_int [of "int n"] assms(3) by simp
  have "f64_round_fin x \<le> of_nat n"
    using f64_round_fin_mono_nonneg [OF assms(1,2)] n by simp
  moreover have "(of_nat n :: rat) < 2 ^ 1024"
  proof -
    have "(of_nat n :: rat) < of_nat (2 ^ 53)" using assms(3) by (simp only: of_nat_less_iff)
    also have "\<dots> \<le> 2 ^ 1024" by simp
    finally show ?thesis .
  qed
  ultimately show ?thesis
    using f64_round_fin_nonneg [OF assms(1)] by (auto simp: f64_round_alt)
qed

end
