(* ===== verification/Fabric_Types.thy ===== *)
theory Fabric_Types
  imports Enums Binary64
begin

text \<open>
  The data model of \<open>include/nvlinkfabric\<close>: typed identities and generations
  (\<open>identities.hpp\<close>), errors and results (\<open>error.hpp\<close>, \<open>result.hpp\<close>), and the structs
  of \<open>time.hpp\<close>, \<open>evidence.hpp\<close>, \<open>capability.hpp\<close>, \<open>measurement.hpp\<close>,
  \<open>topology.hpp\<close>, \<open>path_quality.hpp\<close>, \<open>policy.hpp\<close>, \<open>route.hpp\<close>,
  \<open>limits.hpp\<close>, \<open>durable.hpp\<close> and \<open>registry.hpp\<close>, each as a record with the same fields.
  \<open>default_\<dots>\<close> constants are the default member initialisers.

  What the code reads from outside itself is the record \<open>world\<close>: the process-wide counters
  behind \<open>fresh_id\<close> and \<open>fresh_generation\<close>, the system clock (an arbitrary sequence of
  readings, one per call of \<open>now_timestamp\<close>) and the contents of a moved-from
  \<open>std::string\<close>, which the language leaves unspecified.
\<close>

section \<open>Identities and generations\<close>

datatype 'tag ident = Ident (id_value: u64)
datatype 'tag generation = Generation (gen_value: u64)

instantiation ident :: (type) linorder
begin
definition less_eq_ident :: "'a ident \<Rightarrow> 'a ident \<Rightarrow> bool" where
  "less_eq_ident a b \<longleftrightarrow> id_value a \<le> id_value b"
definition less_ident :: "'a ident \<Rightarrow> 'a ident \<Rightarrow> bool" where
  "less_ident a b \<longleftrightarrow> id_value a < id_value b"
instance
  by standard (auto simp: less_eq_ident_def less_ident_def ident.expand)
end

instantiation generation :: (type) linorder
begin
definition less_eq_generation :: "'a generation \<Rightarrow> 'a generation \<Rightarrow> bool" where
  "less_eq_generation a b \<longleftrightarrow> gen_value a \<le> gen_value b"
definition less_generation :: "'a generation \<Rightarrow> 'a generation \<Rightarrow> bool" where
  "less_generation a b \<longleftrightarrow> gen_value a < gen_value b"
instance
  by standard (auto simp: less_eq_generation_def less_generation_def generation.expand)
end

datatype device_tag = Device_Tag
datatype device_generation_tag = Device_Generation_Tag
datatype link_tag = Link_Tag
datatype link_generation_tag = Link_Generation_Tag
datatype path_tag = Path_Tag
datatype topology_tag = Topology_Tag
datatype topology_snapshot_tag = Topology_Snapshot_Tag
datatype worker_tag = Worker_Tag
datatype worker_boot_tag = Worker_Boot_Tag
datatype coordinator_epoch_tag = Coordinator_Epoch_Tag
datatype observation_tag = Observation_Tag
datatype measurement_tag = Measurement_Tag
datatype route_decision_tag = Route_Decision_Tag
datatype route_generation_tag = Route_Generation_Tag
datatype policy_tag = Policy_Tag

type_synonym device_id = "device_tag ident"
type_synonym device_generation = "device_generation_tag generation"
type_synonym link_id = "link_tag ident"
type_synonym link_generation = "link_generation_tag generation"
type_synonym path_id = "path_tag ident"
type_synonym topology_generation = "topology_tag generation"
type_synonym topology_snapshot_id = "topology_snapshot_tag ident"
type_synonym worker_id = "worker_tag ident"
type_synonym worker_boot_id = "worker_boot_tag ident"
type_synonym coordinator_epoch = "coordinator_epoch_tag generation"
type_synonym observation_id = "observation_tag ident"
type_synonym measurement_id = "measurement_tag ident"
type_synonym route_decision_id = "route_decision_tag ident"
type_synonym route_generation = "route_generation_tag generation"
type_synonym policy_id = "policy_tag ident"

definition is_nil :: "'tag ident \<Rightarrow> bool" where
  "is_nil i \<longleftrightarrow> id_value i = 0"

definition gen_valid :: "'tag generation \<Rightarrow> bool" where
  "gen_valid g \<longleftrightarrow> gen_value g \<noteq> 0"

definition gen_next :: "'tag generation \<Rightarrow> 'tag generation" where
  \<comment> \<open>\<open>Generation(v_ + 1u)\<close>: wraps to the invalid generation 0 after \<open>2^64 - 1\<close>\<close>
  "gen_next g = Generation (gen_value g + 1)"

fun nat_to_string :: "nat \<Rightarrow> string" where
  \<comment> \<open>\<open>std::to_string\<close> of an unsigned value\<close>
  "nat_to_string n =
     (if n < 10 then [char_of (48 + n)] else nat_to_string (n div 10) @ [char_of (48 + n mod 10)])"

declare nat_to_string.simps [simp del]

definition id_to_string :: "'tag ident \<Rightarrow> string" where
  "id_to_string i = nat_to_string (unat (id_value i))"

lemma gen_next_greater:
  "gen_value g \<noteq> - 1 \<Longrightarrow> g < gen_next g"
  by (simp add: gen_next_def less_generation_def word_less_succ)

lemma gen_next_neq [simp]: "gen_next g \<noteq> g"
  by (cases g) (simp add: gen_next_def)

lemma gen_next_valid: "gen_value g \<noteq> - 1 \<Longrightarrow> gen_valid (gen_next g)"
  by (simp add: gen_valid_def gen_next_def eq_neg_iff_add_eq_0)

lemma gen_next_greater_valid: "gen_valid (gen_next g) \<Longrightarrow> g < gen_next g"
  by (rule gen_next_greater) (auto simp: gen_valid_def gen_next_def)

section \<open>Errors and results\<close>

datatype error_code
  = EC_OK | EC_NOT_FOUND | EC_UNSUPPORTED | EC_INVALID_ARGUMENT | EC_INVALID_TOPOLOGY
  | EC_STALE_GENERATION | EC_STALE_BOOT | EC_STALE_EPOCH | EC_STALE_MEASUREMENT
  | EC_REVALIDATION_REQUIRED | EC_BACKEND_UNAVAILABLE | EC_BACKEND_ERROR | EC_LINK_DOWN
  | EC_NO_PATH | EC_INSUFFICIENT_EVIDENCE | EC_INTEGRITY_FAILURE | EC_PROTOCOL_ERROR
  | EC_RESOURCE_LIMIT | EC_CANCELLED

fun error_code_name :: "error_code \<Rightarrow> string" where
  "error_code_name EC_OK = ''OK''"
| "error_code_name EC_NOT_FOUND = ''NOT_FOUND''"
| "error_code_name EC_UNSUPPORTED = ''UNSUPPORTED''"
| "error_code_name EC_INVALID_ARGUMENT = ''INVALID_ARGUMENT''"
| "error_code_name EC_INVALID_TOPOLOGY = ''INVALID_TOPOLOGY''"
| "error_code_name EC_STALE_GENERATION = ''STALE_GENERATION''"
| "error_code_name EC_STALE_BOOT = ''STALE_BOOT''"
| "error_code_name EC_STALE_EPOCH = ''STALE_EPOCH''"
| "error_code_name EC_STALE_MEASUREMENT = ''STALE_MEASUREMENT''"
| "error_code_name EC_REVALIDATION_REQUIRED = ''REVALIDATION_REQUIRED''"
| "error_code_name EC_BACKEND_UNAVAILABLE = ''BACKEND_UNAVAILABLE''"
| "error_code_name EC_BACKEND_ERROR = ''BACKEND_ERROR''"
| "error_code_name EC_LINK_DOWN = ''LINK_DOWN''"
| "error_code_name EC_NO_PATH = ''NO_PATH''"
| "error_code_name EC_INSUFFICIENT_EVIDENCE = ''INSUFFICIENT_EVIDENCE''"
| "error_code_name EC_INTEGRITY_FAILURE = ''INTEGRITY_FAILURE''"
| "error_code_name EC_PROTOCOL_ERROR = ''PROTOCOL_ERROR''"
| "error_code_name EC_RESOURCE_LIMIT = ''RESOURCE_LIMIT''"
| "error_code_name EC_CANCELLED = ''CANCELLED''"

record error =
  err_code :: error_code
  err_message :: string
  err_context :: "(string \<times> string) list" \<comment> \<open>\<open>std::map\<close>, in key order\<close>

type_synonym 'a result = "error + 'a"

definition make_error :: "error_code \<Rightarrow> string \<Rightarrow> error" where
  "make_error c m = \<lparr>err_code = c, err_message = m, err_context = []\<rparr>"

definition fail :: "error_code \<Rightarrow> string \<Rightarrow> 'a result" where
  \<comment> \<open>\<open>Result<T>::err(c, m)\<close>\<close>
  "fail c m = Inl (make_error c m)"

abbreviation ok :: "'a \<Rightarrow> 'a result" where
  \<comment> \<open>\<open>Result<T>::ok(v)\<close>\<close>
  "ok v \<equiv> Inr v"

fun has_value :: "'a result \<Rightarrow> bool" where
  "has_value (Inl _) = False"
| "has_value (Inr _) = True"

definition error_to_string :: "error \<Rightarrow> string" where
  "error_to_string e =
     (let out = error_code_name (err_code e);
          out = (if err_message e \<noteq> [] then out @ '': '' @ err_message e else out)
      in if err_context e \<noteq> []
         then out @ '' {'' @ concat (map (\<lambda>(n, v). '' '' @ n @ ''='' @ v) (err_context e)) @ '' }''
         else out)"

lemma fail_simps [simp]:
  "fail c m \<noteq> ok v" "ok v \<noteq> fail c m" "has_value (fail c m) = False"
  "(fail c m = fail c' m') = (c = c' \<and> m = m')"
  by (auto simp: fail_def make_error_def)

section \<open>Time, evidence, capability\<close>

record timestamp =
  \<comment> \<open>\<open>unix_ns\<close> is a \<open>std::int64_t\<close>: the word is its two's complement pattern and \<open>sint\<close>
     its value\<close>
  unix_ns :: u64 \<comment> \<open>an \<open>std::int64_t\<close>: compared as a signed value\<close>
  ts_valid :: bool

definition default_timestamp :: timestamp where
  "default_timestamp = \<lparr>unix_ns = 0, ts_valid = False\<rparr>"

record evidence =
  ev_class :: evidence_class
  ev_provenance :: provenance
  ev_source :: string
  ev_note :: string

definition Evidence :: "evidence_class \<Rightarrow> provenance \<Rightarrow> string \<Rightarrow> string \<Rightarrow> evidence" where
  "Evidence c p src note = \<lparr>ev_class = c, ev_provenance = p, ev_source = src, ev_note = note\<rparr>"

definition default_evidence :: evidence where
  "default_evidence = Evidence EV_UNSUPPORTED PROV_NONE [] []"

definition evidence_describe :: "evidence \<Rightarrow> string" where
  "evidence_describe e =
     (let out = evidence_class_name (ev_class e);
          prov = provenance_name (ev_provenance e);
          out = (if prov \<noteq> [] \<and> prov \<noteq> ''NONE'' then out @ '' '' @ prov else out);
          out = (if ev_source e \<noteq> [] then out @ '' from='' @ ev_source e else out)
      in if ev_note e \<noteq> [] then out @ '' ('' @ ev_note e @ '')'' else out)"

record capability =
  cap_interconnect :: interconnect_technology
  cap_link_count :: u32
  cap_nominal_lane_width :: u32
  cap_nominal_bandwidth_bps :: u64
  cap_peer_access_supported :: bool
  cap_measurement_support :: measurement_support
  cap_supported_counters :: u32
  cap_telemetry_supported :: bool

definition default_capability :: capability where
  "default_capability =
     \<lparr>cap_interconnect = IT_UNKNOWN, cap_link_count = 0, cap_nominal_lane_width = 0,
      cap_nominal_bandwidth_bps = 0, cap_peer_access_supported = False,
      cap_measurement_support = MS_UNKNOWN, cap_supported_counters = 0,
      cap_telemetry_supported = False\<rparr>"

definition capability_equivalent :: "capability \<Rightarrow> capability \<Rightarrow> bool" where
  "capability_equivalent a b \<longleftrightarrow>
     cap_interconnect a = cap_interconnect b \<and>
     cap_link_count a = cap_link_count b \<and>
     cap_nominal_lane_width a = cap_nominal_lane_width b \<and>
     cap_nominal_bandwidth_bps a = cap_nominal_bandwidth_bps b \<and>
     cap_peer_access_supported a = cap_peer_access_supported b \<and>
     cap_measurement_support a = cap_measurement_support b \<and>
     cap_supported_counters a = cap_supported_counters b \<and>
     cap_telemetry_supported a = cap_telemetry_supported b"

section \<open>Measurements, devices, links and paths\<close>

record measurement_record =
  m_id :: measurement_id
  m_source :: device_id
  m_target :: device_id
  m_payload_bytes :: u64
  m_iterations :: u32
  m_warmup_iterations :: u32
  m_completed_transfers :: u64
  m_bytes_verified :: u64
  m_bandwidth_bps :: f64
  m_latency_seconds :: f64
  m_warmup_separated :: bool
  m_integrity_verified :: bool
  m_contended :: bool
  m_method :: string
  m_path_note :: string
  m_evidence :: evidence
  m_measured_at :: timestamp
  m_valid :: bool
  m_stale :: bool
  m_revalidation_required :: bool
  m_owner_worker :: "worker_id option"
  m_owner_boot :: "worker_boot_id option"

definition default_measurement :: measurement_record where
  "default_measurement =
     \<lparr>m_id = Ident 0, m_source = Ident 0, m_target = Ident 0, m_payload_bytes = 0,
      m_iterations = 0, m_warmup_iterations = 0, m_completed_transfers = 0, m_bytes_verified = 0,
      m_bandwidth_bps = F64 0, m_latency_seconds = F64 0, m_warmup_separated = True,
      m_integrity_verified = False, m_contended = False, m_method = [], m_path_note = [],
      m_evidence = default_evidence, m_measured_at = default_timestamp, m_valid = False,
      m_stale = False, m_revalidation_required = False, m_owner_worker = None,
      m_owner_boot = None\<rparr>"

record device_record =
  dev_id :: device_id
  dev_logical_name :: string
  dev_kind :: node_kind
  dev_backend :: string
  dev_backend_instance :: string
  dev_pci_identity :: string
  dev_cuda_ordinal :: "u32 option"
  dev_vendor :: string
  dev_architecture :: string
  dev_device_generation :: string
  dev_capability :: capability
  dev_health :: device_health_state
  dev_evidence :: evidence
  dev_generation :: device_generation
  dev_owner_worker :: "worker_id option"
  dev_owner_boot :: "worker_boot_id option"

definition default_device :: device_record where
  "default_device =
     \<lparr>dev_id = Ident 0, dev_logical_name = [], dev_kind = NK_UNKNOWN, dev_backend = [],
      dev_backend_instance = [], dev_pci_identity = [], dev_cuda_ordinal = None, dev_vendor = [],
      dev_architecture = [], dev_device_generation = [], dev_capability = default_capability,
      dev_health = DH_UNKNOWN, dev_evidence = default_evidence, dev_generation = Generation 0,
      dev_owner_worker = None, dev_owner_boot = None\<rparr>"

definition is_valid_edge_endpoint :: "device_record \<Rightarrow> bool" where
  "is_valid_edge_endpoint d \<longleftrightarrow> dev_kind d = NK_ACCELERATOR \<or> dev_kind d = NK_HOST"

record link_record =
  lk_id :: link_id
  lk_source :: device_id
  lk_target :: device_id
  lk_directed :: bool
  lk_physical_identifier :: string
  lk_state :: link_operational_state
  lk_technology :: interconnect_technology
  lk_capability :: capability
  lk_generation :: link_generation
  lk_evidence :: evidence
  lk_last_observation :: timestamp
  lk_measurement_supported :: bool
  lk_degraded :: bool
  lk_degradation_note :: string
  lk_topology_generation :: topology_generation

definition default_link :: link_record where
  "default_link =
     \<lparr>lk_id = Ident 0, lk_source = Ident 0, lk_target = Ident 0, lk_directed = False,
      lk_physical_identifier = [], lk_state = LS_UNKNOWN, lk_technology = IT_UNKNOWN,
      lk_capability = default_capability, lk_generation = Generation 0,
      lk_evidence = default_evidence, lk_last_observation = default_timestamp,
      lk_measurement_supported = False, lk_degraded = False, lk_degradation_note = [],
      lk_topology_generation = Generation 0\<rparr>"

datatype path_element = DEVICE device_id | LINK link_id

record path =
  p_id :: path_id
  p_source :: device_id
  p_target :: device_id
  p_direct :: bool
  p_switch_traversal :: bool
  p_elements :: "path_element list"
  p_hop_count :: nat
  p_nvlink_segments :: nat

definition path_element_to_string :: "path_element \<Rightarrow> string" where
  "path_element_to_string e = (case e of DEVICE d \<Rightarrow> '' dev:'' @ id_to_string d
                                       | LINK l \<Rightarrow> '' link:'' @ id_to_string l)"

fun path_elements_to_string :: "bool \<Rightarrow> path_element list \<Rightarrow> string" where
  \<comment> \<open>the loop of \<open>Path::to_string\<close>; the flag is its local \<open>first\<close>\<close>
  "path_elements_to_string first [] = []"
| "path_elements_to_string first (e # es) =
     (if first then [] else '' ->'') @ path_element_to_string e @ path_elements_to_string False es"

definition path_to_string :: "path \<Rightarrow> string" where
  "path_to_string p = ''path('' @ path_elements_to_string True (p_elements p) @ '')''"

record topology_snapshot =
  snap_generation :: topology_generation
  snap_id :: topology_snapshot_id
  snap_devices :: "device_record list"
  snap_links :: "link_record list"
  snap_created_at :: timestamp

record path_quality =
  q_path :: path_id
  q_source :: device_id
  q_target :: device_id
  q_hop_count :: nat
  q_nvlink_segments :: nat
  q_switch_traversal :: bool
  q_direct :: bool
  q_nominal_bandwidth_bps :: u64
  q_measured_bandwidth_bps :: "f64 option"
  q_measured_latency_seconds :: "f64 option"
  q_measurement_timestamp :: timestamp
  q_active_links :: u32
  q_degraded_links :: u32
  q_down_links :: u32
  q_evidence_sufficient :: bool
  q_stale :: bool
  q_contended :: bool
  q_outcome :: path_quality_outcome
  q_evidence :: evidence
  q_topology_generation :: topology_generation
  q_source_generation :: device_generation
  q_target_generation :: device_generation
  q_explanation :: string

section \<open>Policies and route decisions\<close>

datatype route_factor_key
  = RF_DIRECTNESS | RF_HOP_COUNT | RF_MEASURED_BANDWIDTH | RF_NOMINAL_BANDWIDTH
  | RF_MEASURED_LATENCY | RF_DEGRADATION | RF_CONTENTION | RF_FRESHNESS | RF_CONFIDENCE
  | RF_POLICY_PREFERENCE

record route_factor =
  rf_key :: route_factor_key
  rf_weight :: f64

record hard_constraint =
  hc_require_supported_links :: bool
  hc_require_current_topology :: bool
  hc_require_fresh :: bool
  hc_min_nominal_bandwidth_bps :: "u64 option"
  hc_min_measured_bandwidth_bps :: "f64 option"
  hc_required_technology :: "interconnect_technology option"
  hc_max_hops :: "nat option"
  hc_require_direct :: bool
  hc_exclude_degraded :: bool
  hc_exclude_down :: bool
  hc_exclude_contended :: bool

definition default_hard_constraint :: hard_constraint where
  "default_hard_constraint =
     \<lparr>hc_require_supported_links = True, hc_require_current_topology = True,
      hc_require_fresh = True, hc_min_nominal_bandwidth_bps = None,
      hc_min_measured_bandwidth_bps = None, hc_required_technology = None, hc_max_hops = None,
      hc_require_direct = False, hc_exclude_degraded = False, hc_exclude_down = True,
      hc_exclude_contended = False\<rparr>"

record route_policy =
  pol_id :: policy_id
  pol_name :: string
  pol_hard :: hard_constraint
  pol_ranking :: "route_factor list"

record rejected_candidate =
  rc_path :: path_id
  rc_reason :: route_rejection_reason
  rc_detail :: string

record route_decision =
  rd_id :: route_decision_id
  rd_source :: device_id
  rd_target :: device_id
  rd_topology_generation :: topology_generation
  rd_source_generation :: device_generation
  rd_target_generation :: device_generation
  rd_route_generation :: route_generation
  rd_policy :: policy_id
  rd_candidates_considered :: "path_id list"
  rd_rejected :: "rejected_candidate list"
  rd_selected :: "path_id option"
  rd_outcome :: route_decision_outcome
  rd_evidence_references :: "observation_id list"
  rd_explanation :: string
  rd_created_at :: timestamp
  rd_executable :: bool

definition default_route_decision :: route_decision where
  "default_route_decision =
     \<lparr>rd_id = Ident 0, rd_source = Ident 0, rd_target = Ident 0,
      rd_topology_generation = Generation 0, rd_source_generation = Generation 0,
      rd_target_generation = Generation 0, rd_route_generation = Generation 0,
      rd_policy = Ident 0, rd_candidates_considered = [], rd_rejected = [], rd_selected = None,
      rd_outcome = RD_NO_ROUTE, rd_evidence_references = [], rd_explanation = [],
      rd_created_at = default_timestamp, rd_executable = False\<rparr>"

section \<open>Limits, observations, durable state\<close>

record limits =
  max_devices :: nat
  max_links :: nat
  max_parallel_links_per_pair :: nat
  max_path_depth :: nat
  max_candidate_paths :: nat
  max_measurement_history :: nat
  max_observations :: nat
  max_persisted_state_bytes :: nat
  max_frame_bytes :: nat
  max_workers :: nat
  max_tcp_clients :: nat
  max_queued_messages :: nat

definition default_limits :: limits where
  "default_limits =
     \<lparr>max_devices = 256, max_links = 1024, max_parallel_links_per_pair = 16, max_path_depth = 16,
      max_candidate_paths = 256, max_measurement_history = 1024, max_observations = 4096,
      max_persisted_state_bytes = 64 * 1024 * 1024, max_frame_bytes = 16 * 1024 * 1024,
      max_workers = 32, max_tcp_clients = 64, max_queued_messages = 256\<rparr>"

record observation =
  obs_id :: observation_id
  obs_kind :: string
  obs_source :: device_id
  obs_target :: device_id
  obs_evidence :: evidence
  obs_observed_at :: timestamp
  obs_summary :: string
  obs_stale :: bool

record consistent_view =
  view_topology :: topology_snapshot
  view_measurements :: "measurement_record list"

record durable_state =
  ds_format_version :: string
  ds_topology_generation :: topology_generation
  ds_devices :: "device_record list"
  ds_links :: "link_record list"
  ds_saved_at :: timestamp

section \<open>The world: counters, clock, moved-from strings\<close>

datatype tag
  = DeviceTag | DeviceGenerationTag | LinkTag | LinkGenerationTag | PathTag | TopologyTag
  | TopologySnapshotTag | WorkerTag | WorkerBootTag | CoordinatorEpochTag | ObservationTag
  | MeasurementTag | RouteDecisionTag | RouteGenerationTag | PolicyTag

record world =
  id_counter :: "tag \<Rightarrow> u64"
  generation_counter :: "tag \<Rightarrow> u64"
  clock :: "nat \<Rightarrow> u64"
  clock_reads :: nat
  moved_from :: "string \<Rightarrow> string"

definition fresh_id :: "tag \<Rightarrow> world \<Rightarrow> 'tag ident \<times> world" where
  "fresh_id t w =
     (let v = id_counter w t + 1 in (Ident v, w\<lparr>id_counter := (id_counter w)(t := v)\<rparr>))"

definition fresh_generation :: "tag \<Rightarrow> world \<Rightarrow> 'tag generation \<times> world" where
  "fresh_generation t w =
     (let v = generation_counter w t + 1
      in (Generation v, w\<lparr>generation_counter := (generation_counter w)(t := v)\<rparr>))"

definition now_timestamp :: "world \<Rightarrow> timestamp \<times> world" where
  "now_timestamp w =
     (\<lparr>unix_ns = clock w (clock_reads w), ts_valid = True\<rparr>, w\<lparr>clock_reads := Suc (clock_reads w)\<rparr>)"

definition initial_world :: "(nat \<Rightarrow> u64) \<Rightarrow> (string \<Rightarrow> string) \<Rightarrow> world" where
  "initial_world clk mv =
     \<lparr>id_counter = (\<lambda>_. 0), generation_counter = (\<lambda>_. 0), clock = clk, clock_reads = 0,
      moved_from = mv\<rparr>"

end
