(* ===== verification/Registry.thy ===== *)
theory Registry
  imports Fabric_Types
begin

text \<open>
  \<open>TopologyRegistry\<close> (\<open>registry.hpp\<close>, \<open>src/core/registry.cpp\<close>,
  \<open>src/detail/state.hpp\<close>): the canonical state and every operation that reads or changes it.
  A mutation takes the configured \<open>limits\<close>, its argument, the world and the current
  \<open>state\<close> and returns the \<open>Result\<close>, the world and the state that \<open>state_\<close> points to
  afterwards. Every mutator holds the unique lock from its first to its last line, so a
  concurrent execution is a sequence of these calls; readers work on one immutable state.

  In the update branches of \<open>upsert_device\<close> and \<open>upsert_link\<close> the observation is built
  from an argument that has been moved from: its strings are \<open>moved_from\<close> of what they held.
\<close>

section \<open>State\<close>

record state =
  topology_gen :: topology_generation
  devices :: "(device_id \<times> device_record) list"
  links :: "(link_id \<times> link_record) list"
  measurement_history :: "measurement_record list"
  observations :: "observation list"

definition initial_state :: state where
  "initial_state =
     \<lparr>topology_gen = Generation 1, devices = [], links = [], measurement_history = [],
      observations = []\<rparr>"

section \<open>Snapshots and accessors\<close>

definition build_snapshot :: "state \<Rightarrow> world \<Rightarrow> topology_snapshot \<times> world" where
  "build_snapshot s w =
     (let (sid, w) = fresh_id TopologySnapshotTag w;
          (t, w) = now_timestamp w
      in (\<lparr>snap_generation = topology_gen s, snap_id = sid,
           snap_devices = sort_key dev_id (um_values (devices s)),
           snap_links = sort_key lk_id (um_values (links s)),
           snap_created_at = t\<rparr>, w))"

definition device_count :: "state \<Rightarrow> nat" where
  "device_count s = length (devices s)"

definition link_count :: "state \<Rightarrow> nat" where
  "link_count s = length (links s)"

definition measurement_count :: "state \<Rightarrow> nat" where
  "measurement_count s = length (measurement_history s)"

definition consistent_view :: "state \<Rightarrow> world \<Rightarrow> consistent_view \<times> world" where
  "consistent_view s w =
     (let (snap, w) = build_snapshot s w
      in (\<lparr>view_topology = snap, view_measurements = measurement_history s\<rparr>, w))"

definition device :: "state \<Rightarrow> device_id \<Rightarrow> device_record option" where
  "device s i = um_find (devices s) i"

definition link :: "state \<Rightarrow> link_id \<Rightarrow> link_record option" where
  "link s i = um_find (links s) i"

definition recent_measurements :: "state \<Rightarrow> nat \<Rightarrow> measurement_record list" where
  "recent_measurements s mx =
     (if mx = 0 then []
      else let take_n = min mx (length (measurement_history s))
           in drop (length (measurement_history s) - take_n) (measurement_history s))"

section \<open>Record comparison\<close>

definition device_equal :: "device_record \<Rightarrow> device_record \<Rightarrow> bool" where
  "device_equal a b \<longleftrightarrow>
     dev_id a = dev_id b \<and> dev_logical_name a = dev_logical_name b \<and> dev_kind a = dev_kind b \<and>
     dev_backend a = dev_backend b \<and> dev_backend_instance a = dev_backend_instance b \<and>
     dev_pci_identity a = dev_pci_identity b \<and> dev_cuda_ordinal a = dev_cuda_ordinal b \<and>
     dev_vendor a = dev_vendor b \<and> dev_architecture a = dev_architecture b \<and>
     dev_device_generation a = dev_device_generation b \<and>
     capability_equivalent (dev_capability a) (dev_capability b) \<and> dev_health a = dev_health b \<and>
     dev_evidence a = dev_evidence b \<and> dev_generation a = dev_generation b \<and>
     dev_owner_worker a = dev_owner_worker b \<and> dev_owner_boot a = dev_owner_boot b"

definition link_equal :: "link_record \<Rightarrow> link_record \<Rightarrow> bool" where
  "link_equal a b \<longleftrightarrow>
     lk_id a = lk_id b \<and> lk_source a = lk_source b \<and> lk_target a = lk_target b \<and>
     lk_directed a = lk_directed b \<and> lk_physical_identifier a = lk_physical_identifier b \<and>
     lk_state a = lk_state b \<and> lk_technology a = lk_technology b \<and>
     capability_equivalent (lk_capability a) (lk_capability b) \<and>
     lk_generation a = lk_generation b \<and> lk_evidence a = lk_evidence b \<and>
     lk_last_observation a = lk_last_observation b \<and>
     lk_measurement_supported a = lk_measurement_supported b \<and>
     lk_degraded a = lk_degraded b \<and> lk_degradation_note a = lk_degradation_note b \<and>
     lk_topology_generation a = lk_topology_generation b"

section \<open>Steps shared by the mutators\<close>

definition make_observation ::
  "string \<Rightarrow> device_id \<Rightarrow> device_id \<Rightarrow> evidence \<Rightarrow> string \<Rightarrow> world \<Rightarrow> observation \<times> world" where
  "make_observation kind src tgt ev summary w =
     (let (oid, w) = fresh_id ObservationTag w;
          (t, w) = now_timestamp w
      in (\<lparr>obs_id = oid, obs_kind = kind, obs_source = src, obs_target = tgt, obs_evidence = ev,
           obs_observed_at = t, obs_summary = summary, obs_stale = False\<rparr>, w))"

definition record_observation :: "limits \<Rightarrow> observation \<Rightarrow> state \<Rightarrow> state" where
  \<comment> \<open>\<open>push_back\<close>, then \<open>pop_front\<close> above \<open>max_observations\<close>\<close>
  "record_observation lms ob s =
     s\<lparr>observations := push_bounded (max_observations lms) (observations s) ob\<rparr>"

definition stamp_links :: "topology_generation \<Rightarrow> state \<Rightarrow> state" where
  \<comment> \<open>\<open>for (auto& lk : next.links) lk.second.topology_generation = next.topology_gen\<close>\<close>
  "stamp_links g s = s\<lparr>links := um_transform (\<lambda>l. l\<lparr>lk_topology_generation := g\<rparr>) (links s)\<rparr>"

definition advance_from :: "topology_generation \<Rightarrow> state \<Rightarrow> state" where
  \<comment> \<open>\<open>next.topology_gen = g.next()\<close> and the stamping loop\<close>
  "advance_from g s = stamp_links (gen_next g) (s\<lparr>topology_gen := gen_next g\<rparr>)"

definition moved_evidence :: "world \<Rightarrow> evidence \<Rightarrow> evidence" where
  "moved_evidence w e =
     e\<lparr>ev_source := moved_from w (ev_source e), ev_note := moved_from w (ev_note e)\<rparr>"

section \<open>Device mutations\<close>

definition commit_device ::
  "limits \<Rightarrow> device_id \<Rightarrow> evidence \<Rightarrow> string \<Rightarrow> world \<Rightarrow> state \<Rightarrow> state \<Rightarrow> unit result \<times> world \<times> state"
  where
  \<comment> \<open>the tail of \<open>upsert_device\<close>: observation, generation, swap; \<open>s\<close> is the current
     state and \<open>next\<close> the copy with the device stored\<close>
  "commit_device lms i ev name w s next =
     (let (ob, w) = make_observation ''device'' i i ev (''device '' @ name) w
      in (ok (), w, advance_from (topology_gen s) (record_observation lms ob next)))"

definition upsert_device ::
  "limits \<Rightarrow> device_record \<Rightarrow> world \<Rightarrow> state \<Rightarrow> unit result \<times> world \<times> state" where
  "upsert_device lms d w s =
     (if is_nil (dev_id d) \<or> \<not> gen_valid (dev_generation d)
      then (fail EC_INVALID_ARGUMENT ''device requires a valid id and generation'', w, s)
      else case um_find (devices s) (dev_id d) of
        None \<Rightarrow>
          if length (devices s) \<ge> max_devices lms
          then (fail EC_RESOURCE_LIMIT ''max devices reached'', w, s)
          else commit_device lms (dev_id d) (dev_evidence d) (dev_logical_name d) w s
                 (s\<lparr>devices := um_emplace (dev_id d) d (devices s)\<rparr>)
      | Some cur \<Rightarrow>
          if dev_generation d < dev_generation cur
          then (fail EC_STALE_GENERATION ''device update is stale'', w, s)
          else if dev_generation d = dev_generation cur
          then (if \<not> device_equal d cur
                then (fail EC_STALE_GENERATION
                        ''conflicting updates with identical device generation'', w, s)
                else (ok (), w, s))
          else commit_device lms (dev_id d) (moved_evidence w (dev_evidence d))
                 (moved_from w (dev_logical_name d)) w s
                 (s\<lparr>devices := um_assign (dev_id d) d (devices s)\<rparr>))"

definition remove_device ::
  "limits \<Rightarrow> device_id \<Rightarrow> world \<Rightarrow> state \<Rightarrow> unit result \<times> world \<times> state" where
  "remove_device lms i w s =
     (case um_find (devices s) i of
        None \<Rightarrow> (fail EC_NOT_FOUND ''device not present'', w, s)
      | Some _ \<Rightarrow>
          let next = s\<lparr>links := um_erase_if (\<lambda>l. lk_source l = i \<or> lk_target l = i) (links s)\<rparr>;
              next = next\<lparr>devices := um_erase i (devices next)\<rparr>;
              (ob, w) = make_observation ''device'' i i
                (Evidence EV_UNSUPPORTED PROV_DERIVED ''registry'' ''device removed'')
                ''device removed'' w
          in (ok (), w, advance_from (topology_gen s) (record_observation lms ob next)))"

definition update_device_health ::
  "limits \<Rightarrow> device_id \<Rightarrow> device_health_state \<Rightarrow> evidence \<Rightarrow> world \<Rightarrow> state \<Rightarrow>
   unit result \<times> world \<times> state" where
  "update_device_health lms i h ev w s =
     (case um_find (devices s) i of
        None \<Rightarrow> (fail EC_NOT_FOUND ''device not present'', w, s)
      | Some dr \<Rightarrow>
          let dr = dr\<lparr>dev_health := h, dev_evidence := ev,
                      dev_generation := gen_next (dev_generation dr)\<rparr>;
              next = s\<lparr>devices := um_assign i dr (devices s)\<rparr>;
              (ob, w) = make_observation ''device_health'' i i ev
                (''health='' @ device_health_name h) w
          in (ok (), w, advance_from (topology_gen s) (record_observation lms ob next)))"

section \<open>Link mutations\<close>

definition same_unordered :: "link_record \<Rightarrow> link_record \<Rightarrow> bool" where
  "same_unordered a b \<longleftrightarrow>
     (lk_source a = lk_source b \<and> lk_target a = lk_target b) \<or>
     (lk_source a = lk_target b \<and> lk_target a = lk_source b)"

definition parallel_links :: "state \<Rightarrow> link_record \<Rightarrow> nat" where
  "parallel_links s l = length (filter (\<lambda>kv. same_unordered (snd kv) l) (links s))"

definition commit_link ::
  "limits \<Rightarrow> device_id \<Rightarrow> device_id \<Rightarrow> evidence \<Rightarrow> string \<Rightarrow> world \<Rightarrow> state \<Rightarrow> state \<Rightarrow>
   unit result \<times> world \<times> state" where
  \<comment> \<open>the tail of \<open>upsert_link\<close>\<close>
  "commit_link lms src tgt ev phys w s next =
     (let (ob, w) = make_observation ''link'' src tgt ev (''link '' @ phys) w
      in (ok (), w, advance_from (topology_gen s) (record_observation lms ob next)))"

definition upsert_link ::
  "limits \<Rightarrow> link_record \<Rightarrow> world \<Rightarrow> state \<Rightarrow> unit result \<times> world \<times> state" where
  "upsert_link lms l w s =
     (if is_nil (lk_id l) \<or> \<not> gen_valid (lk_generation l)
      then (fail EC_INVALID_ARGUMENT ''link requires a valid id and generation'', w, s)
      else if lk_source l = lk_target l
      then (fail EC_INVALID_TOPOLOGY ''self-link is not permitted'', w, s)
      else if um_find (devices s) (lk_source l) = None
      then (fail EC_INVALID_TOPOLOGY ''link source device is unknown'', w, s)
      else if um_find (devices s) (lk_target l) = None
      then (fail EC_INVALID_TOPOLOGY ''link target device is unknown'', w, s)
      else if length (links s) \<ge> max_links lms
      then (fail EC_RESOURCE_LIMIT ''max links reached'', w, s)
      else if parallel_links s l \<ge> max_parallel_links_per_pair lms
      then (fail EC_RESOURCE_LIMIT ''too many parallel links for pair'', w, s)
      else case um_find (links s) (lk_id l) of
        None \<Rightarrow>
          commit_link lms (lk_source l) (lk_target l) (lk_evidence l) (lk_physical_identifier l) w s
            (s\<lparr>links := um_emplace (lk_id l) l (links s)\<rparr>)
      | Some cur \<Rightarrow>
          if lk_generation l < lk_generation cur
          then (fail EC_STALE_GENERATION ''link update is stale'', w, s)
          else if lk_generation l = lk_generation cur
          then (if \<not> link_equal l cur
                then (fail EC_STALE_GENERATION
                        ''conflicting updates with identical link generation'', w, s)
                else (ok (), w, s))
          else commit_link lms (lk_source l) (lk_target l) (moved_evidence w (lk_evidence l))
                 (moved_from w (lk_physical_identifier l)) w s
                 (s\<lparr>links := um_assign (lk_id l) l (links s)\<rparr>))"

definition remove_link ::
  "limits \<Rightarrow> link_id \<Rightarrow> world \<Rightarrow> state \<Rightarrow> unit result \<times> world \<times> state" where
  "remove_link lms i w s =
     (case um_find (links s) i of
        None \<Rightarrow> (fail EC_NOT_FOUND ''link not present'', w, s)
      | Some l \<Rightarrow>
          let next = s\<lparr>links := um_erase i (links s)\<rparr>;
              (ob, w) = make_observation ''link'' (lk_source l) (lk_target l)
                (Evidence EV_UNSUPPORTED PROV_DERIVED ''registry'' ''link removed'')
                ''link removed'' w
          in (ok (), w, advance_from (topology_gen s) (record_observation lms ob next)))"

definition update_link_state ::
  "limits \<Rightarrow> link_id \<Rightarrow> link_operational_state \<Rightarrow> evidence \<Rightarrow> bool \<Rightarrow> string \<Rightarrow> world \<Rightarrow> state \<Rightarrow>
   unit result \<times> world \<times> state" where
  "update_link_state lms i st ev deg note w s =
     (case um_find (links s) i of
        None \<Rightarrow> (fail EC_NOT_FOUND ''link not present'', w, s)
      | Some lr \<Rightarrow>
          let (t, w) = now_timestamp w;
              lr = lr\<lparr>lk_state := st, lk_evidence := ev, lk_degraded := deg,
                      lk_degradation_note := note, lk_generation := gen_next (lk_generation lr),
                      lk_last_observation := t\<rparr>;
              next = s\<lparr>links := um_assign i lr (links s)\<rparr>;
              (ob, w) = make_observation ''link_state'' (lk_source lr) (lk_target lr) ev
                (''link state='' @ link_state_name st) w
          in (ok (), w, advance_from (topology_gen s) (record_observation lms ob next)))"

section \<open>Topology, observations, measurements\<close>

definition advance_topology ::
  "limits \<Rightarrow> evidence \<Rightarrow> world \<Rightarrow> state \<Rightarrow> unit result \<times> world \<times> state" where
  "advance_topology lms ev w s =
     (let (ob, w) = make_observation ''topology'' (Ident 0) (Ident 0) ev ''topology advanced'' w
      in (ok (), w, advance_from (topology_gen s) (record_observation lms ob s)))"

definition publish_observation ::
  "limits \<Rightarrow> observation \<Rightarrow> world \<Rightarrow> state \<Rightarrow> unit result \<times> world \<times> state" where
  "publish_observation lms ob w s =
     (let (oid, w) = (if is_nil (obs_id ob) then fresh_id ObservationTag w else (obs_id ob, w))
      in (ok (), w, record_observation lms (ob\<lparr>obs_id := oid, obs_stale := False\<rparr>) s))"

definition publish_measurement ::
  "limits \<Rightarrow> measurement_record \<Rightarrow> world \<Rightarrow> state \<Rightarrow> unit result \<times> world \<times> state" where
  "publish_measurement lms m w s =
     (let (mid, w) = (if is_nil (m_id m) then fresh_id MeasurementTag w else (m_id m, w));
          m = m\<lparr>m_id := mid, m_stale := False, m_revalidation_required := False\<rparr>
      in (ok (), w,
          s\<lparr>measurement_history :=
              push_bounded (max_measurement_history lms) (measurement_history s) m\<rparr>))"

section \<open>Authority and durable state\<close>

definition mark_dynamic_evidence_revalidation_required ::
  "limits \<Rightarrow> world \<Rightarrow> state \<Rightarrow> world \<times> state" where
  "mark_dynamic_evidence_revalidation_required lms w s =
     (let next = s\<lparr>measurement_history :=
            map (\<lambda>m. m\<lparr>m_stale := True, m_revalidation_required := True\<rparr>) (measurement_history s),
          observations := map (\<lambda>ob. ob\<lparr>obs_stale := True\<rparr>) (observations s),
          links := um_transform (\<lambda>l. l\<lparr>lk_state := LS_REVALIDATION_REQUIRED, lk_degraded := False,
            lk_degradation_note := ''revalidation required after authority restart''\<rparr>) (links s),
          devices := um_transform (\<lambda>d. if dev_owner_worker d \<noteq> None
            then d\<lparr>dev_health := DH_REVALIDATION_REQUIRED\<rparr> else d) (devices s)\<rparr>;
          (ob, w) = make_observation ''recovery'' (Ident 0) (Ident 0)
            (Evidence EV_UNSUPPORTED PROV_PERSISTED ''registry''
               ''dynamic evidence requires revalidation after restart'')
            ''dynamic evidence marked for revalidation'' w
      in (w, advance_from (topology_gen s) (record_observation lms ob next)))"

definition durable_format :: string where
  "durable_format = ''nvlinkfabric-durable/1.0''"

definition capture_durable_state :: "state \<Rightarrow> world \<Rightarrow> durable_state result \<times> world" where
  "capture_durable_state s w =
     (let (t, w) = now_timestamp w
      in (ok \<lparr>ds_format_version = durable_format, ds_topology_generation = topology_gen s,
              ds_devices = sort_key dev_id (um_values (devices s)),
              ds_links = sort_key lk_id (um_values (links s)), ds_saved_at = t\<rparr>, w))"

fun restore_devices ::
  "limits \<Rightarrow> device_record list \<Rightarrow> (device_id \<times> device_record) list \<Rightarrow>
   (device_id \<times> device_record) list result" where
  "restore_devices lms [] acc = ok acc"
| "restore_devices lms (d # ds) acc =
     (if length acc \<ge> max_devices lms
      then fail EC_RESOURCE_LIMIT ''too many devices in durable state''
      else if is_nil (dev_id d) \<or> \<not> gen_valid (dev_generation d)
      then fail EC_INTEGRITY_FAILURE ''invalid device in durable state''
      else restore_devices lms ds (um_emplace (dev_id d) d acc))"

fun restore_links ::
  "limits \<Rightarrow> (device_id \<times> device_record) list \<Rightarrow> link_record list \<Rightarrow>
   (link_id \<times> link_record) list \<Rightarrow> (link_id \<times> link_record) list result" where
  "restore_links lms devs [] acc = ok acc"
| "restore_links lms devs (l # ls) acc =
     (if length acc \<ge> max_links lms
      then fail EC_RESOURCE_LIMIT ''too many links in durable state''
      else if is_nil (lk_id l) \<or> \<not> gen_valid (lk_generation l) \<or> lk_source l = lk_target l
      then fail EC_INTEGRITY_FAILURE ''invalid link in durable state''
      else if um_find devs (lk_source l) = None \<or> um_find devs (lk_target l) = None
      then fail EC_INTEGRITY_FAILURE ''link references unknown device''
      else restore_links lms devs ls
             (um_emplace (lk_id l)
                (l\<lparr>lk_state := LS_REVALIDATION_REQUIRED, lk_degraded := False,
                   lk_degradation_note := ''revalidation required after durable-state restore''\<rparr>)
                acc))"

definition restore_durable_state ::
  "limits \<Rightarrow> durable_state \<Rightarrow> world \<Rightarrow> state \<Rightarrow> unit result \<times> world \<times> state" where
  "restore_durable_state lms st w s =
     (if ds_format_version st \<noteq> durable_format
      then (fail EC_INTEGRITY_FAILURE ''unsupported durable state version'', w, s)
      else let g = (if gen_value (ds_topology_generation st) > gen_value (topology_gen s)
                    then ds_topology_generation st else topology_gen s)
        in case restore_devices lms (ds_devices st) [] of
             Inl e \<Rightarrow> (Inl e, w, s)
           | Inr devs \<Rightarrow>
               (case restore_links lms devs (ds_links st) [] of
                  Inl e \<Rightarrow> (Inl e, w, s)
                | Inr lks \<Rightarrow>
                    let devs = um_transform (\<lambda>d.
                          if dev_owner_worker d \<noteq> None \<or> dev_owner_boot d \<noteq> None
                          then d\<lparr>dev_health := DH_REVALIDATION_REQUIRED\<rparr> else d) devs;
                        (ob, w) = make_observation ''restore'' (Ident 0) (Ident 0)
                          (Evidence EV_UNSUPPORTED PROV_PERSISTED ''persistence''
                             ''durable state restored; dynamic evidence requires revalidation'')
                          ''durable state restored'' w
                    in (ok (), w,
                        advance_from g
                          \<lparr>topology_gen = g, devices = devs, links = lks,
                           measurement_history = [], observations = [ob]\<rparr>)))"

section \<open>Operations as data, runs\<close>

text \<open>One constructor per public mutator; a thread interleaving is a list of them.\<close>

datatype registry_op
  = Upsert_Device device_record
  | Remove_Device device_id
  | Upsert_Link link_record
  | Remove_Link link_id
  | Update_Link_State link_id link_operational_state evidence bool string
  | Update_Device_Health device_id device_health_state evidence
  | Advance_Topology evidence
  | Publish_Observation observation
  | Publish_Measurement measurement_record
  | Mark_Dynamic_Evidence
  | Restore_Durable_State durable_state

fun apply_op :: "limits \<Rightarrow> registry_op \<Rightarrow> world \<Rightarrow> state \<Rightarrow> unit result \<times> world \<times> state" where
  "apply_op lms (Upsert_Device d) w s = upsert_device lms d w s"
| "apply_op lms (Remove_Device i) w s = remove_device lms i w s"
| "apply_op lms (Upsert_Link l) w s = upsert_link lms l w s"
| "apply_op lms (Remove_Link i) w s = remove_link lms i w s"
| "apply_op lms (Update_Link_State i st ev deg note) w s =
     update_link_state lms i st ev deg note w s"
| "apply_op lms (Update_Device_Health i h ev) w s = update_device_health lms i h ev w s"
| "apply_op lms (Advance_Topology ev) w s = advance_topology lms ev w s"
| "apply_op lms (Publish_Observation ob) w s = publish_observation lms ob w s"
| "apply_op lms (Publish_Measurement m) w s = publish_measurement lms m w s"
| "apply_op lms Mark_Dynamic_Evidence w s =
     (ok (), mark_dynamic_evidence_revalidation_required lms w s)"
| "apply_op lms (Restore_Durable_State st) w s = restore_durable_state lms st w s"

fun run_ops :: "limits \<Rightarrow> registry_op list \<Rightarrow> world \<Rightarrow> state \<Rightarrow> world \<times> state" where
  "run_ops lms [] w s = (w, s)"
| "run_ops lms (x # xs) w s = (case apply_op lms x w s of (_, w', s') \<Rightarrow> run_ops lms xs w' s')"

inductive reachable :: "limits \<Rightarrow> world \<Rightarrow> state \<Rightarrow> bool" for lms where
  start: "reachable lms w initial_state"
| step: "reachable lms w s \<Longrightarrow> apply_op lms x w s = (r, w', s') \<Longrightarrow> reachable lms w' s'"

section \<open>Well-formedness\<close>

definition device_ok :: "device_id \<Rightarrow> device_record \<Rightarrow> bool" where
  "device_ok k d \<longleftrightarrow> dev_id d = k \<and> \<not> is_nil k"

definition link_ok :: "(device_id \<times> device_record) list \<Rightarrow> link_id \<Rightarrow> link_record \<Rightarrow> bool" where
  "link_ok devs k l \<longleftrightarrow>
     lk_id l = k \<and> \<not> is_nil k \<and> lk_source l \<noteq> lk_target l \<and>
     um_find devs (lk_source l) \<noteq> None \<and> um_find devs (lk_target l) \<noteq> None"

definition wf_core :: "limits \<Rightarrow> state \<Rightarrow> bool" where
  "wf_core lms s \<longleftrightarrow>
     um_invar (devices s) \<and> um_invar (links s) \<and>
     list_all (\<lambda>(k, d). device_ok k d) (devices s) \<and>
     list_all (\<lambda>(k, l). link_ok (devices s) k l) (links s) \<and>
     length (devices s) \<le> max_devices lms \<and> length (links s) \<le> max_links lms \<and>
     length (measurement_history s) \<le> max_measurement_history lms \<and>
     length (observations s) \<le> max 1 (max_observations lms)"

definition stamped :: "state \<Rightarrow> bool" where
  "stamped s \<longleftrightarrow> list_all (\<lambda>(_, l). lk_topology_generation l = topology_gen s) (links s)"

definition wf_state :: "limits \<Rightarrow> state \<Rightarrow> bool" where
  "wf_state lms s \<longleftrightarrow> wf_core lms s \<and> stamped s"

lemma wf_core_entries:
  "wf_core lms s \<longleftrightarrow>
     um_invar (devices s) \<and> um_invar (links s) \<and>
     um.all_entries device_ok (devices s) \<and> um.all_entries (link_ok (devices s)) (links s) \<and>
     length (devices s) \<le> max_devices lms \<and> length (links s) \<le> max_links lms \<and>
     length (measurement_history s) \<le> max_measurement_history lms \<and>
     length (observations s) \<le> max 1 (max_observations lms)"
  by (auto simp: wf_core_def um_all_entries_list)

lemma wf_initial: "wf_state lms initial_state"
  by (simp add: wf_state_def wf_core_def stamped_def initial_state_def)

lemma link_ok_simps [simp]:
  "link_ok devs k (l\<lparr>lk_topology_generation := g\<rparr>) = link_ok devs k l"
  "link_ok devs k (l\<lparr>lk_state := st, lk_degraded := deg, lk_degradation_note := note\<rparr>) = link_ok devs k l"
  by (auto simp: link_ok_def)

lemma link_ok_mono:
  "link_ok devs k l \<Longrightarrow> (\<And>i. um_find devs i \<noteq> None \<Longrightarrow> um_find devs' i \<noteq> None) \<Longrightarrow> link_ok devs' k l"
  by (simp add: link_ok_def)

lemma length_push_bounded_max:
  "length xs \<le> max (Suc 0) mx \<Longrightarrow> length (push_bounded mx xs x) \<le> max (Suc 0) mx"
  by (auto simp: push_bounded_def Let_def)

text \<open>The common tail of the mutators restores the stamp and keeps the rest.\<close>

lemma wf_finish [wf_intros]:
  "wf_core lms s \<Longrightarrow> wf_state lms (advance_from g (record_observation lms ob s))"
  by (auto simp: wf_state_def wf_core_entries stamped_def advance_from_def stamp_links_def
      record_observation_def list_all_iff um_transform_def um.invar_transform [unfolded um_transform_def]
      um.count_transform length_push_bounded_max
      intro!: um.all_entries_transform [unfolded um_transform_def])

lemma wf_coreI:
  assumes "um_invar (devices s)" "um_invar (links s)" "um.all_entries device_ok (devices s)"
    "um.all_entries (link_ok (devices s)) (links s)" "length (devices s) \<le> max_devices lms"
    "length (links s) \<le> max_links lms"
    "length (measurement_history s) \<le> max_measurement_history lms"
    "length (observations s) \<le> max 1 (max_observations lms)"
  shows "wf_core lms s"
  using assms by (simp add: wf_core_entries)

lemma wf_core_emplace_device [wf_intros]:
  assumes "wf_core lms s" "um_find (devices s) (dev_id d) = None" "\<not> is_nil (dev_id d)"
    "length (devices s) < max_devices lms"
  shows "wf_core lms (s\<lparr>devices := um_emplace (dev_id d) d (devices s)\<rparr>)"
proof (rule wf_coreI)
  show "um.all_entries (link_ok (devices (s\<lparr>devices := um_emplace (dev_id d) d (devices s)\<rparr>)))
      (links (s\<lparr>devices := um_emplace (dev_id d) d (devices s)\<rparr>))"
    using assms by (auto simp: wf_core_entries um.find_emplace_present
        elim!: um.all_entries_mono link_ok_mono)
qed (use assms in \<open>auto simp: wf_core_entries device_ok_def um.count_emplace um.invar_emplace
      intro!: um.all_entries_emplace\<close>)

lemma wf_core_assign_device [wf_intros]:
  assumes "wf_core lms s" "um_find (devices s) i = Some cur" "dev_id d = i"
  shows "wf_core lms (s\<lparr>devices := um_assign i d (devices s)\<rparr>)"
proof (rule wf_coreI)
  have "\<not> is_nil i"
    using assms by (auto simp: wf_core_entries device_ok_def dest: um.all_entriesD)
  then show "um.all_entries device_ok (devices (s\<lparr>devices := um_assign i d (devices s)\<rparr>))"
    using assms by (auto simp: wf_core_entries device_ok_def intro!: um.all_entries_assign)
  show "um.all_entries (link_ok (devices (s\<lparr>devices := um_assign i d (devices s)\<rparr>)))
      (links (s\<lparr>devices := um_assign i d (devices s)\<rparr>))"
    using assms by (auto simp: wf_core_entries um.find_assign
        elim!: um.all_entries_mono link_ok_mono)
qed (use assms in \<open>auto simp: wf_core_entries um.count_assign um.invar_assign\<close>)

lemma wf_core_remove_device [wf_intros]:
  assumes "wf_core lms s"
  shows "wf_core lms (s\<lparr>links := um_erase_if (\<lambda>l. lk_source l = i \<or> lk_target l = i) (links s),
                        devices := um_erase i (devices s)\<rparr>)" (is "wf_core lms ?t")
proof (rule wf_coreI)
  have "um.all_entries (\<lambda>k l. link_ok (devices s) k l \<and> \<not> (lk_source l = i \<or> lk_target l = i)) (links ?t)"
    using assms um.all_entries_erase_if [of "links s" "link_ok (devices s)"
        "\<lambda>l. lk_source l = i \<or> lk_target l = i"] by (simp add: wf_core_entries)
  then show "um.all_entries (link_ok (devices ?t)) (links ?t)"
    by (rule um.all_entries_mono) (auto simp: link_ok_def um.find_erase)
qed (use assms in \<open>auto simp: wf_core_entries um.all_entries_erase um.invar_erase um.invar_erase_if
      intro: le_trans [OF um.count_erase] le_trans [OF um.count_erase_if]\<close>)

lemma wf_core_emplace_link [wf_intros]:
  assumes "wf_core lms s" "um_find (links s) (lk_id l) = None" "link_ok (devices s) (lk_id l) l"
    "length (links s) < max_links lms"
  shows "wf_core lms (s\<lparr>links := um_emplace (lk_id l) l (links s)\<rparr>)"
  using assms by (intro wf_coreI) (auto simp: wf_core_entries um.count_emplace um.invar_emplace
      intro!: um.all_entries_emplace)

lemma wf_core_assign_link [wf_intros]:
  assumes "wf_core lms s" "um_find (links s) i = Some cur" "link_ok (devices s) i l"
  shows "wf_core lms (s\<lparr>links := um_assign i l (links s)\<rparr>)"
  using assms by (intro wf_coreI) (auto simp: wf_core_entries um.count_assign um.invar_assign
      intro!: um.all_entries_assign)

lemma wf_core_erase_link [wf_intros]:
  assumes "wf_core lms s"
  shows "wf_core lms (s\<lparr>links := um_erase i (links s)\<rparr>)"
  using assms by (intro wf_coreI) (auto simp: wf_core_entries um.invar_erase
      intro!: um.all_entries_erase intro: le_trans [OF um.count_erase])

lemma wf_core_link_ok: "wf_core lms s \<Longrightarrow> um_find (links s) i = Some l \<Longrightarrow> link_ok (devices s) i l"
  by (auto simp: wf_core_entries dest: um.all_entriesD)

lemma wf_state_core: "wf_state lms s \<Longrightarrow> wf_core lms s"
  by (simp add: wf_state_def)

section \<open>The contract of a mutation\<close>

text \<open>
  What every mutator promises: an error leaves world and state alone, the invariant is kept,
  and a call that succeeds either leaves the topology (generation, devices, links) as it was
  or moves the topology generation to the successor of one that is at least the current one.
\<close>

definition same_topology :: "state \<Rightarrow> state \<Rightarrow> bool" where
  "same_topology s s' \<longleftrightarrow>
     topology_gen s' = topology_gen s \<and> devices s' = devices s \<and> links s' = links s"

locale registry_mutation =
  fixes lms :: limits
    and run :: "world \<Rightarrow> state \<Rightarrow> unit result \<times> world \<times> state"
  assumes error_keeps: "run w s = (Inl e, w', s') \<Longrightarrow> w' = w \<and> s' = s"
    and keeps_wf: "wf_state lms s \<Longrightarrow> run w s = (r, w', s') \<Longrightarrow> wf_state lms s'"
    and advances: "run w s = (r, w', s') \<Longrightarrow>
      same_topology s s' \<or> (\<exists>g \<ge> topology_gen s. topology_gen s' = gen_next g)"
begin

lemma generation_monotone:
  assumes "run w s = (r, w', s')" "gen_valid (topology_gen s')"
  shows "topology_gen s \<le> topology_gen s'"
  using advances [OF assms(1)] gen_next_greater_valid assms(2)
  by (fastforce simp: same_topology_def)

lemma changed_topology_advances:
  assumes "run w s = (r, w', s')" "\<not> same_topology s s'" "gen_valid (topology_gen s')"
  shows "topology_gen s < topology_gen s'"
  using advances [OF assms(1)] gen_next_greater_valid assms(2,3) by fastforce

end

lemma finish_advances:
  "topology_gen s \<le> g \<Longrightarrow>
   \<exists>g' \<ge> topology_gen s. topology_gen (advance_from g (record_observation lms ob s')) = gen_next g'"
  by (auto simp: advance_from_def stamp_links_def)

lemma wf_core_mark [wf_intros]:
  assumes "wf_core lms s"
    and "\<And>d. dev_id (f d) = dev_id d" "\<And>devs k l. link_ok devs k (g l) = link_ok devs k l"
  shows "wf_core lms (s\<lparr>measurement_history := map h (measurement_history s),
      observations := map k (observations s), links := um_transform g (links s),
      devices := um_transform f (devices s)\<rparr>)" (is "wf_core lms ?t")
proof (rule wf_coreI)
  show "um.all_entries device_ok (devices ?t)"
    using assms by (auto simp: wf_core_entries device_ok_def intro!: um.all_entries_transform
        elim: um.all_entries_mono)
  show "um.all_entries (link_ok (devices ?t)) (links ?t)"
    using assms by (auto simp: wf_core_entries um.find_transform intro!: um.all_entries_transform
        elim!: um.all_entries_mono link_ok_mono)
qed (use assms in \<open>auto simp: wf_core_entries um.invar_transform um.count_transform\<close>)

lemma wf_state_observation [wf_intros]:
  "wf_state lms s \<Longrightarrow> wf_state lms (record_observation lms ob s)"
  by (auto simp: wf_state_def wf_core_def stamped_def record_observation_def length_push_bounded_max)

lemma wf_state_measurement [wf_intros]:
  "wf_state lms s \<Longrightarrow> wf_state lms (s\<lparr>measurement_history :=
     push_bounded (max_measurement_history lms) (measurement_history s) m\<rparr>)"
  by (auto simp: wf_state_def wf_core_def stamped_def length_push_bounded)

lemma restore_devices_ok:
  "restore_devices lms ds acc = Inr devs \<Longrightarrow> um_invar acc \<Longrightarrow> um.all_entries device_ok acc \<Longrightarrow>
   length acc \<le> max_devices lms \<Longrightarrow>
   um_invar devs \<and> um.all_entries device_ok devs \<and> length devs \<le> max_devices lms"
proof (induction ds arbitrary: acc)
  case Nil
  then show ?case by simp
next
  case (Cons d ds)
  then have id: "\<not> is_nil (dev_id d)"
    and rest: "restore_devices lms ds (um_emplace (dev_id d) d acc) = Inr devs"
    by (auto split: if_splits)
  have len: "length (um_emplace (dev_id d) d acc) \<le> max_devices lms"
    using Cons.prems by (auto simp: um_emplace_def split: if_splits option.splits)
  show ?case
    by (rule Cons.IH [OF rest _ _ len])
      (use Cons.prems id in \<open>auto simp: um.invar_emplace device_ok_def intro: um.all_entries_emplace\<close>)
qed

lemma restore_links_ok:
  "restore_links lms devs ls acc = Inr lks \<Longrightarrow> um_invar acc \<Longrightarrow> um.all_entries (link_ok devs) acc \<Longrightarrow>
   length acc \<le> max_links lms \<Longrightarrow>
   um_invar lks \<and> um.all_entries (link_ok devs) lks \<and> length lks \<le> max_links lms"
proof (induction ls arbitrary: acc)
  case Nil
  then show ?case by simp
next
  case (Cons l ls)
  let ?l = "l\<lparr>lk_state := LS_REVALIDATION_REQUIRED, lk_degraded := False,
    lk_degradation_note := ''revalidation required after durable-state restore''\<rparr>"
  from Cons.prems have ok: "link_ok devs (lk_id l) ?l"
    and rest: "restore_links lms devs ls (um_emplace (lk_id l) ?l acc) = Inr lks"
    by (auto simp: link_ok_def split: if_splits)
  have len: "length (um_emplace (lk_id l) ?l acc) \<le> max_links lms"
    using Cons.prems by (auto simp: um_emplace_def split: if_splits option.splits)
  show ?case
    by (rule Cons.IH [OF rest _ _ len])
      (use Cons.prems ok in \<open>auto simp: um.invar_emplace simp del: link_ok_simps
        intro: um.all_entries_emplace\<close>)
qed

lemma stamped_advance: "stamped (advance_from g s)"
  by (auto simp: stamped_def advance_from_def stamp_links_def um_transform_def list_all_iff)

lemma wf_core_advance: "wf_core lms s \<Longrightarrow> wf_core lms (advance_from g s)"
  by (auto simp: wf_core_entries advance_from_def stamp_links_def um.invar_transform
      um.count_transform intro!: um.all_entries_transform)

lemma wf_restored:
  assumes "restore_devices lms ds [] = Inr devs" "restore_links lms devs ls [] = Inr lks"
    and "\<And>d. dev_id (f d) = dev_id d"
  shows "wf_state lms (advance_from g \<lparr>topology_gen = g, devices = um_transform f devs,
           links = lks, measurement_history = [], observations = [ob]\<rparr>)"
proof -
  have d: "um_invar devs" "um.all_entries device_ok devs" "length devs \<le> max_devices lms"
    using restore_devices_ok [OF assms(1)] by auto
  have l: "um_invar lks" "um.all_entries (link_ok devs) lks" "length lks \<le> max_links lms"
    using restore_links_ok [OF assms(2)] by auto
  have "um.all_entries device_ok (um_transform f devs)"
    using d(2) assms(3) by (auto simp: device_ok_def intro!: um.all_entries_transform elim: um.all_entries_mono)
  moreover have "um.all_entries (link_ok (um_transform f devs)) lks"
    using l(2) by (auto simp: um.find_transform elim!: um.all_entries_mono link_ok_mono)
  ultimately show ?thesis
    using d l by (auto simp: wf_state_def stamped_advance intro!: wf_core_advance wf_coreI
        simp: um.invar_transform um.count_transform)
qed

lemmas mutation_splits = if_splits option.splits prod.splits sum.splits

lemma topology_gen_advance: "topology_gen (advance_from g s) = gen_next g"
  by (simp add: advance_from_def stamp_links_def)

lemma greater_gen_advances:
  "gen_value g < gen_value g' \<Longrightarrow> \<exists>g'' \<ge> g. gen_next g' = gen_next g''"
  by (auto simp: less_eq_generation_def intro!: exI [of _ g'])

interpretation ud: registry_mutation lms "upsert_device lms d" for lms d
proof unfold_locales
  fix w s e w' s'
  show "upsert_device lms d w s = (Inl e, w', s') \<Longrightarrow> w' = w \<and> s' = s"
    by (auto simp: upsert_device_def commit_device_def split: if_splits option.splits prod.splits)
next
  fix w s r w' s'
  assume "wf_state lms s" "upsert_device lms d w s = (r, w', s')"
  then show "wf_state lms s'"
    by (auto simp: upsert_device_def commit_device_def split: if_splits option.splits prod.splits
        intro!: wf_intros dest: wf_state_core)
next
  fix w s r w' s'
  show "upsert_device lms d w s = (r, w', s') \<Longrightarrow>
      same_topology s s' \<or> (\<exists>g \<ge> topology_gen s. topology_gen s' = gen_next g)"
    by (auto simp: upsert_device_def commit_device_def same_topology_def finish_advances
        split: if_splits option.splits prod.splits)
qed

interpretation rmd: registry_mutation lms "remove_device lms i" for lms i
  by unfold_locales (auto simp: remove_device_def Let_def same_topology_def finish_advances
      split: mutation_splits intro!: wf_intros dest: wf_state_core)

interpretation udh: registry_mutation lms "update_device_health lms i h ev" for lms i h ev
proof unfold_locales
  fix w s r w' s'
  assume wf: "wf_state lms s" and run: "update_device_health lms i h ev w s = (r, w', s')"
  have "dev_id d = i" if "um_find (devices s) i = Some d" for d
    using wf that by (auto simp: wf_state_def wf_core_entries device_ok_def dest: um.all_entriesD)
  with wf run show "wf_state lms s'"
    by (auto simp: update_device_health_def Let_def split: mutation_splits
        intro!: wf_intros dest: wf_state_core)
qed (auto simp: update_device_health_def Let_def same_topology_def finish_advances
      split: mutation_splits)

interpretation ul: registry_mutation lms "upsert_link lms l" for lms l
  by unfold_locales (auto simp: upsert_link_def commit_link_def same_topology_def finish_advances
      link_ok_def split: mutation_splits intro!: wf_intros dest: wf_state_core)

interpretation rml: registry_mutation lms "remove_link lms i" for lms i
  by unfold_locales (auto simp: remove_link_def Let_def same_topology_def finish_advances
      split: mutation_splits intro!: wf_intros dest: wf_state_core)

interpretation uls: registry_mutation lms "update_link_state lms i st ev deg msg"
  for lms i st ev deg msg
proof unfold_locales
  fix w s r w' s'
  assume wf: "wf_state lms s" and run: "update_link_state lms i st ev deg msg w s = (r, w', s')"
  have "link_ok (devices s) i l" if "um_find (links s) i = Some l" for l
    using wf_core_link_ok wf_state_core wf that by blast
  with wf run show "wf_state lms s'"
    by (auto simp: update_link_state_def Let_def link_ok_def split: mutation_splits
        intro!: wf_intros dest: wf_state_core)
qed (auto simp: update_link_state_def Let_def same_topology_def finish_advances
      split: mutation_splits)

interpretation adv: registry_mutation lms "advance_topology lms ev" for lms ev
  by unfold_locales (auto simp: advance_topology_def same_topology_def finish_advances
      split: mutation_splits intro!: wf_intros dest: wf_state_core)

interpretation pob: registry_mutation lms "publish_observation lms ob" for lms ob
  by unfold_locales (auto simp: publish_observation_def same_topology_def record_observation_def
      split: mutation_splits intro!: wf_intros [unfolded record_observation_def])

interpretation pme: registry_mutation lms "publish_measurement lms m" for lms m
  by unfold_locales (auto simp: publish_measurement_def same_topology_def Let_def
      split: mutation_splits intro!: wf_intros)

interpretation mdy: registry_mutation lms
  "\<lambda>w s. (ok (), mark_dynamic_evidence_revalidation_required lms w s)" for lms
  by unfold_locales (auto simp: mark_dynamic_evidence_revalidation_required_def Let_def
      same_topology_def finish_advances split: mutation_splits intro!: wf_intros dest: wf_state_core)

interpretation rst: registry_mutation lms "restore_durable_state lms st" for lms st
proof unfold_locales
  fix w s r w' s'
  assume "restore_durable_state lms st w s = (r, w', s')"
  then show "same_topology s s' \<or> (\<exists>g \<ge> topology_gen s. topology_gen s' = gen_next g)"
    by (auto simp: restore_durable_state_def Let_def same_topology_def topology_gen_advance
        greater_gen_advances split: mutation_splits)
next
  fix w s r w' s'
  assume "wf_state lms s" "restore_durable_state lms st w s = (r, w', s')"
  then show "wf_state lms s'"
    by (auto simp: restore_durable_state_def Let_def split: mutation_splits intro!: wf_restored)
qed (auto simp: restore_durable_state_def Let_def split: mutation_splits)

text \<open>Every operation meets the contract, so every run does.\<close>

interpretation op: registry_mutation lms "apply_op lms x" for lms x
proof unfold_locales
  fix w s e w' s'
  assume "apply_op lms x w s = (Inl e, w', s')"
  then show "w' = w \<and> s' = s"
    by (cases x)
      (simp_all add: ud.error_keeps rmd.error_keeps udh.error_keeps ul.error_keeps
        rml.error_keeps uls.error_keeps adv.error_keeps pob.error_keeps pme.error_keeps
        rst.error_keeps)
next
  fix w s r w' s'
  assume wf: "wf_state lms s" and "apply_op lms x w s = (r, w', s')"
  then show "wf_state lms s'"
    by (cases x)
      (simp_all add: ud.keeps_wf [OF wf] rmd.keeps_wf [OF wf] udh.keeps_wf [OF wf]
        ul.keeps_wf [OF wf] rml.keeps_wf [OF wf] uls.keeps_wf [OF wf] adv.keeps_wf [OF wf]
        pob.keeps_wf [OF wf] pme.keeps_wf [OF wf] mdy.keeps_wf [OF wf, of w r]
        rst.keeps_wf [OF wf])
next
  fix w s r w' s'
  assume "apply_op lms x w s = (r, w', s')"
  then show "same_topology s s' \<or> (\<exists>g \<ge> topology_gen s. topology_gen s' = gen_next g)"
    by (cases x)
      (simp_all add: ud.advances rmd.advances udh.advances ul.advances rml.advances uls.advances
        adv.advances pob.advances pme.advances mdy.advances [of lms w s r w' s'] rst.advances)
qed

lemma reachable_wf: "reachable lms w s \<Longrightarrow> wf_state lms s"
  by (induction rule: reachable.induct) (auto intro: wf_initial op.keeps_wf)

lemma run_ops_wf: "wf_state lms s \<Longrightarrow> run_ops lms xs w s = (w', s') \<Longrightarrow> wf_state lms s'"
  by (induction xs arbitrary: w s) (auto split: prod.splits intro: op.keeps_wf)

end
