(* ===== verification/Registry_Properties.thy ===== *)
theory Registry_Properties
  imports Registry
begin

text \<open>
  What the registry guarantees: the invariant of every reachable state, what each mutation does
  on every branch, the behaviour of generations, of recovery and of durable state, and that the
  snapshots do not depend on the iteration order of the hash maps.
\<close>

section \<open>Shared facts\<close>

lemma capability_equivalent_iff [simp]: "capability_equivalent a b \<longleftrightarrow> a = b"
  by (cases a; cases b) (auto simp: capability_equivalent_def)

lemma device_equal_iff [simp]: "device_equal a b \<longleftrightarrow> a = b"
  by (cases a; cases b) (auto simp: device_equal_def)

lemma link_equal_iff [simp]: "link_equal a b \<longleftrightarrow> a = b"
  by (cases a; cases b) (auto simp: link_equal_def)

lemma finish_fields [simp]:
  "devices (advance_from g s) = devices s"
  "measurement_history (advance_from g s) = measurement_history s"
  "observations (advance_from g s) = observations s"
  "topology_gen (advance_from g s) = gen_next g"
  "links (advance_from g s) = um_transform (\<lambda>l. l\<lparr>lk_topology_generation := gen_next g\<rparr>) (links s)"
  "devices (record_observation lms ob s) = devices s"
  "links (record_observation lms ob s) = links s"
  "measurement_history (record_observation lms ob s) = measurement_history s"
  "topology_gen (record_observation lms ob s) = topology_gen s"
  by (auto simp: advance_from_def stamp_links_def record_observation_def)

lemma wf_device_key:
  "wf_state lms s \<Longrightarrow> device s i = Some d \<Longrightarrow> dev_id d = i \<and> \<not> is_nil i"
  by (auto simp: device_def wf_state_def wf_core_entries device_ok_def dest: um.all_entriesD)

lemma wf_link_facts:
  "wf_state lms s \<Longrightarrow> link s i = Some l \<Longrightarrow>
   lk_id l = i \<and> lk_source l \<noteq> lk_target l \<and> device s (lk_source l) \<noteq> None \<and>
   device s (lk_target l) \<noteq> None \<and> lk_topology_generation l = topology_gen s"
  using um_values_map_of [of "links s" i l]
  by (auto simp: device_def link_def wf_state_def wf_core_def stamped_def link_ok_def list_all_iff)

lemma wf_keyed: 
  "wf_state lms s \<Longrightarrow> keyed_by dev_id (devices s) \<and> keyed_by lk_id (links s)"
  by (auto simp: wf_state_def wf_core_def keyed_by_def device_ok_def link_ok_def list_all_iff)

lemma wf_invars: "wf_state lms s \<Longrightarrow> um_invar (devices s) \<and> um_invar (links s)"
  by (simp add: wf_state_def wf_core_def)

section \<open>The invariant of every reachable state\<close>

text \<open>
  C1: in every state the registry can reach by any sequence of its mutations, from the empty
  registry and for any limits, clock and moved-from contents, the stored devices and links have
  distinct non-nil keys equal to their own ids, no link dangles or loops, every link carries the
  current topology generation, and the four containers stay within their configured bounds (the
  observation queue within one entry when its bound is zero).
\<close>

theorem registry_reachable_wf:
  assumes "reachable lms w s"
  shows "wf_state lms s
    \<and> (\<forall>i l. link s i = Some l \<longrightarrow>
        lk_source l \<noteq> lk_target l \<and> device s (lk_source l) \<noteq> None \<and> device s (lk_target l) \<noteq> None
        \<and> lk_topology_generation l = topology_gen s)
    \<and> device_count s \<le> max_devices lms \<and> link_count s \<le> max_links lms
    \<and> measurement_count s \<le> max_measurement_history lms"
  using reachable_wf [OF assms] wf_link_facts [OF reachable_wf [OF assms]]
  by (auto simp: wf_state_def wf_core_def device_count_def link_count_def measurement_count_def)

definition example_device :: "u64 \<Rightarrow> u64 \<Rightarrow> device_record" where
  "example_device i g = default_device\<lparr>dev_id := Ident i, dev_logical_name := ''gpu'',
     dev_kind := NK_ACCELERATOR, dev_health := DH_PRESENT, dev_generation := Generation g\<rparr>"

definition example_link :: "u64 \<Rightarrow> u64 \<Rightarrow> u64 \<Rightarrow> link_record" where
  "example_link i a b = default_link\<lparr>lk_id := Ident i, lk_source := Ident a, lk_target := Ident b,
     lk_state := LS_UP, lk_technology := IT_NVLINK, lk_generation := Generation 1\<rparr>"

definition example_world :: world where
  "example_world = initial_world (\<lambda>n. of_nat n) (\<lambda>_. [])"

definition example_state :: "world \<times> state" where
  "example_state = run_ops default_limits
     [Upsert_Device (example_device 1 1), Upsert_Device (example_device 2 1),
      Upsert_Link (example_link 7 1 2)] example_world initial_state"

lemma reachable_run: "reachable lms w s \<Longrightarrow> run_ops lms xs w s = (w', s') \<Longrightarrow> reachable lms w' s'"
  by (induction xs arbitrary: w s) (auto split: prod.splits intro: reachable.step)

lemma example_reachable: "reachable default_limits (fst example_state) (snd example_state)"
  using reachable_run [OF reachable.start] by (metis example_state_def prod.collapse)

lemmas example_eval = example_state_def example_world_def initial_world_def initial_state_def
  example_device_def example_link_def default_device_def default_link_def default_limits_def
  upsert_device_def commit_device_def upsert_link_def commit_link_def make_observation_def
  fresh_id_def now_timestamp_def record_observation_def advance_from_def stamp_links_def
  push_bounded_def is_nil_def gen_valid_def gen_next_def um_find_def um_emplace_def
  um_assign_def um_transform_def parallel_links_def same_unordered_def

lemma example_state_contents:
  "map fst (devices (snd example_state)) = [Ident 1, Ident 2]"
  "map (\<lambda>(k, l). (k, lk_source l, lk_target l)) (links (snd example_state))
     = [(Ident 7, Ident 1, Ident 2)]"
  by (simp_all add: example_eval)

theorem registry_reachable_wf_witness:
  "wf_state default_limits (snd example_state)
   \<and> device_count (snd example_state) = 2 \<and> link_count (snd example_state) = 1"
  using registry_reachable_wf [OF example_reachable] example_state_contents
  by (auto simp: device_count_def link_count_def dest!: arg_cong [where f = length])

section \<open>Topology generations\<close>

text \<open>
  C2: every mutation that fails leaves the registry untouched; every mutation that changes the
  devices or the links strictly advances the topology generation, and no mutation moves it back,
  as long as the 64-bit counter has not wrapped to the invalid generation 0.
\<close>

theorem topology_generation_advances:
  assumes "apply_op lms x w s = (r, w', s')" and "gen_valid (topology_gen s')"
  shows "(\<not> has_value r \<longrightarrow> s' = s \<and> w' = w) \<and> topology_gen s \<le> topology_gen s'
    \<and> (devices s' \<noteq> devices s \<or> links s' \<noteq> links s \<longrightarrow> topology_gen s < topology_gen s')"
proof -
  have "\<not> has_value r \<longrightarrow> s' = s \<and> w' = w"
    using op.error_keeps assms(1) by (cases r) auto
  then show ?thesis
    using op.generation_monotone [OF assms] op.changed_topology_advances [OF assms(1) _ assms(2)]
    by (auto simp: same_topology_def)
qed

theorem topology_generation_advances_witness:
  "topology_gen (snd (snd (apply_op default_limits (Remove_Link (Ident 7)) (fst example_state)
     (snd example_state)))) > topology_gen (snd example_state)"
proof -
  obtain r w' s' where run: "apply_op default_limits (Remove_Link (Ident 7)) (fst example_state)
      (snd example_state) = (r, w', s')" by (metis prod_cases3)
  have "gen_valid (topology_gen s')" "links s' \<noteq> links (snd example_state)"
    using run by (auto simp: remove_link_def um_erase_def example_eval)
  then show ?thesis
    using topology_generation_advances [OF run] run by simp
qed

section \<open>Publishing a device\<close>

lemma upsert_device_cases:
  assumes "upsert_device lms d w s = (r, w', s')"
  shows "has_value r \<longleftrightarrow> \<not> is_nil (dev_id d) \<and> gen_valid (dev_generation d) \<and>
      (case device s (dev_id d) of None \<Rightarrow> device_count s < max_devices lms
       | Some cur \<Rightarrow> dev_generation cur < dev_generation d \<or> d = cur)"
    and "has_value r \<Longrightarrow> device s' = (device s)(dev_id d \<mapsto> d)"
  using assms
  by (auto simp: upsert_device_def commit_device_def device_def device_count_def um.find_emplace
      um.find_assign fun_eq_iff split: mutation_splits)

definition fails_with :: "error_code \<Rightarrow> 'a result \<Rightarrow> bool" where
  "fails_with c r \<longleftrightarrow> (\<exists>e. r = Inl e \<and> err_code e = c)"

lemma fails_with_simps [simp]:
  "fails_with c (fail c' m) \<longleftrightarrow> c' = c" "\<not> fails_with c (ok x)"
  by (auto simp: fails_with_def fail_def make_error_def)

definition change_recorded ::
  "limits \<Rightarrow> string \<Rightarrow> device_id \<Rightarrow> device_id \<Rightarrow> evidence \<Rightarrow> string \<Rightarrow> world \<Rightarrow> state \<Rightarrow> world \<Rightarrow> state \<Rightarrow> bool" where
  \<comment> \<open>what an accepted change leaves beside the devices and links: the next topology generation, one more
     observation at the end of the bounded history, and the measurements as they were\<close>
  "change_recorded lms kind a b ev summary w s w' s' \<longleftrightarrow>
     topology_gen s' = gen_next (topology_gen s) \<and> measurement_history s' = measurement_history s \<and>
     (\<exists>ob. make_observation kind a b ev summary w = (ob, w') \<and>
        observations s' = push_bounded (max_observations lms) (observations s) ob)"

lemma change_recorded_advance:
  assumes "make_observation kind a b ev summary w = (ob, w')"
    and "topology_gen next = topology_gen s" "measurement_history next = measurement_history s" "observations next = observations s"
  shows "change_recorded lms kind a b ev summary w s w' (advance_from (topology_gen s) (record_observation lms ob next))"
  using assms by (auto simp: change_recorded_def advance_from_def stamp_links_def record_observation_def)

text \<open>
  C3: \<open>upsert_device\<close> on every branch. A device without an id or a valid generation is refused with
  \<open>INVALID_ARGUMENT\<close>, a new device above the bound with \<open>RESOURCE_LIMIT\<close>, an older generation or different
  contents under the stored generation with \<open>STALE_GENERATION\<close>, and nothing else is refused; a refused call and
  the replay of the stored record change nothing at all. Any other call stores the device under its id and
  keeps every other device and, up to the new topology stamp, every link; it moves the topology
  generation on by one, records one observation of the device and keeps the measurements.
\<close>

theorem upsert_device_spec:
  assumes "upsert_device lms d w s = (r, w', s')"
  defines "new \<equiv> device s (dev_id d) = None"
  shows "(fails_with EC_INVALID_ARGUMENT r \<longleftrightarrow> is_nil (dev_id d) \<or> \<not> gen_valid (dev_generation d))
    \<and> (fails_with EC_RESOURCE_LIMIT r \<longleftrightarrow> \<not> is_nil (dev_id d) \<and> gen_valid (dev_generation d) \<and> new \<and>
        max_devices lms \<le> device_count s)
    \<and> (fails_with EC_STALE_GENERATION r \<longleftrightarrow> \<not> is_nil (dev_id d) \<and> gen_valid (dev_generation d) \<and>
        (\<exists>cur. device s (dev_id d) = Some cur \<and> (dev_generation d < dev_generation cur \<or>
           dev_generation d = dev_generation cur \<and> d \<noteq> cur)))
    \<and> (\<not> has_value r \<longrightarrow> (\<exists>c \<in> {EC_INVALID_ARGUMENT, EC_RESOURCE_LIMIT, EC_STALE_GENERATION}. fails_with c r))
    \<and> (\<not> has_value r \<or> device s (dev_id d) = Some d \<longrightarrow> w' = w \<and> s' = s)
    \<and> (has_value r \<and> device s (dev_id d) \<noteq> Some d \<longrightarrow>
        device s' = (device s)(dev_id d \<mapsto> d) \<and>
        (\<forall>i. link s' i = map_option (lk_topology_generation_update (\<lambda>_. topology_gen s')) (link s i)) \<and>
        change_recorded lms ''device'' (dev_id d) (dev_id d)
          (if new then dev_evidence d else moved_evidence w (dev_evidence d))
          (''device '' @ (if new then dev_logical_name d else moved_from w (dev_logical_name d))) w s w' s')"
  using assms(1) unfolding new_def
  by (auto simp: upsert_device_def commit_device_def device_def device_count_def link_def um.find_emplace
      um.find_assign um.find_transform fun_eq_iff topology_gen_advance change_recorded_advance split: mutation_splits)

theorem upsert_device_spec_witness:
  "device (snd (snd (upsert_device default_limits (example_device 1 5) (fst example_state)
     (snd example_state)))) (Ident 1) = Some (example_device 1 5)"
proof -
  obtain r w' s' where run: "upsert_device default_limits (example_device 1 5) (fst example_state)
      (snd example_state) = (r, w', s')" by (metis prod_cases3)
  have "has_value r" using run by (auto simp: example_eval less_generation_def)
  moreover have "device (snd example_state) (dev_id (example_device 1 5)) \<noteq> Some (example_device 1 5)"
    by (simp add: device_def example_eval)
  ultimately show ?thesis
    using upsert_device_spec [OF run] run by (simp add: example_device_def)
qed

text \<open>
  while a device is stored, a replay with an older generation, or different contents under
  the same generation, is refused with \<open>STALE_GENERATION\<close> and changes nothing.
\<close>

theorem upsert_device_stale_rejected:
  assumes "device s (dev_id d) = Some cur" "\<not> is_nil (dev_id d)" "gen_valid (dev_generation d)"
    and "dev_generation d < dev_generation cur \<or> dev_generation d = dev_generation cur \<and> d \<noteq> cur"
  shows "\<exists>m. upsert_device lms d w s = (fail EC_STALE_GENERATION m, w, s)"
  using assms by (auto simp: upsert_device_def device_def)

theorem upsert_device_stale_rejected_witness:
  "\<exists>m. upsert_device default_limits ((example_device 1 1)\<lparr>dev_logical_name := ''other''\<rparr>)
     (fst example_state) (snd example_state)
     = (fail EC_STALE_GENERATION m, fst example_state, snd example_state)"
  by (rule upsert_device_stale_rejected [where cur = "example_device 1 1"])
    (simp_all add: device_def example_eval)

section \<open>Publishing a link\<close>

definition unstamp :: "link_record \<Rightarrow> link_record" where
  \<comment> \<open>a link without the topology generation that every mutation rewrites\<close>
  "unstamp l = l\<lparr>lk_topology_generation := Generation 0\<rparr>"

lemma unstamp_stamp [simp]: "unstamp (l\<lparr>lk_topology_generation := g\<rparr>) = unstamp l"
  by (simp add: unstamp_def)

lemma link_finish [simp]:
  "link (advance_from g s) i = map_option (\<lambda>l. l\<lparr>lk_topology_generation := gen_next g\<rparr>) (link s i)"
  "link (record_observation lms ob s) i = link s i"
  by (simp_all add: link_def um.find_transform)

lemma upsert_link_refusals:
  assumes "upsert_link lms l w s = (r, w', s')"
  defines "valid \<equiv> \<not> is_nil (lk_id l) \<and> gen_valid (lk_generation l)"
    and "ends \<equiv> lk_source l \<noteq> lk_target l \<and> device s (lk_source l) \<noteq> None \<and> device s (lk_target l) \<noteq> None"
    and "room \<equiv> link_count s < max_links lms \<and> parallel_links s l < max_parallel_links_per_pair lms"
  shows "fails_with EC_INVALID_ARGUMENT r \<longleftrightarrow> \<not> valid"
    and "fails_with EC_INVALID_TOPOLOGY r \<longleftrightarrow> valid \<and> \<not> ends"
    and "fails_with EC_RESOURCE_LIMIT r \<longleftrightarrow> valid \<and> ends \<and> \<not> room"
    and "fails_with EC_STALE_GENERATION r \<longleftrightarrow> valid \<and> ends \<and> room \<and>
        (\<exists>cur. link s (lk_id l) = Some cur \<and> (lk_generation l < lk_generation cur \<or>
           lk_generation l = lk_generation cur \<and> l \<noteq> cur))"
    and "has_value r \<or> (\<exists>c \<in> {EC_INVALID_ARGUMENT, EC_INVALID_TOPOLOGY, EC_RESOURCE_LIMIT, EC_STALE_GENERATION}. fails_with c r)"
    and "\<not> has_value r \<or> link s (lk_id l) = Some l \<Longrightarrow> w' = w \<and> s' = s"
  using assms(1) unfolding valid_def ends_def room_def upsert_link_def commit_link_def device_def link_def link_count_def
  by (auto split: mutation_splits)

lemma upsert_link_stores:
  assumes "upsert_link lms l w s = (r, w', s')" "has_value r" "link s (lk_id l) \<noteq> Some l"
  shows "devices s' = devices s"
    and "link s' i = map_option (lk_topology_generation_update (\<lambda>_. topology_gen s')) (((link s)(lk_id l \<mapsto> l)) i)"
    and "change_recorded lms ''link'' (lk_source l) (lk_target l)
      (if link s (lk_id l) = None then lk_evidence l else moved_evidence w (lk_evidence l))
      (''link '' @ (if link s (lk_id l) = None then lk_physical_identifier l else moved_from w (lk_physical_identifier l))) w s w' s'"
  using assms unfolding upsert_link_def commit_link_def link_def
  by (auto simp: um.find_emplace um.find_assign um.find_transform topology_gen_advance change_recorded_advance
      split: mutation_splits)

text \<open>
  C4: \<open>upsert_link\<close> on every branch. The refusals come in the order of the code: no id or no valid
  generation is \<open>INVALID_ARGUMENT\<close>; equal or unknown ends are \<open>INVALID_TOPOLOGY\<close>; a registry full of links or
  a pair full of parallel links is \<open>RESOURCE_LIMIT\<close>; an older generation or different contents under
  the stored generation is \<open>STALE_GENERATION\<close>; nothing else is refused. A refused call and the replay of the stored
  record change nothing at all. Any other call stores the link under its id, stamps all links with the
  next topology generation and keeps them otherwise, keeps the devices and the measurements, and
  records one observation between the ends of the link.
\<close>

theorem upsert_link_spec:
  assumes "upsert_link lms l w s = (r, w', s')"
  defines "valid \<equiv> \<not> is_nil (lk_id l) \<and> gen_valid (lk_generation l)"
    and "ends \<equiv> lk_source l \<noteq> lk_target l \<and> device s (lk_source l) \<noteq> None \<and> device s (lk_target l) \<noteq> None"
    and "room \<equiv> link_count s < max_links lms \<and> parallel_links s l < max_parallel_links_per_pair lms"
    and "new \<equiv> link s (lk_id l) = None"
  shows "(fails_with EC_INVALID_ARGUMENT r \<longleftrightarrow> \<not> valid)
    \<and> (fails_with EC_INVALID_TOPOLOGY r \<longleftrightarrow> valid \<and> \<not> ends)
    \<and> (fails_with EC_RESOURCE_LIMIT r \<longleftrightarrow> valid \<and> ends \<and> \<not> room)
    \<and> (fails_with EC_STALE_GENERATION r \<longleftrightarrow> valid \<and> ends \<and> room \<and>
        (\<exists>cur. link s (lk_id l) = Some cur \<and> (lk_generation l < lk_generation cur \<or>
           lk_generation l = lk_generation cur \<and> l \<noteq> cur)))
    \<and> (\<not> has_value r \<longrightarrow> (\<exists>c \<in> {EC_INVALID_ARGUMENT, EC_INVALID_TOPOLOGY, EC_RESOURCE_LIMIT, EC_STALE_GENERATION}.
        fails_with c r))
    \<and> (\<not> has_value r \<or> link s (lk_id l) = Some l \<longrightarrow> w' = w \<and> s' = s)
    \<and> (has_value r \<and> link s (lk_id l) \<noteq> Some l \<longrightarrow>
        devices s' = devices s \<and>
        (\<forall>i. link s' i = map_option (lk_topology_generation_update (\<lambda>_. topology_gen s')) (((link s)(lk_id l \<mapsto> l)) i)) \<and>
        change_recorded lms ''link'' (lk_source l) (lk_target l)
          (if new then lk_evidence l else moved_evidence w (lk_evidence l))
          (''link '' @ (if new then lk_physical_identifier l else moved_from w (lk_physical_identifier l))) w s w' s')"
  unfolding valid_def ends_def room_def new_def
  using upsert_link_refusals [OF assms(1)] upsert_link_stores [OF assms(1)] by blast

theorem upsert_link_spec_witness:
  "map_option unstamp (link (snd (snd (upsert_link default_limits (example_link 8 2 1)
     (fst example_state) (snd example_state)))) (Ident 8)) = Some (unstamp (example_link 8 2 1))"
proof -
  obtain r w' s' where run: "upsert_link default_limits (example_link 8 2 1) (fst example_state)
      (snd example_state) = (r, w', s')" by (metis prod_cases3)
  have "has_value r" using run by (auto simp: example_eval)
  moreover have "link (snd example_state) (lk_id (example_link 8 2 1)) \<noteq> Some (example_link 8 2 1)"
    by (simp add: link_def example_eval)
  ultimately show ?thesis
    using upsert_link_spec [OF run] run by (simp add: example_link_def)
qed

text \<open>
  The resource bounds are tested before the link is looked up, so a full registry refuses
  every update of a link it already holds, even an identical republication.
\<close>

theorem upsert_link_full_rejects_updates:
  assumes "link_count s \<ge> max_links lms"
  shows "\<not> has_value (fst (upsert_link lms l w s)) \<and> snd (snd (upsert_link lms l w s)) = s"
  using assms by (auto simp: upsert_link_def link_count_def)

theorem upsert_link_full_rejects_updates_witness:
  "let lms = default_limits\<lparr>max_links := 1\<rparr>; l = snd (hd (links (snd example_state)))
   in link (snd example_state) (lk_id l) = Some l \<and>
      \<not> has_value (fst (upsert_link lms l (fst example_state) (snd example_state)))"
  using upsert_link_full_rejects_updates [of "default_limits\<lparr>max_links := 1\<rparr>" "snd example_state"]
  by (simp add: Let_def link_count_def link_def example_eval)

section \<open>Removing a device; generations over time\<close>

text \<open>
  C5: removing a stored device succeeds, removes it and every link that has it as an endpoint,
  and keeps every other device and link (up to the topology stamp).
\<close>

theorem remove_device_spec:
  assumes "wf_state lms s" and "device s i = Some d" and "remove_device lms i w s = (r, w', s')"
  shows "has_value r \<and> device s' = (device s)(i := None)
    \<and> (\<forall>k. map_option unstamp (link s' k) =
          (case link s k of None \<Rightarrow> None
           | Some l \<Rightarrow> if lk_source l = i \<or> lk_target l = i then None else Some (unstamp l)))"
  using assms wf_invars [OF assms(1)]
  by (auto simp: remove_device_def Let_def device_def link_def um.find_erase um.find_erase_if
      um.find_transform fun_eq_iff option.map_comp comp_def split: mutation_splits)

theorem remove_device_spec_witness:
  "link (snd (snd (remove_device default_limits (Ident 2) (fst example_state) (snd example_state))))
     (Ident 7) = None"
proof -
  obtain r w' s' where run: "remove_device default_limits (Ident 2) (fst example_state)
      (snd example_state) = (r, w', s')" by (metis prod_cases3)
  have dev: "device (snd example_state) (Ident 2) = Some (example_device 2 1)"
    by (simp add: device_def example_eval)
  have "link (snd example_state) (Ident 7) \<noteq> None"
    and "\<forall>l. link (snd example_state) (Ident 7) = Some l \<longrightarrow> lk_target l = Ident 2"
    by (simp_all add: link_def example_eval)
  then show ?thesis
    using remove_device_spec [OF reachable_wf [OF example_reachable] dev run] run
    by (auto dest!: spec [of _ "Ident 7"])
qed

definition restores :: "registry_op \<Rightarrow> bool" where
  "restores x \<longleftrightarrow> (case x of Restore_Durable_State _ \<Rightarrow> True | _ \<Rightarrow> False)"

lemma device_mark:
  assumes "mark_dynamic_evidence_revalidation_required lms w s = (w', s')"
  shows "device s' i = map_option (\<lambda>d. if dev_owner_worker d \<noteq> None
     then d\<lparr>dev_health := DH_REVALIDATION_REQUIRED\<rparr> else d) (device s i)"
  using assms by (auto simp: mark_dynamic_evidence_revalidation_required_def Let_def device_def
      um.find_transform split: prod.splits)

lemma device_generation_upsert:
  assumes "upsert_device lms d w s = (r, w', s')" "device s i = Some a" "device s' i = Some b"
  shows "dev_generation a \<le> dev_generation b"
  using assms upsert_device_cases [OF assms(1)] ud.error_keeps [of lms d w s]
  by (cases r) (auto split: if_splits)

lemma device_generation_health:
  assumes "update_device_health lms j h ev w s = (r, w', s')" "device s i = Some a"
    "device s' i = Some b" "gen_valid (dev_generation b)"
  shows "dev_generation a \<le> dev_generation b"
  using assms less_imp_le [OF gen_next_greater_valid, of "dev_generation a"]
  by (auto simp: update_device_health_def Let_def device_def um.find_assign
      split: mutation_splits if_splits)

lemma device_unchanged:
  "upsert_link lms l w s = (r, w', s') \<Longrightarrow> device s' = device s"
  "remove_link lms k w s = (r, w', s') \<Longrightarrow> device s' = device s"
  "update_link_state lms k st ev deg nt w s = (r, w', s') \<Longrightarrow> device s' = device s"
  "advance_topology lms ev w s = (r, w', s') \<Longrightarrow> device s' = device s"
  "publish_observation lms ob w s = (r, w', s') \<Longrightarrow> device s' = device s"
  "publish_measurement lms m w s = (r, w', s') \<Longrightarrow> device s' = device s"
  "remove_device lms j w s = (r, w', s') \<Longrightarrow> device s' i = Some b \<Longrightarrow> device s i = Some b"
  by (auto simp: upsert_link_def commit_link_def remove_link_def update_link_state_def Let_def
      advance_topology_def publish_observation_def publish_measurement_def remove_device_def
      device_def um.find_erase fun_eq_iff split: mutation_splits if_splits)

text \<open>
  C6: except for a durable-state restore, no mutation moves the generation of a device backward
  while the device stays stored (again short of a wrapped counter).
\<close>

theorem device_generation_monotone:
  assumes "apply_op lms x w s = (r, w', s')" and "\<not> restores x"
    and "device s i = Some a" "device s' i = Some b" and "gen_valid (dev_generation b)"
  shows "dev_generation a \<le> dev_generation b"
  using assms
proof (cases x)
  case (Upsert_Device d)
  with assms show ?thesis using device_generation_upsert by simp
next
  case (Update_Device_Health j h ev)
  with assms show ?thesis using device_generation_health by simp
next
  case (Remove_Device j)
  with assms show ?thesis using device_unchanged(7) by fastforce
next
  case Mark_Dynamic_Evidence
  with assms show ?thesis using device_mark by (auto split: if_splits)
qed (auto simp: restores_def dest: device_unchanged)

theorem device_generation_monotone_witness:
  "\<exists>b. device (snd (snd (apply_op default_limits
          (Update_Device_Health (Ident 1) DH_DEGRADED default_evidence)
          (fst example_state) (snd example_state)))) (Ident 1) = Some b
     \<and> Generation 1 \<le> dev_generation b"
proof -
  let ?x = "Update_Device_Health (Ident 1) DH_DEGRADED default_evidence"
  obtain r w' s' where run: "apply_op default_limits ?x (fst example_state) (snd example_state)
      = (r, w', s')" by (metis prod_cases3)
  have a: "device (snd example_state) (Ident 1) = Some (example_device 1 1)"
    by (simp add: device_def example_eval)
  obtain b where b: "device s' (Ident 1) = Some b" "gen_valid (dev_generation b)"
    using run by (auto simp: update_device_health_def device_def example_eval)
  have "\<not> restores ?x" by (simp add: restores_def)
  from device_generation_monotone [OF run this a b]
  show ?thesis using run b by (simp add: example_device_def)
qed

text \<open>
  The registry keeps no memory of a removed device, so after \<open>remove_device\<close> any
  generation, older ones included, is accepted again for the same id.
\<close>

theorem remove_device_forgets_generation:
  assumes "wf_state lms s" and "device s (dev_id d) = Some cur"
    and "remove_device lms (dev_id d) w s = (r, w', s')"
    and "gen_valid (dev_generation d)"
  shows "has_value (fst (upsert_device lms d w' s'))
    \<and> device (snd (snd (upsert_device lms d w' s'))) (dev_id d) = Some d"
proof -
  obtain r2 w2 s2 where up: "upsert_device lms d w' s' = (r2, w2, s2)" by (metis prod_cases3)
  have none: "device s' (dev_id d) = None"
    using assms(2,3) by (auto simp: remove_device_def Let_def device_def um.find_erase
        split: mutation_splits)
  have "device_count s' < device_count s"
    using assms(2,3) map_of_SomeD [of "devices s" "dev_id d" cur]
    by (auto simp: remove_device_def Let_def device_def device_count_def um_find_def um_erase_def
        intro!: length_filter_less [where x = "(dev_id d, cur)"] split: mutation_splits)
  then have "device_count s' < max_devices lms"
    using assms(1) by (simp add: wf_state_def wf_core_def device_count_def)
  moreover have "\<not> is_nil (dev_id d)" using wf_device_key assms(1,2) by blast
  ultimately show ?thesis
    using upsert_device_cases [OF up] none assms(4) up by simp
qed

theorem remove_device_forgets_generation_witness:
  "let (w1, s1) = run_ops default_limits [Upsert_Device (example_device 1 9), Remove_Device (Ident 1)]
         (fst example_state) (snd example_state)
   in device (snd (snd (upsert_device default_limits (example_device 1 2) w1 s1))) (Ident 1)
      = Some (example_device 1 2)"
proof -
  let ?up = "upsert_device default_limits (example_device 1 9) (fst example_state) (snd example_state)"
  obtain r0 w0 s0 where up: "?up = (r0, w0, s0)" by (metis prod_cases3)
  have wf: "wf_state default_limits s0"
    using ud.keeps_wf [OF reachable_wf [OF example_reachable] up] .
  obtain r w' s' where run: "remove_device default_limits (Ident 1) w0 s0 = (r, w', s')"
    by (metis prod_cases3)
  have dev: "device s0 (dev_id (example_device 1 2)) = Some (example_device 1 9)"
    using up by (auto simp: device_def example_eval less_generation_def)
  have "device (snd (snd (upsert_device default_limits (example_device 1 2) w' s'))) (Ident 1)
      = Some (example_device 1 2)"
    using remove_device_forgets_generation [OF wf dev, of w0 r w' s'] run
    by (simp add: example_device_def gen_valid_def)
  then show ?thesis using up run by simp
qed

section \<open>Loss of authority\<close>

lemma mark_dynamic_facts:
  assumes "mark_dynamic_evidence_revalidation_required lms w s = (w', s')"
  shows "(\<forall>m \<in> set (measurement_history s'). m_stale m \<and> m_revalidation_required m)
    \<and> length (measurement_history s') = length (measurement_history s)
    \<and> (\<forall>i. link s' i = map_option (\<lambda>l. l\<lparr>lk_state := LS_REVALIDATION_REQUIRED, lk_degraded := False,
          lk_degradation_note := ''revalidation required after authority restart'',
          lk_topology_generation := topology_gen s'\<rparr>) (link s i))
    \<and> (\<forall>i. device s' i = map_option (\<lambda>d. if dev_owner_worker d \<noteq> None
          then d\<lparr>dev_health := DH_REVALIDATION_REQUIRED\<rparr> else d) (device s i))
    \<and> (\<forall>ob \<in> set (observations s'). obs_stale ob \<or> obs_kind ob = ''recovery'')
    \<and> topology_gen s' = gen_next (topology_gen s)"
proof -
  have "obs_stale ob \<or> obs_kind ob = ''recovery''" if "ob \<in> set (observations s')" for ob
    using assms that
    by (auto simp: mark_dynamic_evidence_revalidation_required_def Let_def make_observation_def
        record_observation_def split: prod.splits dest!: subsetD [OF set_push_bounded])
  moreover have "measurement_history s' =
      map (\<lambda>m. m\<lparr>m_stale := True, m_revalidation_required := True\<rparr>) (measurement_history s)"
    using assms by (auto simp: mark_dynamic_evidence_revalidation_required_def Let_def
        split: prod.splits)
  moreover have "link s' i = map_option (\<lambda>l. l\<lparr>lk_state := LS_REVALIDATION_REQUIRED,
      lk_degraded := False, lk_degradation_note := ''revalidation required after authority restart'',
      lk_topology_generation := topology_gen s'\<rparr>) (link s i)" for i
    using assms by (auto simp: mark_dynamic_evidence_revalidation_required_def Let_def
        link_def um.find_transform option.map_comp comp_def split: prod.splits)
  moreover have "topology_gen s' = gen_next (topology_gen s)"
    using assms by (auto simp: mark_dynamic_evidence_revalidation_required_def Let_def
        split: prod.splits)
  ultimately show ?thesis using device_mark [OF assms] by auto
qed

text \<open>
  \<open>mark_dynamic_evidence_revalidation_required\<close> leaves nothing dynamic fresh: every
  measurement is stale and marked for revalidation, every link is in state
  \<open>REVALIDATION_REQUIRED\<close>, every worker-owned device needs revalidation while the other
  devices keep their record, every earlier observation is stale, no device or link appears or
  disappears, and the topology generation moves on.
\<close>

theorem mark_dynamic_evidence_spec:
  assumes "mark_dynamic_evidence_revalidation_required lms w s = (w', s')"
  shows "(\<forall>m \<in> set (measurement_history s'). m_stale m \<and> m_revalidation_required m)
    \<and> length (measurement_history s') = length (measurement_history s)
    \<and> (\<forall>i. link s' i = map_option (\<lambda>l. l\<lparr>lk_state := LS_REVALIDATION_REQUIRED, lk_degraded := False,
          lk_degradation_note := ''revalidation required after authority restart'',
          lk_topology_generation := topology_gen s'\<rparr>) (link s i))
    \<and> (\<forall>i. device s' i = map_option (\<lambda>d. if dev_owner_worker d \<noteq> None
          then d\<lparr>dev_health := DH_REVALIDATION_REQUIRED\<rparr> else d) (device s i))
    \<and> (\<forall>ob \<in> set (observations s'). obs_stale ob \<or> obs_kind ob = ''recovery'')
    \<and> topology_gen s' = gen_next (topology_gen s)"
  by (rule mark_dynamic_facts [OF assms])

theorem mark_dynamic_evidence_spec_witness:
  "\<exists>l. link (snd (mark_dynamic_evidence_revalidation_required default_limits (fst example_state)
          (snd example_state))) (Ident 7) = Some l \<and> lk_state l = LS_REVALIDATION_REQUIRED"
proof -
  obtain w' s' where run: "mark_dynamic_evidence_revalidation_required default_limits
      (fst example_state) (snd example_state) = (w', s')" by fastforce
  have "link (snd example_state) (Ident 7) \<noteq> None" by (simp add: link_def example_eval)
  then show ?thesis using mark_dynamic_evidence_spec [OF run] run by auto
qed

section \<open>Durable state\<close>

lemma restore_devices_listing:
  assumes "distinct (map dev_id ds)" "length acc + length ds \<le> max_devices lms"
    "\<forall>d \<in> set ds. \<not> is_nil (dev_id d) \<and> gen_valid (dev_generation d)"
    "\<forall>d \<in> set ds. um_find acc (dev_id d) = None"
  shows "restore_devices lms ds acc = ok (acc @ map (\<lambda>d. (dev_id d, d)) ds)"
  using assms
proof (induction ds arbitrary: acc)
  case (Cons d ds)
  have e: "um_emplace (dev_id d) d acc = acc @ [(dev_id d, d)]"
    using Cons.prems by (simp add: um_emplace_def)
  have "um_find (acc @ [(dev_id d, d)]) (dev_id x) = None" if "x \<in> set ds" for x
    using Cons.prems that by (auto simp: um_find_def map_add_def image_iff)
  then show ?case
    using Cons.prems Cons.IH [of "acc @ [(dev_id d, d)]"] by (simp add: e)
qed simp

definition restored_link :: "link_record \<Rightarrow> link_record" where
  "restored_link l = l\<lparr>lk_state := LS_REVALIDATION_REQUIRED, lk_degraded := False,
     lk_degradation_note := ''revalidation required after durable-state restore''\<rparr>"

lemma restore_links_listing:
  assumes "distinct (map lk_id ls)" "length acc + length ls \<le> max_links lms"
    "\<forall>l \<in> set ls. \<not> is_nil (lk_id l) \<and> gen_valid (lk_generation l) \<and> lk_source l \<noteq> lk_target l \<and>
       um_find devs (lk_source l) \<noteq> None \<and> um_find devs (lk_target l) \<noteq> None"
    "\<forall>l \<in> set ls. um_find acc (lk_id l) = None"
  shows "restore_links lms devs ls acc = ok (acc @ map (\<lambda>l. (lk_id l, restored_link l)) ls)"
  using assms
proof (induction ls arbitrary: acc)
  case (Cons l ls)
  have e: "um_emplace (lk_id l) (restored_link l) acc = acc @ [(lk_id l, restored_link l)]"
    using Cons.prems by (simp add: um_emplace_def)
  have "um_find (acc @ [(lk_id l, restored_link l)]) (lk_id x) = None" if "x \<in> set ls" for x
    using Cons.prems that by (auto simp: um_find_def map_add_def image_iff)
  then show ?case
    using Cons.prems Cons.IH [of "acc @ [(lk_id l, restored_link l)]"]
    by (simp add: e restored_link_def [symmetric])
qed simp

definition generations_valid :: "state \<Rightarrow> bool" where
  "generations_valid s \<longleftrightarrow>
     list_all (\<lambda>(_, d). gen_valid (dev_generation d)) (devices s) \<and>
     list_all (\<lambda>(_, l). gen_valid (lk_generation l)) (links s)"

lemma um_find_restored:
  "um_find (map (\<lambda>v. (f v, g v)) xs) k = map_option g (um_find (map (\<lambda>v. (f v, v)) xs) k)"
  by (induction xs) (auto simp: um_find_def)

lemma um_values_shape: "set (um_values m) = snd ` set m" "length (um_values m) = length m"
  by (simp_all add: um_values_def)

lemma captured_devices_restore:
  assumes wf: "wf_state lms s" and gens: "generations_valid s"
  shows "restore_devices lms (sort_key dev_id (um_values (devices s))) [] =
    ok (map (\<lambda>d. (dev_id d, d)) (sort_key dev_id (um_values (devices s))))"
proof -
  note inv = wf_invars [OF wf] and key = wf_keyed [OF wf]
  have "\<forall>d \<in> set (um_values (devices s)). \<not> is_nil (dev_id d) \<and> gen_valid (dev_generation d)"
    using wf gens by (fastforce simp: wf_state_def wf_core_def generations_valid_def list_all_iff
        device_ok_def um_values_shape)
  moreover have "length (devices s) \<le> max_devices lms" using wf by (simp add: wf_state_def wf_core_def)
  ultimately show ?thesis
    using restore_devices_listing [of "sort_key dev_id (um_values (devices s))" "[]" lms]
      sorted_listing_distinct [of "devices s" dev_id] inv key by (simp add: um_values_shape(2))
qed

definition keeps_identity :: "(link_record \<Rightarrow> link_record) \<Rightarrow> bool" where
  \<comment> \<open>a change of a saved link that restoring does not look at\<close>
  "keeps_identity f \<longleftrightarrow> (\<forall>l. lk_id (f l) = lk_id l \<and> lk_generation (f l) = lk_generation l \<and>
     lk_source (f l) = lk_source l \<and> lk_target (f l) = lk_target l)"

lemma captured_links_restore:
  assumes wf: "wf_state lms s" and gens: "generations_valid s" and devs: "um_find devs = um_find (devices s)"
    and f: "keeps_identity f"
  shows "restore_links lms devs (map f (sort_key lk_id (um_values (links s)))) [] =
    ok (map (\<lambda>l. (lk_id l, restored_link (f l))) (sort_key lk_id (um_values (links s))))"
proof -
  note inv = wf_invars [OF wf] and key = wf_keyed [OF wf]
  have ids: "map lk_id (map f ls) = map lk_id ls" for ls using f by (simp add: keeps_identity_def)
  have "\<forall>l \<in> set (um_values (links s)). \<not> is_nil (lk_id l) \<and> gen_valid (lk_generation l) \<and>
      lk_source l \<noteq> lk_target l \<and> um_find devs (lk_source l) \<noteq> None \<and> um_find devs (lk_target l) \<noteq> None"
    using wf gens by (fastforce simp: wf_state_def wf_core_def generations_valid_def list_all_iff
        link_ok_def um_values_shape devs)
  moreover have "length (links s) \<le> max_links lms" using wf by (simp add: wf_state_def wf_core_def)
  ultimately show ?thesis
    using restore_links_listing [of "map f (sort_key lk_id (um_values (links s)))" "[]" lms devs]
      sorted_listing_distinct [of "links s" lk_id] inv key f
    by (simp only: ids) (simp add: um_values_shape(2) keeps_identity_def comp_def)
qed

lemma capture_restore_upto:
  assumes wf: "wf_state lms s" and gens: "generations_valid s" and f: "keeps_identity f"
    and cap: "capture_durable_state s w0 = (ok st, w1)"
    and run: "restore_durable_state lms (st\<lparr>ds_links := map f (ds_links st), ds_saved_at := saved\<rparr>) w t = (r, w', t')"
  shows "r = ok ()
    \<and> (\<forall>i. device t' i = map_option (\<lambda>d. if dev_owner_worker d \<noteq> None \<or> dev_owner_boot d \<noteq> None
          then d\<lparr>dev_health := DH_REVALIDATION_REQUIRED\<rparr> else d) (device s i))
    \<and> (\<forall>i. link t' i = map_option (\<lambda>l. (restored_link (f l))\<lparr>lk_topology_generation := topology_gen t'\<rparr>)
          (link s i))
    \<and> measurement_history t' = []
    \<and> topology_gen t' = gen_next (max (topology_gen s) (topology_gen t))"
proof -
  let ?ds = "sort_key dev_id (um_values (devices s))" and ?ls = "sort_key lk_id (um_values (links s))"
  define st' where "st' = st\<lparr>ds_links := map f (ds_links st), ds_saved_at := saved\<rparr>"
  have st: "ds_format_version st' = durable_format" "ds_devices st' = ?ds" "ds_links st' = map f ?ls"
    "ds_topology_generation st' = topology_gen s"
    using cap by (auto simp: st'_def capture_durable_state_def split: prod.splits)
  have fd: "um_find (map (\<lambda>d. (dev_id d, d)) ?ds) = um_find (devices s)"
    and fl: "um_find (map (\<lambda>l. (lk_id l, l)) ?ls) = um_find (links s)"
    using sorted_listing_find wf_invars [OF wf] wf_keyed [OF wf] by auto
  note rd = captured_devices_restore [OF wf gens] and rl = captured_links_restore [OF wf gens fd f]
  show ?thesis
    using run [folded st'_def] unfolding restore_durable_state_def st rd
    by (auto simp: Let_def rl device_def link_def um.find_transform um_find_restored [of lk_id] fd fl
        option.map_comp comp_def max_def less_eq_generation_def split: prod.splits if_splits)
qed

lemma capture_restore:
  assumes wf: "wf_state lms s" and gens: "generations_valid s"
    and cap: "capture_durable_state s w0 = (ok st, w1)"
    and run: "restore_durable_state lms st w t = (r, w', t')"
  shows "r = ok ()
    \<and> (\<forall>i. device t' i = map_option (\<lambda>d. if dev_owner_worker d \<noteq> None \<or> dev_owner_boot d \<noteq> None
          then d\<lparr>dev_health := DH_REVALIDATION_REQUIRED\<rparr> else d) (device s i))
    \<and> (\<forall>i. link t' i = map_option (\<lambda>l. (restored_link l)\<lparr>lk_topology_generation := topology_gen t'\<rparr>)
          (link s i))
    \<and> measurement_history t' = []
    \<and> topology_gen t' = gen_next (max (topology_gen s) (topology_gen t))"
  using capture_restore_upto [OF wf gens _ cap, of id "ds_saved_at st"] run by (simp add: keeps_identity_def)

lemma example_generations: "generations_valid (snd example_state)"
  by (simp add: generations_valid_def example_eval)

text \<open>
  Capturing a well-formed registry whose generations are valid and restoring the result into
  any registry with the same limits succeeds and brings back exactly the same devices and links,
  with nothing dynamic fresh: every link needs revalidation, worker-owned devices do, there are
  no measurements, and the topology generation is past both the captured and the current one.
\<close>

theorem capture_restore_roundtrip:
  assumes wf: "wf_state lms s" and gens: "generations_valid s"
    and cap: "capture_durable_state s w0 = (ok st, w1)"
    and run: "restore_durable_state lms st w t = (r, w', t')"
  shows "r = ok ()
    \<and> (\<forall>i. device t' i = map_option (\<lambda>d. if dev_owner_worker d \<noteq> None \<or> dev_owner_boot d \<noteq> None
          then d\<lparr>dev_health := DH_REVALIDATION_REQUIRED\<rparr> else d) (device s i))
    \<and> (\<forall>i. link t' i = map_option (\<lambda>l. (restored_link l)\<lparr>lk_topology_generation := topology_gen t'\<rparr>)
          (link s i))
    \<and> measurement_history t' = []
    \<and> topology_gen t' = gen_next (max (topology_gen s) (topology_gen t))"
  by (rule capture_restore [OF assms])

theorem capture_restore_roundtrip_witness:
  "\<exists>st w1. capture_durable_state (snd example_state) (fst example_state) = (ok st, w1)
     \<and> fst (restore_durable_state default_limits st w1 initial_state) = ok ()"
proof -
  obtain st w1 where cap: "capture_durable_state (snd example_state) (fst example_state) = (ok st, w1)"
    by (cases "now_timestamp (fst example_state)") (simp add: capture_durable_state_def)
  obtain r w' t' where run: "restore_durable_state default_limits st w1 initial_state = (r, w', t')"
    by (metis prod_cases3)
  show ?thesis
    using capture_restore_roundtrip [OF reachable_wf [OF example_reachable] example_generations cap run]
      cap run by auto
qed

section \<open>Snapshots\<close>

text \<open>
  C7: the snapshot of a well-formed registry lists every device and every link exactly once in
  strictly increasing id order, and does not depend on the iteration order of the hash maps: any
  permutation of their entries gives the same snapshot.
\<close>

theorem build_snapshot_canonical:
  assumes wf: "wf_state lms s"
    and "mset (devices s') = mset (devices s)" "mset (links s') = mset (links s)"
    and "topology_gen s' = topology_gen s"
    and snap: "build_snapshot s w = (snap, w1)"
  shows "build_snapshot s' w = (snap, w1)
    \<and> sorted_wrt (<) (map dev_id (snap_devices snap)) \<and> sorted_wrt (<) (map lk_id (snap_links snap))
    \<and> (\<forall>d. d \<in> set (snap_devices snap) \<longleftrightarrow> device s (dev_id d) = Some d)
    \<and> (\<forall>l. l \<in> set (snap_links snap) \<longleftrightarrow> link s (lk_id l) = Some l)"
proof -
  note inv = wf_invars [OF wf] and key = wf_keyed [OF wf]
  have eq: "sort_key dev_id (um_values (devices s')) = sort_key dev_id (um_values (devices s))"
    "sort_key lk_id (um_values (links s')) = sort_key lk_id (um_values (links s))"
    using sorted_listing_perm [of "devices s" dev_id "devices s'"]
      sorted_listing_perm [of "links s" lk_id "links s'"] inv key assms(2,3) by auto
  have d: "d \<in> set (um_values (devices s)) \<longleftrightarrow> device s (dev_id d) = Some d" for d
    using um.values_find [of "devices s" d] inv wf_device_key [OF wf] by (auto simp: device_def)
  have l: "l \<in> set (um_values (links s)) \<longleftrightarrow> link s (lk_id l) = Some l" for l
    using um.values_find [of "links s" l] inv wf_link_facts [OF wf] by (auto simp: link_def)
  show ?thesis
    using snap assms(4) sorted_listing_strict [of "devices s" dev_id]
      sorted_listing_strict [of "links s" lk_id] inv key d l
    by (auto simp: build_snapshot_def eq split: prod.splits)
qed

theorem build_snapshot_canonical_witness:
  "build_snapshot ((snd example_state)\<lparr>devices := rev (devices (snd example_state))\<rparr>) (fst example_state)
   = build_snapshot (snd example_state) (fst example_state)"
proof -
  obtain snap w1 where snap: "build_snapshot (snd example_state) (fst example_state) = (snap, w1)"
    by fastforce
  show ?thesis
    using build_snapshot_canonical [OF reachable_wf [OF example_reachable] _ _ _ snap,
        of "(snd example_state)\<lparr>devices := rev (devices (snd example_state))\<rparr>"] snap by simp
qed

section \<open>What publishing leaves alone\<close>

lemma all_devices_upsert:
  assumes "upsert_device lms d w s = (r, w', s')" "um.all_entries P (devices s)" "P (dev_id d) d"
  shows "um.all_entries P (devices s') \<and> measurement_history s' = measurement_history s"
  using assms
  by (auto simp: upsert_device_def commit_device_def advance_from_def stamp_links_def record_observation_def
      split: if_splits option.splits prod.splits intro!: um.all_entries_emplace um.all_entries_assign)

lemma upsert_link_keeps:
  assumes "upsert_link lms l w s = (r, w', s')"
  shows "devices s' = devices s \<and> measurement_history s' = measurement_history s"
  using assms
  by (auto simp: upsert_link_def commit_link_def advance_from_def stamp_links_def record_observation_def
      split: if_splits option.splits prod.splits)

end
