(* ===== verification/Paths.thy ===== *)
theory Paths
  imports Registry "HOL-Library.Product_Lexorder"
begin

text \<open>
  Path enumeration and path quality (\<open>src/core/path.cpp\<close>, first half): the adjacency map, the
  bounded depth-first search, the path identifier and \<open>compute_quality\<close>. A C++ \<open>size_t\<close>
  counter over vector elements is a \<open>nat\<close>; the \<open>uint32_t\<close> counters of
  \<open>PathQuality\<close> are words.
\<close>

section \<open>Adjacency\<close>

record edge =
  e_link :: link_id
  e_to :: device_id

type_synonym adjacency = "device_id \<rightharpoonup> edge list"

definition find_link :: "topology_snapshot \<Rightarrow> link_id \<Rightarrow> link_record option" where
  "find_link topo i = find (\<lambda>lk. lk_id lk = i) (snap_links topo)"

definition find_device :: "topology_snapshot \<Rightarrow> device_id \<Rightarrow> device_record option" where
  "find_device topo i = find (\<lambda>d. dev_id d = i) (snap_devices topo)"

definition push_edge :: "device_id \<Rightarrow> edge \<Rightarrow> adjacency \<Rightarrow> adjacency" where
  \<comment> \<open>\<open>adj[d].push_back(e)\<close>: \<open>operator[]\<close> default-constructs a missing vector\<close>
  "push_edge d e adj =
     adj(d \<mapsto> (case adj d of None \<Rightarrow> [] | Some es \<Rightarrow> es) @ [e])"

definition add_link_edges :: "link_record \<Rightarrow> adjacency \<Rightarrow> adjacency" where
  "add_link_edges lk adj =
     (let adj = push_edge (lk_source lk) \<lparr>e_link = lk_id lk, e_to = lk_target lk\<rparr> adj
      in if \<not> lk_directed lk
         then push_edge (lk_target lk) \<lparr>e_link = lk_id lk, e_to = lk_source lk\<rparr> adj
         else adj)"

definition build_adjacency :: "topology_snapshot \<Rightarrow> adjacency" where
  \<comment> \<open>edges that compare equal under the sort's comparison are equal, so the order that
     \<open>std::sort\<close> produces is determined\<close>
  "build_adjacency topo =
     (let adj = fold add_link_edges (snap_links topo) Map.empty
      in (\<lambda>d. map_option (sort_key (\<lambda>e. (e_link e, e_to e))) (adj d)))"

section \<open>Path identifiers\<close>

fun fnv_mix_bytes :: "nat \<Rightarrow> u64 \<Rightarrow> u64 \<Rightarrow> u64" where
  \<comment> \<open>the byte loop of the lambda \<open>mix\<close>: rounds left, \<open>v\<close>, \<open>h\<close>\<close>
  "fnv_mix_bytes 0 v h = h"
| "fnv_mix_bytes (Suc n) v h =
     fnv_mix_bytes n (drop_bit 8 v) ((h XOR (v AND 0xff)) * 1099511628211)"

definition fnv_mix :: "u64 \<Rightarrow> u64 \<Rightarrow> u64" where
  "fnv_mix v h = fnv_mix_bytes 8 v h"

fun mix_links :: "path_element list \<Rightarrow> u64 \<Rightarrow> u64" where
  "mix_links [] h = h"
| "mix_links (LINK l # es) h = mix_links es (fnv_mix (id_value l) h)"
| "mix_links (DEVICE d # es) h = mix_links es h"

definition path_id :: "device_id \<Rightarrow> device_id \<Rightarrow> path_element list \<Rightarrow> u64" where
  "path_id src tgt elems =
     mix_links elems (fnv_mix (id_value tgt) (fnv_mix (id_value src) 1469598103934665603))"

section \<open>Depth-first search\<close>

fun path_links :: "path_element list \<Rightarrow> link_id list" where
  "path_links [] = []"
| "path_links (LINK l # es) = l # path_links es"
| "path_links (DEVICE d # es) = path_links es"

fun path_devices :: "path_element list \<Rightarrow> device_id list" where
  "path_devices [] = []"
| "path_devices (DEVICE d # es) = d # path_devices es"
| "path_devices (LINK l # es) = path_devices es"

definition is_nvlink :: "topology_snapshot \<Rightarrow> link_id \<Rightarrow> bool" where
  "is_nvlink topo i \<longleftrightarrow>
     (case find_link topo i of None \<Rightarrow> False | Some l \<Rightarrow> lk_technology l = IT_NVLINK)"

definition make_path ::
  "topology_snapshot \<Rightarrow> device_id \<Rightarrow> device_id \<Rightarrow> path_element list \<Rightarrow> path" where
  \<comment> \<open>the \<open>Path\<close> that \<open>dfs\<close> appends when it reaches the target\<close>
  "make_path topo src tgt elems =
     \<lparr>p_id = Ident (path_id src tgt elems), p_source = src, p_target = tgt,
      p_direct = (length elems div 2 = 1), p_switch_traversal = False, p_elements = elems,
      p_hop_count = length elems div 2,
      p_nvlink_segments = length (filter (is_nvlink topo) (path_links elems))\<rparr>"

function (sequential) dfs ::
  "adjacency \<Rightarrow> topology_snapshot \<Rightarrow> device_id \<Rightarrow> device_id \<Rightarrow> limits \<Rightarrow> device_id \<Rightarrow>
   path_element list \<Rightarrow> device_id set \<Rightarrow> path list \<Rightarrow> path list"
and dfs_edges ::
  "adjacency \<Rightarrow> topology_snapshot \<Rightarrow> device_id \<Rightarrow> device_id \<Rightarrow> limits \<Rightarrow> edge list \<Rightarrow>
   path_element list \<Rightarrow> device_id set \<Rightarrow> path list \<Rightarrow> path list" where
  \<comment> \<open>\<open>dfs\<close> is the entry of the function, \<open>dfs_edges\<close> its loop over the edges that are
     left. \<open>elems\<close> and \<open>visited\<close> are restored before each iteration ends (two
     \<open>pop_back\<close>s, and the \<open>erase\<close> of an element that was not in the set before), so they
     are passed by value.\<close>
  "dfs adj topo src target lms cur elems visited out =
     (if length out \<ge> max_candidate_paths lms then out
      else case adj cur of
        None \<Rightarrow> out
      | Some es \<Rightarrow> dfs_edges adj topo src target lms es elems visited out)"
| "dfs_edges adj topo src target lms [] elems visited out = out"
| "dfs_edges adj topo src target lms (e # es) elems visited out =
     (if e_to e \<in> visited then dfs_edges adj topo src target lms es elems visited out
      else if length out \<ge> max_candidate_paths lms then out
      else let elems' = elems @ [LINK (e_link e), DEVICE (e_to e)]
      in if e_to e = target
      then dfs_edges adj topo src target lms es elems visited
             (out @ [make_path topo src target elems'])
      else if length elems' div 2 < max_path_depth lms
      then dfs_edges adj topo src target lms es elems visited
             (dfs adj topo src target lms (e_to e) elems' (insert (e_to e) visited) out)
      else dfs_edges adj topo src target lms es elems visited out)"
  by pat_completeness auto

termination
  by (relation "measures
      [case_sum (\<lambda>(adj, topo, src, tgt, lms, cur, elems, vis, out).
                   max_path_depth (lms :: limits) - length (elems :: path_element list) div 2)
                (\<lambda>(adj, topo, src, tgt, lms, es, elems, vis, out).
                   max_path_depth (lms :: limits) - length (elems :: path_element list) div 2),
       case_sum (\<lambda>_. 1) (\<lambda>_. 0),
       case_sum (\<lambda>_. 0) (\<lambda>(adj, topo, src, tgt, lms, es, elems, vis, out). length es)]") auto

definition traverses_switch :: "topology_snapshot \<Rightarrow> path_element list \<Rightarrow> bool" where
  "traverses_switch topo elems \<longleftrightarrow>
     list_ex (\<lambda>d. case find_device topo d of None \<Rightarrow> False | Some r \<Rightarrow> dev_kind r = NK_SWITCH)
       (path_devices elems)"

definition enumerate_paths_impl ::
  "topology_snapshot \<Rightarrow> device_id \<Rightarrow> device_id \<Rightarrow> limits \<Rightarrow> path list" where
  "enumerate_paths_impl topo src tgt lms =
     (if is_nil src \<or> is_nil tgt \<or> src = tgt then []
      else let out = dfs (build_adjacency topo) topo src tgt lms src [DEVICE src] {src} []
           in map (\<lambda>p. p\<lparr>p_switch_traversal := traverses_switch topo (p_elements p)\<rparr>) out)"

definition enumerate_paths ::
  "limits \<Rightarrow> state \<Rightarrow> device_id \<Rightarrow> device_id \<Rightarrow> world \<Rightarrow> path list result \<times> world" where
  "enumerate_paths lms s source target w =
     (if is_nil source \<or> is_nil target
      then (fail EC_INVALID_ARGUMENT ''endpoint id required'', w)
      else let (view, w) = Registry.consistent_view s w
      in if find_device (view_topology view) source = None
      then (fail EC_NOT_FOUND ''source device unknown'', w)
      else if find_device (view_topology view) target = None
      then (fail EC_NOT_FOUND ''target device unknown'', w)
      else (ok (enumerate_paths_impl (view_topology view) source target lms), w))"

section \<open>Path quality\<close>

definition is_supported_state :: "link_operational_state \<Rightarrow> bool" where
  "is_supported_state s \<longleftrightarrow> s = LS_UP \<or> s = LS_PRESENT \<or> s = LS_SUPPORTED \<or> s = LS_DEGRADED"

record quality_scan =
  \<comment> \<open>the local variables of \<open>compute_quality\<close> and the counters of its result\<close>
  qs_nominal :: u64
  qs_have_nominal :: bool
  qs_any_down :: bool
  qs_any_unsupported :: bool
  qs_any_reval :: bool
  qs_any_degraded :: bool
  qs_any_up :: bool
  qs_any_synth :: bool
  qs_any_unsup_ev :: bool
  qs_any_unknown :: bool
  qs_has_capability :: bool
  qs_nvlink_segments :: nat
  qs_active_links :: u32
  qs_degraded_links :: u32
  qs_down_links :: u32

definition initial_scan :: "nat \<Rightarrow> quality_scan" where
  "initial_scan nv =
     \<lparr>qs_nominal = 0, qs_have_nominal = False, qs_any_down = False, qs_any_unsupported = False,
      qs_any_reval = False, qs_any_degraded = False, qs_any_up = False, qs_any_synth = False,
      qs_any_unsup_ev = False, qs_any_unknown = False, qs_has_capability = False,
      qs_nvlink_segments = nv, qs_active_links = 0, qs_degraded_links = 0, qs_down_links = 0\<rparr>"

definition count_if :: "bool \<Rightarrow> 'n::semiring_1 \<Rightarrow> 'n" where
  \<comment> \<open>\<open>if (c) ++n\<close>\<close>
  "count_if c n = (if c then n + 1 else n)"

definition scan_states :: "link_record \<Rightarrow> quality_scan \<Rightarrow> quality_scan" where
  \<comment> \<open>the conditionals of the loop body on technology and operational state; no two of them
     touch the same variable, so they are one simultaneous update\<close>
  "scan_states l q =
     (let active = (lk_state l = LS_UP \<or> lk_state l = LS_PRESENT \<or> lk_state l = LS_SUPPORTED);
          degraded = (lk_degraded l \<or> lk_state l = LS_DEGRADED);
          down = (lk_state l = LS_DOWN \<or> lk_state l = LS_ABSENT \<or> lk_state l = LS_UNREACHABLE)
      in q\<lparr>qs_nvlink_segments := count_if (lk_technology l = IT_NVLINK) (qs_nvlink_segments q),
           qs_active_links := count_if active (qs_active_links q),
           qs_any_up := (qs_any_up q \<or> active),
           qs_any_unknown := (qs_any_unknown q \<or> lk_state l = LS_UNKNOWN),
           qs_degraded_links := count_if degraded (qs_degraded_links q),
           qs_any_degraded := (qs_any_degraded q \<or> degraded),
           qs_down_links := count_if down (qs_down_links q),
           qs_any_down := (qs_any_down q \<or> down),
           qs_any_unsupported := (qs_any_unsupported q \<or> lk_state l = LS_UNSUPPORTED),
           qs_any_reval := (qs_any_reval q \<or>
             lk_state l = LS_REVALIDATION_REQUIRED \<or> lk_state l = LS_STALE)\<rparr>)"

definition scan_capability :: "link_record \<Rightarrow> quality_scan \<Rightarrow> quality_scan" where
  \<comment> \<open>the rest of the loop body: nominal bandwidth, capability and evidence\<close>
  "scan_capability l q =
     (let bw = cap_nominal_bandwidth_bps (lk_capability l)
      in q\<lparr>qs_nominal :=
             (if bw > 0 then (if qs_nominal q = 0 then bw else min (qs_nominal q) bw)
              else qs_nominal q),
           qs_have_nominal := True,
           qs_has_capability := (qs_has_capability q \<or> bw > 0 \<or>
             cap_interconnect (lk_capability l) \<noteq> IT_UNKNOWN),
           qs_any_synth := (qs_any_synth q \<or> ev_class (lk_evidence l) = EV_SYNTHETIC),
           qs_any_unsup_ev := (qs_any_unsup_ev q \<or> ev_class (lk_evidence l) = EV_UNSUPPORTED)\<rparr>)"

definition scan_link :: "topology_snapshot \<Rightarrow> link_id \<Rightarrow> quality_scan \<Rightarrow> quality_scan" where
  "scan_link topo i q =
     (case find_link topo i of
        None \<Rightarrow> q\<lparr>qs_down_links := qs_down_links q + 1, qs_any_down := True\<rparr>
      | Some l \<Rightarrow> scan_capability l (scan_states l q))"

definition better_measurement ::
  "path \<Rightarrow> measurement_record \<Rightarrow> measurement_record option \<Rightarrow> measurement_record option" where
  "better_measurement p m best =
     (if \<not> m_valid m \<or> m_stale m then best
      else if m_source m = p_source p \<and> m_target m = p_target p
      then (case best of
              None \<Rightarrow> Some m
            | Some b \<Rightarrow> if sint (unix_ns (m_measured_at m)) > sint (unix_ns (m_measured_at b)) then Some m else best)
      else best)"

definition best_measurement :: "measurement_record list \<Rightarrow> path \<Rightarrow> measurement_record option" where
  "best_measurement ms p = fold (better_measurement p) ms None"

definition quality_outcome :: "quality_scan \<Rightarrow> nat \<Rightarrow> bool \<Rightarrow> path_quality_outcome" where
  "quality_outcome q hops contended =
     (if qs_any_down q \<or> hops = 0 then PQ_LINK_DOWN
      else if qs_any_unsupported q then PQ_UNSUPPORTED
      else if qs_any_reval q then PQ_REVALIDATION_REQUIRED
      else if contended then PQ_CONTENDED
      else if qs_any_degraded q then PQ_DEGRADED
      else if qs_any_unknown q \<or> \<not> qs_has_capability q then PQ_INSUFFICIENT_EVIDENCE
      else PQ_HEALTHY)"

definition compute_quality ::
  "topology_snapshot \<Rightarrow> measurement_record list \<Rightarrow> path \<Rightarrow> path_quality" where
  "compute_quality topo ms p =
     (let q = fold (scan_link topo) (path_links (p_elements p)) (initial_scan (p_nvlink_segments p));
          best = best_measurement ms p;
          contended = (case best of None \<Rightarrow> False | Some b \<Rightarrow> m_contended b);
          unsup = (qs_any_unsup_ev q \<or>
                   (case best of None \<Rightarrow> False | Some b \<Rightarrow> ev_class (m_evidence b) = EV_UNSUPPORTED));
          synth = (qs_any_synth q \<or>
                   (case best of None \<Rightarrow> False | Some b \<Rightarrow> ev_class (m_evidence b) = EV_SYNTHETIC))
      in \<lparr>q_path = p_id p, q_source = p_source p, q_target = p_target p,
          q_hop_count = p_hop_count p, q_nvlink_segments = qs_nvlink_segments q,
          q_switch_traversal = p_switch_traversal p, q_direct = p_direct p,
          q_nominal_bandwidth_bps =
            (if qs_have_nominal q \<and> qs_nominal q > 0 then qs_nominal q else 0),
          q_measured_bandwidth_bps = map_option m_bandwidth_bps best,
          q_measured_latency_seconds = map_option m_latency_seconds best,
          q_measurement_timestamp =
            (case best of None \<Rightarrow> default_timestamp | Some b \<Rightarrow> m_measured_at b),
          q_active_links = qs_active_links q, q_degraded_links = qs_degraded_links q,
          q_down_links = qs_down_links q,
          q_evidence_sufficient = (qs_any_up q \<and> (qs_has_capability q \<or> best \<noteq> None)),
          q_stale = (qs_any_reval q \<or> (case best of None \<Rightarrow> False | Some b \<Rightarrow> m_stale b)),
          q_contended = contended,
          q_outcome = quality_outcome q (p_hop_count p) contended,
          q_evidence = Evidence
            (if unsup then EV_UNSUPPORTED else if synth then EV_SYNTHETIC else EV_REAL)
            PROV_NONE ''path'' ''aggregate of traversed link evidence'',
          q_topology_generation = snap_generation topo,
          q_source_generation =
            (case find_device topo (p_source p) of None \<Rightarrow> Generation 0 | Some d \<Rightarrow> dev_generation d),
          q_target_generation =
            (case find_device topo (p_target p) of None \<Rightarrow> Generation 0 | Some d \<Rightarrow> dev_generation d),
          q_explanation = []\<rparr>)"

definition compute_path_quality ::
  "state \<Rightarrow> path \<Rightarrow> world \<Rightarrow> path_quality result \<times> world" where
  "compute_path_quality s p w =
     (let (view, w) = Registry.consistent_view s w
      in if find_device (view_topology view) (p_source p) = None \<or>
            find_device (view_topology view) (p_target p) = None
         then (fail EC_NOT_FOUND ''path endpoint unknown'', w)
         else (ok (compute_quality (view_topology view) (view_measurements view) p), w))"

fun latest_device_observation :: "observation list \<Rightarrow> device_id \<Rightarrow> observation_id option" where
  \<comment> \<open>the reverse scan with \<open>break\<close>; the argument is the reversed deque\<close>
  "latest_device_observation [] d = None"
| "latest_device_observation (ob # obs) d =
     (if obs_source ob = d \<and> obs_kind ob = ''device'' then Some (obs_id ob)
      else latest_device_observation obs d)"

definition collect_evidence :: "observation list \<Rightarrow> path \<Rightarrow> observation_id list" where
  "collect_evidence obs p =
     List.map_filter (latest_device_observation (rev obs)) (path_devices (p_elements p))"

end
