(* ===== verification/Policy.thy ===== *)
theory Policy
  imports Paths
begin

text \<open>
  Route policies (\<open>policy.hpp\<close>, \<open>src/core/policy.cpp\<close>): the default policy, the value of
  each ranking factor and the weighted score, in binary64 arithmetic. The main result is that
  the score of a policy with small natural weights stays between zero and the sum of the weights
  for every quality whose measured values are finite and whose latency is not negative; without
  that hypothesis a factor can be NaN or infinite. A hop count is the length of a list in memory, so
  \<open>hop_count + 1\<close> does not wrap and is written over \<open>nat\<close>.
\<close>

section \<open>Definitions\<close>

record factor_context =
  max_nominal_bps :: f64
  max_measured_bps :: f64

fun route_factor_key_name :: "route_factor_key \<Rightarrow> string" where
  "route_factor_key_name RF_DIRECTNESS = ''DIRECTNESS''"
| "route_factor_key_name RF_HOP_COUNT = ''HOP_COUNT''"
| "route_factor_key_name RF_MEASURED_BANDWIDTH = ''MEASURED_BANDWIDTH''"
| "route_factor_key_name RF_NOMINAL_BANDWIDTH = ''NOMINAL_BANDWIDTH''"
| "route_factor_key_name RF_MEASURED_LATENCY = ''MEASURED_LATENCY''"
| "route_factor_key_name RF_DEGRADATION = ''DEGRADATION''"
| "route_factor_key_name RF_CONTENTION = ''CONTENTION''"
| "route_factor_key_name RF_FRESHNESS = ''FRESHNESS''"
| "route_factor_key_name RF_CONFIDENCE = ''CONFIDENCE''"
| "route_factor_key_name RF_POLICY_PREFERENCE = ''POLICY_PREFERENCE''"

definition default_policy :: route_policy where
  "default_policy =
     \<lparr>pol_id = Ident 0, pol_name = ''default'', pol_hard = default_hard_constraint,
      pol_ranking =
        [\<lparr>rf_key = RF_DIRECTNESS, rf_weight = F64 3\<rparr>, \<lparr>rf_key = RF_HOP_COUNT, rf_weight = F64 2\<rparr>,
         \<lparr>rf_key = RF_MEASURED_BANDWIDTH, rf_weight = F64 4\<rparr>,
         \<lparr>rf_key = RF_MEASURED_LATENCY, rf_weight = F64 1\<rparr>,
         \<lparr>rf_key = RF_DEGRADATION, rf_weight = F64 5\<rparr>, \<lparr>rf_key = RF_FRESHNESS, rf_weight = F64 1\<rparr>,
         \<lparr>rf_key = RF_CONFIDENCE, rf_weight = F64 1\<rparr>]\<rparr>"

definition clamp01 :: "f64 \<Rightarrow> f64" where
  "clamp01 v = (if f64_lt v (F64 0) then F64 0 else if f64_lt (F64 1) v then F64 1 else v)"

definition confidence_value :: "evidence \<Rightarrow> f64" where
  "confidence_value ev =
     (case ev_class ev of EV_REAL \<Rightarrow> F64 1 | EV_SYNTHETIC \<Rightarrow> F64 (1 / 2) | EV_UNSUPPORTED \<Rightarrow> F64 0
      | EV_RAW _ \<Rightarrow> F64 0)"

fun route_factor_value :: "route_factor_key \<Rightarrow> path_quality \<Rightarrow> factor_context \<Rightarrow> f64" where
  "route_factor_value RF_DIRECTNESS q ctx = (if q_direct q then F64 1 else F64 0)"
| "route_factor_value RF_HOP_COUNT q ctx = f64_div (F64 1) (f64_of_nat (q_hop_count q + 1))"
| "route_factor_value RF_MEASURED_BANDWIDTH q ctx =
     (case q_measured_bandwidth_bps q of
        None \<Rightarrow> F64 0
      | Some bw \<Rightarrow> if f64_le (max_measured_bps ctx) (F64 0) then F64 0
                   else clamp01 (f64_div bw (max_measured_bps ctx)))"
| "route_factor_value RF_NOMINAL_BANDWIDTH q ctx =
     (if f64_le (max_nominal_bps ctx) (F64 0) then F64 0
      else clamp01 (f64_div (f64_of_u64 (q_nominal_bandwidth_bps q)) (max_nominal_bps ctx)))"
| "route_factor_value RF_MEASURED_LATENCY q ctx =
     (case q_measured_latency_seconds q of
        None \<Rightarrow> F64 0
      | Some l \<Rightarrow> f64_div (F64 1) (f64_add (F64 1) l))"
| "route_factor_value RF_DEGRADATION q ctx = (if q_degraded_links q = 0 then F64 1 else F64 0)"
| "route_factor_value RF_CONTENTION q ctx = (if q_outcome q = PQ_CONTENDED then F64 0 else F64 1)"
| "route_factor_value RF_FRESHNESS q ctx = (if q_stale q then F64 0 else F64 1)"
| "route_factor_value RF_CONFIDENCE q ctx = confidence_value (q_evidence q)"
| "route_factor_value RF_POLICY_PREFERENCE q ctx = F64 (1 / 2)"

definition score_step :: "path_quality \<Rightarrow> factor_context \<Rightarrow> route_factor \<Rightarrow> f64 \<Rightarrow> f64" where
  "score_step q ctx fac score =
     f64_add score (f64_mul (rf_weight fac) (route_factor_value (rf_key fac) q ctx))"

definition score_path :: "route_policy \<Rightarrow> path_quality \<Rightarrow> factor_context \<Rightarrow> f64" where
  "score_path policy q ctx = fold (score_step q ctx) (pol_ranking policy) (F64 0)"

section \<open>Bounds\<close>

lemma f64_add_nan [simp]: "f64_add x F64_NaN = F64_NaN" "f64_mul x F64_NaN = F64_NaN"
  "f64_div x F64_NaN = F64_NaN"
  by (cases x; simp)+

definition f64_within :: "rat \<Rightarrow> rat \<Rightarrow> f64 \<Rightarrow> bool" where
  "f64_within lo hi x \<longleftrightarrow> (case x of F64 r \<Rightarrow> lo \<le> r \<and> r \<le> hi | _ \<Rightarrow> False)"

lemma f64_withinE:
  assumes "f64_within lo hi x" obtains r where "x = F64 r" "lo \<le> r" "r \<le> hi"
  using assms by (cases x) (auto simp: f64_within_def)

lemma f64_within_simp [simp]: "f64_within lo hi (F64 r) \<longleftrightarrow> lo \<le> r \<and> r \<le> hi"
  by (simp add: f64_within_def)

lemma f64_round_within:
  "0 \<le> x \<Longrightarrow> x \<le> of_nat n \<Longrightarrow> n < 2 ^ 53 \<Longrightarrow> f64_within 0 (of_nat n) (f64_round x)"
  using f64_round_between [of x n] by auto

lemma clamp01_within: "v \<noteq> F64_NaN \<Longrightarrow> f64_within 0 1 (clamp01 v)"
  by (cases v) (auto simp: clamp01_def)

lemma f64_div_not_nan:
  "m \<noteq> F64_NaN \<Longrightarrow> \<not> f64_le m (F64 0) \<Longrightarrow> f64_div (F64 b) m \<noteq> F64_NaN"
  by (cases m) (auto simp: f64_le_def f64_eq_def f64_round_alt)

lemma f64_reciprocal_within:
  assumes "1 \<le> r"
  shows "f64_within 0 1 (f64_div (F64 1) (F64 r))"
  using f64_round_within [of "1 / r" 1] assms by simp

lemma f64_round_ge_1:
  assumes "1 \<le> x" shows "f64_round x = F64_PInf \<or> (\<exists>r. f64_round x = F64 r \<and> 1 \<le> r)"
proof -
  have "1 \<le> f64_round_fin x"
    using f64_round_fin_mono_nonneg [of 1 x] f64_round_fin_of_int [of 1] assms by simp
  then show ?thesis by (auto simp: f64_round_alt)
qed

lemma f64_reciprocal_round_within:
  "1 \<le> x \<Longrightarrow> f64_within 0 1 (f64_div (F64 1) (f64_round x))"
  using f64_round_ge_1 [of x] f64_reciprocal_within by auto

definition measured_values_sane :: "path_quality \<Rightarrow> bool" where
  \<comment> \<open>a measured bandwidth is finite, a measured latency is finite and not negative\<close>
  "measured_values_sane q \<longleftrightarrow>
     (case q_measured_bandwidth_bps q of Some (F64 b) \<Rightarrow> True | Some _ \<Rightarrow> False | None \<Rightarrow> True) \<and>
     (case q_measured_latency_seconds q of Some (F64 l) \<Rightarrow> 0 \<le> l | Some _ \<Rightarrow> False | None \<Rightarrow> True)"

definition context_sane :: "factor_context \<Rightarrow> bool" where
  "context_sane ctx \<longleftrightarrow> max_nominal_bps ctx \<noteq> F64_NaN \<and> max_measured_bps ctx \<noteq> F64_NaN"

lemma f64_of_u64_finite: "\<exists>r. f64_of_u64 x = F64 r"
proof -
  have "(of_nat (unat x) :: rat) \<le> of_nat (2 ^ 64)"
    using unsigned_less [of x, where 'a = nat] by (simp only: of_nat_le_iff) simp
  then have "f64_round_fin (of_nat (unat x)) \<le> f64_round_fin (of_nat (2 ^ 64))"
    by (rule f64_round_fin_mono_nonneg [OF of_nat_0_le_iff])
  also have "f64_round_fin (of_nat (2 ^ 64)) = 2 ^ 64"
    using f64_round_exact [of 1 64] by (simp add: f64_round_alt power_int_def split: if_splits)
  also have "(2 :: rat) ^ 64 < 2 ^ 1024" by simp
  finally show ?thesis
    using f64_round_fin_nonneg [OF of_nat_0_le_iff, of "unat x"]
    by (auto simp: f64_of_u64_def f64_of_nat_def f64_round_alt)
qed

lemma route_factor_within:
  assumes "measured_values_sane q" "context_sane ctx"
  shows "f64_within 0 1 (route_factor_value key q ctx)"
proof (cases key)
  case RF_HOP_COUNT
  then show ?thesis by (simp add: f64_of_nat_def f64_reciprocal_round_within)
next
  case RF_MEASURED_BANDWIDTH
  then show ?thesis
    using assms by (auto simp: measured_values_sane_def context_sane_def
        f64_div_not_nan intro!: clamp01_within split: option.splits f64.splits)
next
  case RF_NOMINAL_BANDWIDTH
  obtain r where "f64_of_u64 (q_nominal_bandwidth_bps q) = F64 r" using f64_of_u64_finite by blast
  then show ?thesis
    using assms RF_NOMINAL_BANDWIDTH
    by (auto simp: context_sane_def f64_div_not_nan intro!: clamp01_within)
next
  case RF_MEASURED_LATENCY
  then show ?thesis
    using assms by (auto simp: measured_values_sane_def
        intro!: f64_reciprocal_round_within split: option.splits f64.splits)
next
  case RF_CONFIDENCE
  then show ?thesis by (auto simp: confidence_value_def split: evidence_class.split)
qed auto

lemma score_fold_within:
  assumes "measured_values_sane q" "context_sane ctx"
    and "map rf_weight fs = map (\<lambda>n. F64 (of_nat n)) ns" and "k + sum_list ns < 2 ^ 53"
    and "f64_within 0 (of_nat k) acc"
  shows "f64_within 0 (of_nat (k + sum_list ns)) (fold (score_step q ctx) fs acc)"
  using assms(3-)
proof (induction fs arbitrary: ns k acc)
  case (Cons fac fs)
  then obtain n ms where ns: "ns = n # ms" and w: "rf_weight fac = F64 (of_nat n)"
    "map rf_weight fs = map (\<lambda>n. F64 (of_nat n)) ms" by (auto simp: Cons_eq_map_conv)
  obtain v where v: "route_factor_value (rf_key fac) q ctx = F64 v" "0 \<le> v" "v \<le> 1"
    using route_factor_within [OF assms(1,2)] f64_withinE by metis
  have "(of_nat n :: rat) * v \<le> of_nat n" using v by (intro mult_left_le) auto
  then obtain t where t: "f64_mul (rf_weight fac) (route_factor_value (rf_key fac) q ctx) = F64 t"
    "0 \<le> t" "t \<le> of_nat n"
    using f64_round_between [of "of_nat n * v" n] v w ns Cons.prems(2) by auto
  obtain a where a: "acc = F64 a" "0 \<le> a" "a \<le> of_nat k" using Cons.prems(3) by (rule f64_withinE)
  have "f64_within 0 (of_nat (k + n)) (score_step q ctx fac acc)"
    using f64_round_within [of "a + t" "k + n"] a t ns Cons.prems(2) by (simp add: score_step_def)
  then show ?case
    using Cons.IH [OF w(2), of "k + n"] Cons.prems(2) by (simp add: ns add.assoc)
qed simp

text \<open>
  C12: when the measured bandwidth of a path, if there is one, is finite, its measured latency, if there is
  one, is finite and not negative, and neither maximum of the context is NaN, the score of the path under the
  default policy is a number between 0 and 17, the sum of the weights: no rounding takes it out of
  that range and it is neither NaN nor infinite.
\<close>

theorem default_score_bounds:
  assumes "measured_values_sane q" "context_sane ctx"
  shows "f64_within 0 17 (score_path default_policy q ctx)"
  using score_fold_within [OF assms, of "pol_ranking default_policy" "[3, 2, 4, 1, 5, 1, 1]" 0 "F64 0"]
  by (simp add: score_path_def default_policy_def)

definition example_quality :: path_quality where
  "example_quality = compute_quality
     \<lparr>snap_generation = Generation 1, snap_id = Ident 1, snap_devices = [], snap_links = [],
      snap_created_at = default_timestamp\<rparr>
     [default_measurement\<lparr>m_source := Ident 1, m_target := Ident 2, m_valid := True,
        m_bandwidth_bps := F64 1000, m_latency_seconds := F64 (1 / 4)\<rparr>]
     (make_path \<lparr>snap_generation = Generation 1, snap_id = Ident 1, snap_devices = [],
        snap_links = [], snap_created_at = default_timestamp\<rparr> (Ident 1) (Ident 2)
        [DEVICE (Ident 1), LINK (Ident 7), DEVICE (Ident 2)])"

theorem default_score_bounds_witness:
  "f64_within 0 17 (score_path default_policy example_quality
     \<lparr>max_nominal_bps = F64 1, max_measured_bps = F64 2000\<rparr>)
   \<and> q_measured_latency_seconds example_quality = Some (F64 (1 / 4))"
proof -
  have m: "q_measured_bandwidth_bps example_quality = Some (F64 1000)"
    "q_measured_latency_seconds example_quality = Some (F64 (1 / 4))"
    by (simp_all add: example_quality_def compute_quality_def Let_def best_measurement_def
        better_measurement_def default_measurement_def make_path_def)
  then have "measured_values_sane example_quality" by (simp add: measured_values_sane_def)
  then show ?thesis
    using default_score_bounds [of example_quality "\<lparr>max_nominal_bps = F64 1, max_measured_bps = F64 2000\<rparr>"] m
    by (simp add: context_sane_def)
qed

text \<open>
  Nothing keeps a negative latency out: a latency of minus one second divides by zero.
\<close>

lemma negative_latency_infinite:
  "q_measured_latency_seconds q = Some (F64 (- 1)) \<Longrightarrow> route_factor_value RF_MEASURED_LATENCY q ctx = F64_PInf"
  by (simp add: f64_round_def f64_inf_def)

text \<open>
  Nothing keeps a NaN measurement out: a valid, non-stale measurement whose bandwidth is NaN
  makes the score of its path under the default policy NaN, whatever the rest of its quality.
\<close>

theorem default_score_nan:
  assumes "q_measured_bandwidth_bps q = Some F64_NaN" and "\<not> f64_le (max_measured_bps ctx) (F64 0)"
  shows "score_path default_policy q ctx = F64_NaN"
  using assms by (simp add: score_path_def default_policy_def score_step_def clamp01_def f64_add_nan)

theorem default_score_nan_witness:
  "score_path default_policy (example_quality\<lparr>q_measured_bandwidth_bps := Some F64_NaN\<rparr>)
     \<lparr>max_nominal_bps = F64 1, max_measured_bps = F64 1\<rparr> = F64_NaN"
  by (rule default_score_nan) (simp_all add: f64_le_def f64_eq_def)

end
