(* ===== verification/Route.thy ===== *)
theory Route
  imports Policy
begin

text \<open>
  Route decisions (\<open>src/core/path.cpp\<close>, second half): the hard constraints in the order the
  code applies them, scoring and ranking of the eligible candidates, the decision, its currency
  check and revalidation. \<open>decide_route\<close> reads the registry twice without holding the lock
  in between, so it takes two states: the one behind the consistent view and the one whose
  observations are cited as evidence.
\<close>

section \<open>Hard constraints\<close>

type_synonym rejection = "route_rejection_reason \<times> string"

definition unsupported_reason :: "link_operational_state \<Rightarrow> route_rejection_reason" where
  "unsupported_reason st =
     (if st = LS_DOWN \<or> st = LS_ABSENT \<or> st = LS_UNREACHABLE then RR_LINK_DOWN
      else if st = LS_UNSUPPORTED then RR_LINK_UNSUPPORTED
      else if st = LS_STALE then RR_LINK_STALE_GENERATION
      else if st = LS_REVALIDATION_REQUIRED then RR_FRESHNESS_VIOLATION
      else RR_LINK_DOWN)"

fun check_links_supported :: "topology_snapshot \<Rightarrow> link_id list \<Rightarrow> rejection option" where
  "check_links_supported topo [] = None"
| "check_links_supported topo (i # is) =
     (case find_link topo i of
        None \<Rightarrow> Some (RR_LINK_DOWN, ''link missing'')
      | Some l \<Rightarrow>
          if \<not> is_supported_state (lk_state l)
          then Some (unsupported_reason (lk_state l), link_state_name (lk_state l))
          else check_links_supported topo is)"

fun check_technology ::
  "topology_snapshot \<Rightarrow> interconnect_technology \<Rightarrow> link_id list \<Rightarrow> rejection option" where
  "check_technology topo t [] = None"
| "check_technology topo t (i # is) =
     (case find_link topo i of
        None \<Rightarrow> Some (RR_TECHNOLOGY_EXCLUDED, ''technology mismatch'')
      | Some l \<Rightarrow>
          if lk_technology l \<noteq> t then Some (RR_TECHNOLOGY_EXCLUDED, ''technology mismatch'')
          else check_technology topo t is)"

definition check_supported :: "hard_constraint \<Rightarrow> topology_snapshot \<Rightarrow> path \<Rightarrow> rejection option" where
  "check_supported hc topo p =
     (if hc_require_supported_links hc
      then check_links_supported topo (path_links (p_elements p)) else None)"

definition check_fresh :: "hard_constraint \<Rightarrow> path_quality \<Rightarrow> rejection option" where
  "check_fresh hc q =
     (if hc_require_fresh hc
      then (if q_outcome q = PQ_REVALIDATION_REQUIRED
            then Some (RR_FRESHNESS_VIOLATION, ''revalidation required'')
            else if q_stale q then Some (RR_FRESHNESS_VIOLATION, ''stale evidence'') else None)
      else None)"

definition check_direct :: "hard_constraint \<Rightarrow> path \<Rightarrow> rejection option" where
  "check_direct hc p =
     (if hc_require_direct hc \<and> \<not> p_direct p then Some (RR_NOT_DIRECT, ''not direct'') else None)"

definition check_min_nominal :: "hard_constraint \<Rightarrow> path_quality \<Rightarrow> rejection option" where
  "check_min_nominal hc q =
     (case hc_min_nominal_bandwidth_bps hc of
        None \<Rightarrow> None
      | Some b \<Rightarrow> if q_nominal_bandwidth_bps q < b
                  then Some (RR_MIN_CAPABILITY_UNMET, ''nominal bandwidth below minimum'') else None)"

definition check_min_measured :: "hard_constraint \<Rightarrow> path_quality \<Rightarrow> rejection option" where
  "check_min_measured hc q =
     (case hc_min_measured_bandwidth_bps hc of
        None \<Rightarrow> None
      | Some b \<Rightarrow>
          (case q_measured_bandwidth_bps q of
             None \<Rightarrow> Some (RR_INSUFFICIENT_EVIDENCE, ''no measured bandwidth'')
           | Some bw \<Rightarrow> if f64_lt bw b
                        then Some (RR_MIN_CAPABILITY_UNMET, ''measured bandwidth below minimum'')
                        else None))"

definition check_required_technology ::
  "hard_constraint \<Rightarrow> topology_snapshot \<Rightarrow> path \<Rightarrow> rejection option" where
  "check_required_technology hc topo p =
     (case hc_required_technology hc of
        None \<Rightarrow> None
      | Some t \<Rightarrow> check_technology topo t (path_links (p_elements p)))"

definition check_max_hops :: "hard_constraint \<Rightarrow> path \<Rightarrow> rejection option" where
  "check_max_hops hc p =
     (case hc_max_hops hc of
        None \<Rightarrow> None
      | Some n \<Rightarrow> if p_hop_count p > n then Some (RR_PATH_TOO_DEEP, ''too many hops'') else None)"

definition check_degraded :: "hard_constraint \<Rightarrow> path_quality \<Rightarrow> rejection option" where
  "check_degraded hc q =
     (if hc_exclude_degraded hc \<and> q_degraded_links q > 0
      then Some (RR_LINK_DEGRADED_BELOW_MINIMUM, ''degraded links present'') else None)"

definition check_down :: "hard_constraint \<Rightarrow> path_quality \<Rightarrow> rejection option" where
  "check_down hc q =
     (if hc_exclude_down hc \<and> q_down_links q > 0
      then Some (RR_LINK_DOWN, ''down links present'') else None)"

definition check_contended :: "hard_constraint \<Rightarrow> path_quality \<Rightarrow> rejection option" where
  "check_contended hc q =
     (if hc_exclude_contended hc \<and> q_contended q
      then Some (RR_POLICY_EXCLUDED, ''contended'') else None)"

fun first_rejection :: "rejection option list \<Rightarrow> rejection option" where
  \<comment> \<open>the chain of \<open>if (eligible && ...)\<close>: the first check that rejects wins\<close>
  "first_rejection [] = None"
| "first_rejection (c # cs) = (case c of None \<Rightarrow> first_rejection cs | Some r \<Rightarrow> Some r)"

definition hard_rejection ::
  "hard_constraint \<Rightarrow> topology_snapshot \<Rightarrow> path \<Rightarrow> path_quality \<Rightarrow> rejection option" where
  "hard_rejection hc topo p q =
     first_rejection
       [check_supported hc topo p, check_fresh hc q, check_direct hc p, check_min_nominal hc q,
        check_min_measured hc q, check_required_technology hc topo p, check_max_hops hc p,
        check_degraded hc q, check_down hc q, check_contended hc q]"

section \<open>Candidate evaluation\<close>

record eval =
  ev_path :: path
  ev_quality :: path_quality
  ev_score :: f64

record candidate_scan =
  cs_evals :: "eval list"
  cs_rejected :: "rejected_candidate list"
  cs_any_freshness :: bool
  cs_any_unsupported :: bool

definition initial_candidates :: candidate_scan where
  "initial_candidates =
     \<lparr>cs_evals = [], cs_rejected = [], cs_any_freshness = False, cs_any_unsupported = False\<rparr>"

definition evaluate_candidate ::
  "hard_constraint \<Rightarrow> topology_snapshot \<Rightarrow> measurement_record list \<Rightarrow> path \<Rightarrow> candidate_scan \<Rightarrow>
   candidate_scan" where
  "evaluate_candidate hc topo ms p c =
     (let q = compute_quality topo ms p;
          fresh = (cs_any_freshness c \<or> check_supported hc topo p = None \<and> check_fresh hc q \<noteq> None)
      in case hard_rejection hc topo p q of
        Some (rr, reason) \<Rightarrow>
          c\<lparr>cs_any_freshness := fresh,
            cs_any_unsupported := (cs_any_unsupported c \<or> q_outcome q = PQ_UNSUPPORTED),
            cs_rejected := cs_rejected c @ [\<lparr>rc_path = p_id p, rc_reason = rr,
              rc_detail = (if reason = [] then ''rejected by policy'' else reason)\<rparr>]\<rparr>
      | None \<Rightarrow>
          c\<lparr>cs_any_freshness := fresh,
            cs_evals := cs_evals c @ [\<lparr>ev_path = p, ev_quality = q, ev_score = F64 0\<rparr>]\<rparr>)"

definition evaluate_candidates ::
  "hard_constraint \<Rightarrow> topology_snapshot \<Rightarrow> measurement_record list \<Rightarrow> path list \<Rightarrow> candidate_scan" where
  "evaluate_candidates hc topo ms ps = fold (evaluate_candidate hc topo ms) ps initial_candidates"

definition widen_context :: "eval \<Rightarrow> factor_context \<Rightarrow> factor_context" where
  "widen_context e ctx =
     (let ctx = ctx\<lparr>max_nominal_bps :=
            f64_max (max_nominal_bps ctx) (f64_of_u64 (q_nominal_bandwidth_bps (ev_quality e)))\<rparr>
      in case q_measured_bandwidth_bps (ev_quality e) of
           None \<Rightarrow> ctx
         | Some bw \<Rightarrow> ctx\<lparr>max_measured_bps := f64_max (max_measured_bps ctx) bw\<rparr>)"

definition ranking_context :: "eval list \<Rightarrow> factor_context" where
  "ranking_context es = fold widen_context es \<lparr>max_nominal_bps = F64 1, max_measured_bps = F64 1\<rparr>"

definition score_evals :: "route_policy \<Rightarrow> eval list \<Rightarrow> eval list" where
  "score_evals policy es =
     (let ctx = ranking_context es
      in map (\<lambda>e. e\<lparr>ev_score := score_path policy (ev_quality e) ctx\<rparr>) es)"

definition opt_bw_higher :: "f64 option \<Rightarrow> f64 option \<Rightarrow> bool" where
  "opt_bw_higher a b =
     (case (a, b) of (Some x, Some y) \<Rightarrow> f64_lt y x | (Some _, None) \<Rightarrow> True | (None, _) \<Rightarrow> False)"

definition opt_lat_lower :: "f64 option \<Rightarrow> f64 option \<Rightarrow> bool" where
  "opt_lat_lower a b =
     (case (a, b) of (Some x, Some y) \<Rightarrow> f64_lt x y | (Some _, None) \<Rightarrow> True | (None, _) \<Rightarrow> False)"

definition eval_before :: "eval \<Rightarrow> eval \<Rightarrow> bool" where
  \<comment> \<open>the comparison of the \<open>std::stable_sort\<close>\<close>
  "eval_before a b =
     (let p = ev_path a; p' = ev_path b; q = ev_quality a; q' = ev_quality b
      in if \<not> f64_eq (ev_score a) (ev_score b) then f64_lt (ev_score b) (ev_score a)
      else if p_direct p \<noteq> p_direct p' then p_direct p
      else if p_hop_count p \<noteq> p_hop_count p' then p_hop_count p < p_hop_count p'
      else if q_nominal_bandwidth_bps q \<noteq> q_nominal_bandwidth_bps q'
      then q_nominal_bandwidth_bps q > q_nominal_bandwidth_bps q'
      else if opt_bw_higher (q_measured_bandwidth_bps q) (q_measured_bandwidth_bps q') then True
      else if opt_bw_higher (q_measured_bandwidth_bps q') (q_measured_bandwidth_bps q) then False
      else if opt_lat_lower (q_measured_latency_seconds q) (q_measured_latency_seconds q') then True
      else if opt_lat_lower (q_measured_latency_seconds q') (q_measured_latency_seconds q) then False
      else p_id p < p_id p')"

fun insert_before :: "('a \<Rightarrow> 'a \<Rightarrow> bool) \<Rightarrow> 'a \<Rightarrow> 'a list \<Rightarrow> 'a list" where
  "insert_before lt x [] = [x]"
| "insert_before lt x (y # ys) = (if lt y x then y # insert_before lt x ys else x # y # ys)"

definition stable_sort :: "('a \<Rightarrow> 'a \<Rightarrow> bool) \<Rightarrow> 'a list \<Rightarrow> 'a list" where
  \<comment> \<open>\<open>std::stable_sort\<close>: when \<open>lt\<close> is a strict weak order on the elements, the one
     stable rearrangement; the C++ standard leaves the other case undefined\<close>
  "stable_sort lt xs = foldr (insert_before lt) xs []"

section \<open>Decisions\<close>

fun join_rejected :: "bool \<Rightarrow> rejected_candidate list \<Rightarrow> string" where
  "join_rejected first [] = []"
| "join_rejected first (rc # rcs) =
     (if first then [] else ''; '') @ rejection_reason_name (rc_reason rc) @ ''('' @
     id_to_string (rc_path rc) @ (if rc_detail rc \<noteq> [] then '': '' @ rc_detail rc else []) @ '')'' @
     join_rejected False rcs"

definition join_rejections :: "rejected_candidate list \<Rightarrow> string" where
  "join_rejections rcs = ''no eligible path; rejected: '' @ join_rejected True rcs"

fun route_outcome :: "path_quality_outcome \<Rightarrow> route_decision_outcome" where
  "route_outcome PQ_HEALTHY = RD_ROUTE_ALLOWED"
| "route_outcome PQ_DEGRADED = RD_ROUTE_ALLOWED_DEGRADED"
| "route_outcome PQ_CONTENDED = RD_ROUTE_ALLOWED_DEGRADED"
| "route_outcome PQ_UNSUPPORTED = RD_UNSUPPORTED"
| "route_outcome PQ_REVALIDATION_REQUIRED = RD_REVALIDATION_REQUIRED"
| "route_outcome PQ_INSUFFICIENT_EVIDENCE = RD_INSUFFICIENT_EVIDENCE"
| "route_outcome PQ_LINK_DOWN = RD_NO_ROUTE"
| "route_outcome PQ_NO_PATH = RD_NO_ROUTE"

definition bool_name :: "bool \<Rightarrow> string" where
  "bool_name b = (if b then ''true'' else ''false'')"

definition selection_explanation :: "eval \<Rightarrow> rejected_candidate list \<Rightarrow> string" where
  "selection_explanation best rejected =
     ''selected path '' @ id_to_string (p_id (ev_path best)) @
     '' hops='' @ nat_to_string (p_hop_count (ev_path best)) @
     '' directed='' @ bool_name (p_direct (ev_path best)) @
     '' outcome='' @ path_quality_outcome_name (q_outcome (ev_quality best)) @
     '' evidence='' @ evidence_class_name (ev_class (q_evidence (ev_quality best))) @
     (if rejected \<noteq> [] then ''; rejected='' @ join_rejections rejected else [])"

definition no_candidate_outcome :: "candidate_scan \<Rightarrow> route_decision_outcome" where
  "no_candidate_outcome c =
     (if cs_any_unsupported c then RD_UNSUPPORTED
      else if cs_any_freshness c then RD_REVALIDATION_REQUIRED else RD_POLICY_REJECTED)"

definition select_route ::
  "route_policy \<Rightarrow> candidate_scan \<Rightarrow> observation list \<Rightarrow> route_decision \<Rightarrow> route_decision" where
  \<comment> \<open>from the end of the candidate loop to the end of \<open>decide_route\<close>\<close>
  "select_route policy c obs d =
     (case stable_sort eval_before (score_evals policy (cs_evals c)) of
        [] \<Rightarrow> d\<lparr>rd_outcome := no_candidate_outcome c,
                rd_explanation := join_rejections (rd_rejected d)\<rparr>
      | best # _ \<Rightarrow>
          let out = route_outcome (q_outcome (ev_quality best))
          in d\<lparr>rd_selected := Some (p_id (ev_path best)), rd_outcome := out,
               rd_executable := (out = RD_ROUTE_ALLOWED \<or> out = RD_ROUTE_ALLOWED_DEGRADED),
               rd_explanation := selection_explanation best (rd_rejected d),
               rd_evidence_references := collect_evidence obs (ev_path best)\<rparr>)"

definition decide_in_view ::
  "limits \<Rightarrow> Fabric_Types.consistent_view \<Rightarrow> observation list \<Rightarrow> route_policy \<Rightarrow> route_decision \<Rightarrow> route_decision"
  where
  \<comment> \<open>\<open>decide_route\<close> after the consistent view has been taken; \<open>d\<close> has the endpoints
     and identities filled in\<close>
  "decide_in_view lms view obs policy d =
     (let topo = view_topology view
      in case (find_device topo (rd_source d), find_device topo (rd_target d)) of
        (None, _) \<Rightarrow> d\<lparr>rd_outcome := RD_NO_ROUTE,
            rd_explanation := ''source endpoint not present in current topology''\<rparr>
      | (Some _, None) \<Rightarrow> d\<lparr>rd_outcome := RD_NO_ROUTE,
            rd_explanation := ''target endpoint not present in current topology''\<rparr>
      | (Some sd, Some td) \<Rightarrow>
          let d = d\<lparr>rd_source_generation := dev_generation sd,
                    rd_target_generation := dev_generation td,
                    rd_topology_generation := snap_generation topo\<rparr>;
              paths = enumerate_paths_impl topo (rd_source d) (rd_target d) lms
          in if paths = []
             then d\<lparr>rd_outcome := RD_NO_ROUTE,
                    rd_explanation := ''no path exists between endpoints in current topology''\<rparr>
             else let c = evaluate_candidates (pol_hard policy) topo (view_measurements view) paths
                  in select_route policy c obs
                       (d\<lparr>rd_candidates_considered := map p_id paths, rd_rejected := cs_rejected c\<rparr>))"

definition start_decision ::
  "device_id \<Rightarrow> device_id \<Rightarrow> policy_id \<Rightarrow> world \<Rightarrow> route_decision \<times> world" where
  "start_decision source target pid w =
     (let (did, w) = fresh_id RouteDecisionTag w;
          (rg, w) = fresh_generation RouteGenerationTag w;
          (t, w) = now_timestamp w
      in (default_route_decision\<lparr>rd_id := did, rd_source := source, rd_target := target,
            rd_route_generation := rg, rd_policy := pid, rd_created_at := t\<rparr>, w))"

definition decide_route ::
  "limits \<Rightarrow> state \<Rightarrow> state \<Rightarrow> device_id \<Rightarrow> device_id \<Rightarrow> route_policy \<Rightarrow> world \<Rightarrow>
   route_decision result \<times> world" where
  "decide_route lms s s2 source target policy w =
     (let (d, w) = start_decision source target (pol_id policy) w;
          (view, w) = Registry.consistent_view s w
      in (ok (decide_in_view lms view (observations s2) policy d), w))"

definition is_route_executable :: "state \<Rightarrow> route_decision \<Rightarrow> world \<Rightarrow> bool \<times> world" where
  "is_route_executable s d w =
     (if \<not> rd_executable d then (False, w)
      else let (view, w) = Registry.consistent_view s w; topo = view_topology view
      in if snap_generation topo \<noteq> rd_topology_generation d then (False, w)
      else case (find_device topo (rd_source d), find_device topo (rd_target d)) of
        (Some sd, Some td) \<Rightarrow>
          (dev_generation sd = rd_source_generation d \<and> dev_generation td = rd_target_generation d, w)
      | _ \<Rightarrow> (False, w))"

definition revalidate_route :: "state \<Rightarrow> route_decision \<Rightarrow> world \<Rightarrow> route_decision result \<times> world" where
  "revalidate_route s d w =
     (let (current, w) = is_route_executable s d w
      in if current then (ok d, w)
         else let (nd, w) = start_decision (rd_source d) (rd_target d) (rd_policy d) w
              in (ok (nd\<lparr>rd_outcome := RD_REVALIDATION_REQUIRED,
                    rd_explanation := ''route decision is stale; fresh evidence or a new topology '' @
                      ''is required before routing may proceed''\<rparr>), w))"

section \<open>Explanations and cited observations\<close>

definition explain_element :: "topology_snapshot \<Rightarrow> path_element \<Rightarrow> string" where
  "explain_element topo el =
     (case el of
        DEVICE i \<Rightarrow> '' dev:'' @ id_to_string i @
          (case find_device topo i of
             None \<Rightarrow> []
           | Some d \<Rightarrow> ''(name='' @ dev_logical_name d @ '' health='' @ device_health_name (dev_health d) @
               '' ev='' @ evidence_class_name (ev_class (dev_evidence d)) @ '')'')
      | LINK i \<Rightarrow> '' link:'' @ id_to_string i @
          (case find_link topo i of
             None \<Rightarrow> []
           | Some l \<Rightarrow> ''(state='' @ link_state_name (lk_state l) @
               '' tech='' @ interconnect_technology_name (lk_technology l) @
               '' ev='' @ evidence_class_name (ev_class (lk_evidence l)) @ '')'')) @ '' ''"

definition explain_path :: "state \<Rightarrow> path \<Rightarrow> world \<Rightarrow> string \<times> world" where
  "explain_path s p w =
     (let (view, w) = Registry.consistent_view s w
      in (''path '' @ id_to_string (p_id p) @ '' from '' @ id_to_string (p_source p) @
          '' to '' @ id_to_string (p_target p) @ '' hops='' @ nat_to_string (p_hop_count p) @
          '' direct='' @ bool_name (p_direct p) @
          concat (map (explain_element (view_topology view)) (p_elements p)), w))"

definition observations_for :: "state \<Rightarrow> route_decision \<Rightarrow> observation list" where
  "observations_for s d =
     List.map_filter (\<lambda>oid. find (\<lambda>ob. obs_id ob = oid) (rev (observations s)))
       (rd_evidence_references d)"

end
