(* ===== verification/Path_Properties.thy ===== *)
theory Path_Properties
  imports Paths Registry_Properties
begin

text \<open>
  What path enumeration and path quality guarantee. The specification side is a pure listing of
  trails (no bound on the number of results, no accumulator) and a declarative notion of simple
  path in a snapshot; the depth-first search is shown to be the bounded prefix of the listing, and
  the listing to be exactly the simple paths.
\<close>

section \<open>The search computes a prefix of a pure listing\<close>

definition edges_from :: "adjacency \<Rightarrow> device_id \<Rightarrow> edge list" where
  "edges_from adj u = (case adj u of None \<Rightarrow> [] | Some es \<Rightarrow> es)"

definition hop_elements :: "edge \<Rightarrow> path_element list" where
  "hop_elements e = [LINK (e_link e), DEVICE (e_to e)]"

definition extend_trail ::
  "(device_id \<Rightarrow> path_element list list) \<Rightarrow> device_id \<Rightarrow> device_id set \<Rightarrow> edge \<Rightarrow>
   path_element list list" where
  "extend_trail deeper tgt vis e =
     (if e_to e \<in> vis then []
      else if e_to e = tgt then [hop_elements e]
      else map ((@) (hop_elements e)) (deeper (e_to e)))"

fun trails ::
  "adjacency \<Rightarrow> device_id \<Rightarrow> nat \<Rightarrow> device_id set \<Rightarrow> device_id \<Rightarrow> path_element list list" where
  \<comment> \<open>all ways to reach the target from \<open>u\<close> avoiding \<open>vis\<close>, through at most
     \<open>m\<close> further intermediate devices, in the order of the search\<close>
  "trails adj tgt 0 vis u = concat (map (extend_trail (\<lambda>_. []) tgt vis) (edges_from adj u))"
| "trails adj tgt (Suc m) vis u =
     concat (map (extend_trail (\<lambda>v. trails adj tgt m (insert v vis) v) tgt vis) (edges_from adj u))"

definition deeper_trails ::
  "adjacency \<Rightarrow> device_id \<Rightarrow> nat \<Rightarrow> device_id set \<Rightarrow> device_id \<Rightarrow> path_element list list" where
  "deeper_trails adj tgt m vis v =
     (case m of 0 \<Rightarrow> [] | Suc k \<Rightarrow> trails adj tgt k (insert v vis) v)"

lemma trails_unfold:
  "trails adj tgt m vis u =
     concat (map (extend_trail (deeper_trails adj tgt m vis) tgt vis) (edges_from adj u))"
  by (cases m) (simp_all add: deeper_trails_def [abs_def])

lemma take_append_absorb: "take k (take k xs @ ys) = take k (xs @ ys)"
  by (cases "length xs \<le> k") simp_all

definition intermediate_budget :: "limits \<Rightarrow> path_element list \<Rightarrow> nat" where
  "intermediate_budget lms elems = max_path_depth lms - 1 - length elems div 2"

lemma dfs_listing:
  shows "length out \<le> max_candidate_paths lms \<Longrightarrow>
    dfs adj topo src tgt lms cur elems vis out = take (max_candidate_paths lms)
      (out @ map (\<lambda>t. make_path topo src tgt (elems @ t))
               (trails adj tgt (intermediate_budget lms elems) vis cur))"
  and "length out \<le> max_candidate_paths lms \<Longrightarrow>
    dfs_edges adj topo src tgt lms es elems vis out = take (max_candidate_paths lms)
      (out @ map (\<lambda>t. make_path topo src tgt (elems @ t)) (concat (map
         (extend_trail (deeper_trails adj tgt (intermediate_budget lms elems) vis) tgt vis) es)))"
proof (induction adj topo src tgt lms cur elems vis out and adj topo src tgt lms es elems vis out
    rule: dfs_dfs_edges.induct)
  case (1 adj topo src tgt lms cur elems vis out)
  then show ?case
    by (auto simp: trails_unfold edges_from_def split: option.split)
next
  case (3 adj topo src tgt lms e es elems vis out)
  show ?case
  proof (cases "e_to e \<in> vis \<or> length out \<ge> max_candidate_paths lms \<or> e_to e = tgt")
    case True
    then consider "e_to e \<in> vis" | "e_to e \<notin> vis" "length out \<ge> max_candidate_paths lms"
      | "e_to e \<notin> vis" "length out < max_candidate_paths lms" "e_to e = tgt" by force
    then show ?thesis
    proof cases
      case 3
      then show ?thesis
        using "3.IH"(2) by (simp add: extend_trail_def [of _ _ _ e] hop_elements_def del: take_append)
    qed (use 3 in \<open>simp_all add: extend_trail_def [of _ _ _ e]\<close>)
  next
    case False
    let ?el = "elems @ [LINK (e_link e), DEVICE (e_to e)]"
    show ?thesis
    proof (cases "length ?el div 2 < max_path_depth lms")
      case True
      have b: "intermediate_budget lms elems = Suc (intermediate_budget lms ?el)"
        using True by (simp add: intermediate_budget_def)
      have "dfs adj topo src tgt lms (e_to e) ?el (insert (e_to e) vis) out =
          take (max_candidate_paths lms) (out @ map (\<lambda>t. make_path topo src tgt (?el @ t))
            (trails adj tgt (intermediate_budget lms ?el) (insert (e_to e) vis) (e_to e)))"
        using 3 False True by simp
      moreover note 3(3)
      ultimately show ?thesis
        using 3 False True
        by (simp add: b extend_trail_def [of _ _ _ e] hop_elements_def deeper_trails_def [of _ _ _ _ "e_to e"]
            Let_def comp_def take_append_absorb del: take_append)
    next
      case deep: False
      then have b: "intermediate_budget lms elems = 0"
        by (simp add: intermediate_budget_def)
      then show ?thesis
        using 3 False deep by (simp add: b extend_trail_def [of _ _ _ e] deeper_trails_def [of _ _ _ _ "e_to e"] del: take_append)
    qed
  qed
qed simp


lemma edge_of_fields [simp]: "\<lparr>e_link = e_link e, e_to = e_to e\<rparr> = e" for e :: edge
  by (cases e) simp

lemma edge_eqI: "e_link e = e_link e' \<Longrightarrow> e_to e = e_to e' \<Longrightarrow> e = e'" for e e' :: edge
  by (cases e; cases e') simp

section \<open>The adjacency map holds exactly the hops of the snapshot\<close>

definition hop :: "topology_snapshot \<Rightarrow> device_id \<Rightarrow> link_id \<Rightarrow> device_id \<Rightarrow> bool" where
  \<comment> \<open>link \<open>i\<close> leads from \<open>u\<close> to \<open>v\<close>: along its direction, or against it when it is
     not directed\<close>
  "hop topo u i v \<longleftrightarrow>
     list_ex (\<lambda>lk. lk_id lk = i \<and>
       (lk_source lk = u \<and> lk_target lk = v \<or>
        \<not> lk_directed lk \<and> lk_target lk = u \<and> lk_source lk = v)) (snap_links topo)"

definition link_edges :: "device_id \<Rightarrow> link_record \<Rightarrow> edge list" where
  "link_edges u lk =
     (if lk_source lk = u then [\<lparr>e_link = lk_id lk, e_to = lk_target lk\<rparr>] else []) @
     (if \<not> lk_directed lk \<and> lk_target lk = u
      then [\<lparr>e_link = lk_id lk, e_to = lk_source lk\<rparr>] else [])"

lemma edges_from_push: "edges_from (push_edge d e adj) u = edges_from adj u @ (if u = d then [e] else [])"
  by (auto simp: edges_from_def push_edge_def split: option.split)

lemma edges_from_add: "edges_from (add_link_edges lk adj) u = edges_from adj u @ link_edges u lk"
  by (auto simp: add_link_edges_def Let_def edges_from_push link_edges_def)

lemma edges_from_fold:
  "edges_from (fold add_link_edges lks adj) u = edges_from adj u @ concat (map (link_edges u) lks)"
  by (induction lks arbitrary: adj) (simp_all add: edges_from_add)

lemma edges_from_build:
  "edges_from (build_adjacency topo) u =
     sort_key (\<lambda>e. (e_link e, e_to e)) (concat (map (link_edges u) (snap_links topo)))"
proof -
  have "edges_from (\<lambda>d. map_option f (adj d)) u = f (edges_from adj u)"
    if "f [] = []" for f :: "edge list \<Rightarrow> edge list" and adj
    using that by (auto simp: edges_from_def split: option.split)
  then show ?thesis
    by (simp add: build_adjacency_def Let_def edges_from_fold) (simp add: edges_from_def)
qed

lemma edges_from_hop:
  "e \<in> set (edges_from (build_adjacency topo) u) \<longleftrightarrow> hop topo u (e_link e) (e_to e)"
  by (cases e) (auto simp: edges_from_build link_edges_def hop_def list_ex_iff split: if_splits)

definition links_unique :: "topology_snapshot \<Rightarrow> bool" where
  "links_unique topo \<longleftrightarrow> distinct (map lk_id (snap_links topo)) \<and>
     list_all (\<lambda>lk. lk_source lk \<noteq> lk_target lk) (snap_links topo)"

lemma distinct_edges_from:
  assumes "links_unique topo"
  shows "distinct (edges_from (build_adjacency topo) u)"
proof -
  have "distinct (concat (map (link_edges u) lks)) \<and>
      (\<forall>e \<in> set (concat (map (link_edges u) lks)). e_link e \<in> lk_id ` set lks)"
    if "distinct (map lk_id lks)" "list_all (\<lambda>lk. lk_source lk \<noteq> lk_target lk) lks" for lks
    using that
  proof (induction lks)
    case (Cons lk lks)
    have head: "e_link ` set (link_edges u lk) \<subseteq> {lk_id lk}" "distinct (link_edges u lk)"
      using Cons.prems by (auto simp: link_edges_def)
    moreover have "set (link_edges u lk) \<inter> set (concat (map (link_edges u) lks)) = {}"
    proof (rule ccontr)
      assume "\<not> ?thesis"
      then obtain e where "e \<in> set (link_edges u lk)" "e \<in> set (concat (map (link_edges u) lks))"
        by blast
      then have "e_link e = lk_id lk" "e_link e \<in> lk_id ` set lks" using head Cons by auto
      then show False using Cons.prems by simp
    qed
    ultimately show ?case using Cons by simp blast
  qed simp
  then show ?thesis using assms by (simp add: edges_from_build links_unique_def)
qed

section \<open>The listing is exactly the simple paths\<close>

fun walk :: "topology_snapshot \<Rightarrow> device_id \<Rightarrow> path_element list \<Rightarrow> device_id \<Rightarrow> bool" where
  \<comment> \<open>the elements after device \<open>u\<close> lead along hops of the snapshot to \<open>v\<close>\<close>
  "walk topo u [] v = (u = v)"
| "walk topo u (LINK i # DEVICE x # es) v = (hop topo u i x \<and> walk topo x es v)"
| "walk topo u _ v = False"

definition simple_path ::
  "topology_snapshot \<Rightarrow> device_id \<Rightarrow> device_id \<Rightarrow> path_element list \<Rightarrow> bool" where
  "simple_path topo src tgt elems \<longleftrightarrow>
     (case elems of
        DEVICE u # es \<Rightarrow> u = src \<and> walk topo src es tgt \<and> distinct (path_devices elems)
      | _ \<Rightarrow> False)"

lemma walk_length: "walk topo u es v \<Longrightarrow> length es = 2 * length (path_links es)"
  by (induction topo u es v rule: walk.induct) auto

lemma walk_target: "walk topo u es v \<Longrightarrow> es \<noteq> [] \<Longrightarrow> v \<in> set (path_devices es)"
proof (induction topo u es v rule: walk.induct)
  case (2 topo u i x es v)
  then show ?case by (cases "es = []") auto
qed auto

definition trail_to ::
  "topology_snapshot \<Rightarrow> device_id \<Rightarrow> nat \<Rightarrow> device_id set \<Rightarrow> device_id \<Rightarrow> path_element list \<Rightarrow> bool" where
  "trail_to topo tgt m vis u t \<longleftrightarrow>
     t \<noteq> [] \<and> walk topo u t tgt \<and> distinct (path_devices t) \<and> set (path_devices t) \<inter> vis = {} \<and>
     length t div 2 \<le> Suc m"

lemma trail_to_first:
  "trail_to topo tgt m vis u t \<longleftrightarrow>
     (\<exists>i x es. t = LINK i # DEVICE x # es \<and> hop topo u i x \<and> x \<notin> vis \<and>
        (if x = tgt then es = []
         else \<exists>k. m = Suc k \<and> trail_to topo tgt k (insert x vis) x es))"
  (is "?L \<longleftrightarrow> ?R")
proof
  assume ?L
  then obtain i x es where t: "t = LINK i # DEVICE x # es" and w: "hop topo u i x" "walk topo x es tgt"
    by (cases "(topo, u, t, tgt)" rule: walk.cases) (auto simp: trail_to_def)
  show ?R
  proof (cases "es = []")
    case False
    then have "tgt \<in> set (path_devices es)" "x \<noteq> tgt" "length es div 2 \<noteq> 0"
      using walk_target [OF w(2)] walk_length [OF w(2)] \<open>?L\<close> by (auto simp: trail_to_def t)
    then show ?thesis using \<open>?L\<close> False w by (cases m) (auto simp: trail_to_def t)
  qed (use \<open>?L\<close> w t in \<open>auto simp: trail_to_def\<close>)
next
  assume ?R
  then show ?L by (auto simp: trail_to_def split: if_splits)
qed

lemma in_extend_trail:
  "t \<in> set (concat (map (extend_trail d tgt vis) (edges_from (build_adjacency topo) u))) \<longleftrightarrow>
     (\<exists>i x es. t = LINK i # DEVICE x # es \<and> hop topo u i x \<and> x \<notin> vis \<and>
        (if x = tgt then es = [] else es \<in> set (d x)))"
proof -
  have "(\<exists>e :: edge. hop topo u (e_link e) (e_to e) \<and> Q (e_link e) (e_to e)) \<longleftrightarrow> (\<exists>i x. hop topo u i x \<and> Q i x)"
    for Q by (metis edge.select_convs(1,2))
  from this [of "\<lambda>i x. t \<in> set (extend_trail d tgt vis \<lparr>e_link = i, e_to = x\<rparr>)"]
  have "t \<in> set (concat (map (extend_trail d tgt vis) (edges_from (build_adjacency topo) u))) \<longleftrightarrow>
      (\<exists>i x. hop topo u i x \<and> t \<in> set (extend_trail d tgt vis \<lparr>e_link = i, e_to = x\<rparr>))"
    by (simp add: edges_from_hop Bex_def)
  then show ?thesis by (auto simp: extend_trail_def hop_elements_def split: if_splits)
qed

lemma in_trails:
  "t \<in> set (trails (build_adjacency topo) tgt m vis u) \<longleftrightarrow> trail_to topo tgt m vis u t"
proof (induction m arbitrary: vis u t)
  case 0
  show ?case by (subst trail_to_first) (simp only: trails.simps in_extend_trail, auto)
next
  case (Suc m)
  show ?case by (subst trail_to_first) (simp only: trails.simps in_extend_trail Suc.IH, auto)
qed

lemma distinct_trails:
  assumes "links_unique topo"
  shows "distinct (trails (build_adjacency topo) tgt m vis u)"
proof (induction m arbitrary: vis u)
  have *: "distinct (concat (map (extend_trail d tgt vis) es))"
    if "distinct es" "\<And>v. distinct (d v)" for d vis and es :: "edge list"
    using that
  proof (induction es)
    case (Cons e es)
    have "distinct (extend_trail d tgt vis e)"
      using Cons.prems by (auto simp: extend_trail_def distinct_map inj_on_def)
    moreover have "set (extend_trail d tgt vis e) \<inter> set (extend_trail d tgt vis e') = {}"
      if "e' \<in> set es" for e'
    proof -
      have "e_link e \<noteq> e_link e' \<or> e_to e \<noteq> e_to e'" 
        using Cons.prems(1) that by (metis distinct.simps(2) edge_eqI)
      then show ?thesis by (auto simp: extend_trail_def hop_elements_def)
    qed
    ultimately show ?case using Cons by (simp add: disjoint_iff)
  qed simp
  { case 0 show ?case by (simp add: * distinct_edges_from [OF assms]) }
  { case (Suc m) show ?case by (simp add: * distinct_edges_from [OF assms] Suc) }
qed

section \<open>Properties of path enumeration\<close>

definition example_topology :: topology_snapshot where
  \<comment> \<open>1 -- 2 -- 3, and a directed link from 1 to 3\<close>
  "example_topology =
     \<lparr>snap_generation = Generation 4, snap_id = Ident 1,
      snap_devices = [default_device\<lparr>dev_id := Ident 1\<rparr>, default_device\<lparr>dev_id := Ident 2\<rparr>,
        default_device\<lparr>dev_id := Ident 3\<rparr>],
      snap_links =
        [default_link\<lparr>lk_id := Ident 7, lk_source := Ident 1, lk_target := Ident 2,
           lk_technology := IT_NVLINK, lk_state := LS_UP\<rparr>,
         default_link\<lparr>lk_id := Ident 8, lk_source := Ident 3, lk_target := Ident 2,
           lk_technology := IT_NVLINK, lk_state := LS_UP\<rparr>,
         default_link\<lparr>lk_id := Ident 9, lk_source := Ident 1, lk_target := Ident 3,
           lk_directed := True, lk_technology := IT_PCIE, lk_state := LS_DOWN\<rparr>],
      snap_created_at = default_timestamp\<rparr>"

lemma example_enumeration:
  "map p_elements (enumerate_paths_impl example_topology (Ident 1) (Ident 3) default_limits) =
     [[DEVICE (Ident 1), LINK (Ident 7), DEVICE (Ident 2), LINK (Ident 8), DEVICE (Ident 3)],
      [DEVICE (Ident 1), LINK (Ident 9), DEVICE (Ident 3)]]"
  by (simp add: enumerate_paths_impl_def example_topology_def default_limits_def is_nil_def
      build_adjacency_def add_link_edges_def push_edge_def default_link_def Let_def make_path_def
      less_eq_ident_def less_ident_def)

lemma enumerate_paths_impl_listing:
  assumes "\<not> is_nil src" "\<not> is_nil tgt" "src \<noteq> tgt"
  shows "enumerate_paths_impl topo src tgt lms =
    map (\<lambda>t. (make_path topo src tgt (DEVICE src # t))
           \<lparr>p_switch_traversal := traverses_switch topo (DEVICE src # t)\<rparr>)
      (take (max_candidate_paths lms)
        (trails (build_adjacency topo) tgt (max_path_depth lms - 1) {src} src))"
  using assms dfs_listing(1) [of "[]" lms]
  by (simp add: enumerate_paths_impl_def intermediate_budget_def take_map comp_def make_path_def)

lemma in_trails_simple_path:
  assumes "src \<noteq> tgt"
  shows "t \<in> set (trails (build_adjacency topo) tgt (d - 1) {src} src) \<longleftrightarrow>
    simple_path topo src tgt (DEVICE src # t) \<and> length (path_links t) \<le> max 1 d"
proof -
  have "t \<noteq> []" if "walk topo src t tgt" using that assms by auto
  moreover have "length t div 2 = length (path_links t)" if "walk topo src t tgt"
    using walk_length [OF that] by simp
  ultimately show ?thesis by (auto simp: in_trails trail_to_def simple_path_def)
qed

lemma simple_pathE:
  assumes "simple_path topo src tgt elems"
  obtains t where "elems = DEVICE src # t"
  using assms by (auto simp: simple_path_def split: list.splits path_element.splits)

lemma enumerated_path:
  assumes "p \<in> set (enumerate_paths_impl topo src tgt lms)"
  shows "simple_path topo src tgt (p_elements p)
    \<and> p_source p = src \<and> p_target p = tgt
    \<and> p_hop_count p = length (path_links (p_elements p))
    \<and> 1 \<le> p_hop_count p \<and> p_hop_count p \<le> max 1 (max_path_depth lms)
    \<and> (p_direct p \<longleftrightarrow> p_hop_count p = 1)
    \<and> p_nvlink_segments p = length (filter (is_nvlink topo) (path_links (p_elements p)))
    \<and> p_switch_traversal p = traverses_switch topo (p_elements p)"
proof -
  have ends: "\<not> is_nil src" "\<not> is_nil tgt" "src \<noteq> tgt"
    using assms by (auto simp: enumerate_paths_impl_def split: if_splits)
  obtain t where t: "t \<in> set (trails (build_adjacency topo) tgt (max_path_depth lms - 1) {src} src)"
    and p: "p = (make_path topo src tgt (DEVICE src # t))
        \<lparr>p_switch_traversal := traverses_switch topo (DEVICE src # t)\<rparr>"
    using assms by (auto simp: enumerate_paths_impl_listing [OF ends] dest: in_set_takeD)
  have sp: "simple_path topo src tgt (DEVICE src # t)" "length (path_links t) \<le> max 1 (max_path_depth lms)"
    using t in_trails_simple_path [OF ends(3)] by blast+
  then have w: "walk topo src t tgt" by (simp add: simple_path_def)
  have "t \<noteq> []" using w ends(3) by auto
  then have "path_links t \<noteq> []" using walk_length [OF w] by auto
  then show ?thesis
    using sp walk_length [OF w] by (auto simp: p make_path_def Suc_le_eq)
qed

text \<open>
  C8: path enumeration is sound. Every path it returns is a simple path of the snapshot from the
  source to the target (alternating devices and existing links, each link used in a direction it
  has, no device twice), its hop count is its number of links and never above the depth bound (one
  hop is allowed even when the bound is zero), it is marked direct exactly when it has one hop,
  and its NVLink count and switch flag are those of the records it passes.
\<close>

theorem enumerate_paths_impl_sound:
  assumes "p \<in> set (enumerate_paths_impl topo src tgt lms)"
  shows "simple_path topo src tgt (p_elements p)
    \<and> p_source p = src \<and> p_target p = tgt
    \<and> p_hop_count p = length (path_links (p_elements p))
    \<and> 1 \<le> p_hop_count p \<and> p_hop_count p \<le> max 1 (max_path_depth lms)
    \<and> (p_direct p \<longleftrightarrow> p_hop_count p = 1)
    \<and> p_nvlink_segments p = length (filter (is_nvlink topo) (path_links (p_elements p)))
    \<and> p_switch_traversal p = traverses_switch topo (p_elements p)"
  using enumerated_path [OF assms] .

theorem enumerate_paths_impl_sound_witness:
  "\<exists>p \<in> set (enumerate_paths_impl example_topology (Ident 1) (Ident 3) default_limits).
     simple_path example_topology (Ident 1) (Ident 3) (p_elements p) \<and> p_hop_count p = 2"
proof -
  obtain p where p: "p \<in> set (enumerate_paths_impl example_topology (Ident 1) (Ident 3) default_limits)"
    "p_elements p = [DEVICE (Ident 1), LINK (Ident 7), DEVICE (Ident 2), LINK (Ident 8), DEVICE (Ident 3)]"
    using example_enumeration by (auto simp: map_eq_Cons_conv intro: that)
  then show ?thesis
    using enumerate_paths_impl_sound [OF p(1)] by (intro bexI [OF _ p(1)]) simp
qed

text \<open>
  C9: path enumeration is complete and bounded. It returns at most \<open>max_candidate_paths\<close>
  paths, without repetition when link ids are unique, and when it returns fewer than that bound
  every simple path within the depth bound is among them.
\<close>

theorem enumerate_paths_impl_complete:
  assumes "\<not> is_nil src" "\<not> is_nil tgt" "src \<noteq> tgt" and "links_unique topo"
  shows "length (enumerate_paths_impl topo src tgt lms) \<le> max_candidate_paths lms
    \<and> distinct (map p_elements (enumerate_paths_impl topo src tgt lms))
    \<and> (length (enumerate_paths_impl topo src tgt lms) < max_candidate_paths lms \<longrightarrow>
        (\<forall>elems. simple_path topo src tgt elems \<and> length (path_links elems) \<le> max 1 (max_path_depth lms)
           \<longrightarrow> elems \<in> p_elements ` set (enumerate_paths_impl topo src tgt lms)))"
proof -
  let ?ts = "trails (build_adjacency topo) tgt (max_path_depth lms - 1) {src} src"
  let ?K = "max_candidate_paths lms"
  note listing = enumerate_paths_impl_listing [OF assms(1-3)]
  have els: "map p_elements (enumerate_paths_impl topo src tgt lms) = map ((#) (DEVICE src)) (take ?K ?ts)"
    by (simp add: listing comp_def make_path_def)
  have "distinct (map ((#) (DEVICE src)) (take ?K ?ts))"
    using distinct_trails [OF assms(4)] by (simp add: distinct_map inj_on_def)
  moreover have "elems \<in> p_elements ` set (enumerate_paths_impl topo src tgt lms)"
    if few: "length (enumerate_paths_impl topo src tgt lms) < ?K"
      and sp: "simple_path topo src tgt elems" "length (path_links elems) \<le> max 1 (max_path_depth lms)" for elems
  proof -
    obtain t where e: "elems = DEVICE src # t" using sp(1) by (rule simple_pathE)
    then have "t \<in> set ?ts" using in_trails_simple_path [OF assms(3)] sp by simp
    moreover have "take ?K ?ts = ?ts" using few by (simp add: listing)
    ultimately have "elems \<in> set (map p_elements (enumerate_paths_impl topo src tgt lms))"
      by (simp add: els e)
    then show ?thesis by simp
  qed
  moreover have "length (enumerate_paths_impl topo src tgt lms) \<le> ?K" by (simp add: listing)
  ultimately show ?thesis unfolding els by blast
qed

theorem enumerate_paths_impl_complete_witness:
  "[DEVICE (Ident 1), LINK (Ident 9), DEVICE (Ident 3)]
     \<in> p_elements ` set (enumerate_paths_impl example_topology (Ident 1) (Ident 3) default_limits)"
proof -
  let ?e = "[DEVICE (Ident 1), LINK (Ident 9), DEVICE (Ident 3)]"
  have "simple_path example_topology (Ident 1) (Ident 3) ?e" "links_unique example_topology"
    by (simp_all add: simple_path_def links_unique_def hop_def example_topology_def default_link_def)
  moreover have "length (enumerate_paths_impl example_topology (Ident 1) (Ident 3) default_limits) = 2"
    using arg_cong [OF example_enumeration, of length] by simp
  ultimately show ?thesis
    using enumerate_paths_impl_complete [of "Ident 1" "Ident 3" example_topology default_limits]
    by (simp add: is_nil_def default_limits_def)
qed

section \<open>Path quality\<close>

definition on_link :: "topology_snapshot \<Rightarrow> (link_record \<Rightarrow> bool) \<Rightarrow> link_id \<Rightarrow> bool" where
  \<comment> \<open>the snapshot has the link and its record satisfies \<open>P\<close>\<close>
  "on_link topo P i \<longleftrightarrow> (case find_link topo i of None \<Rightarrow> False | Some l \<Rightarrow> P l)"

definition link_is_down :: "topology_snapshot \<Rightarrow> link_id \<Rightarrow> bool" where
  "link_is_down topo i \<longleftrightarrow> find_link topo i = None \<or>
     on_link topo (\<lambda>l. lk_state l \<in> {LS_DOWN, LS_ABSENT, LS_UNREACHABLE}) i"

definition link_has_capability :: "link_record \<Rightarrow> bool" where
  "link_has_capability l \<longleftrightarrow> cap_nominal_bandwidth_bps (lk_capability l) > 0 \<or>
     cap_interconnect (lk_capability l) \<noteq> IT_UNKNOWN"

lemma scan_link_fields [simp]:
  "qs_any_down (scan_link topo i q) \<longleftrightarrow> qs_any_down q \<or> link_is_down topo i"
  "qs_any_unsupported (scan_link topo i q) \<longleftrightarrow>
     qs_any_unsupported q \<or> on_link topo (\<lambda>l. lk_state l = LS_UNSUPPORTED) i"
  "qs_any_reval (scan_link topo i q) \<longleftrightarrow> qs_any_reval q \<or>
     on_link topo (\<lambda>l. lk_state l \<in> {LS_REVALIDATION_REQUIRED, LS_STALE}) i"
  "qs_any_degraded (scan_link topo i q) \<longleftrightarrow> qs_any_degraded q \<or>
     on_link topo (\<lambda>l. lk_degraded l \<or> lk_state l = LS_DEGRADED) i"
  "qs_any_unknown (scan_link topo i q) \<longleftrightarrow>
     qs_any_unknown q \<or> on_link topo (\<lambda>l. lk_state l = LS_UNKNOWN) i"
  "qs_any_up (scan_link topo i q) \<longleftrightarrow>
     qs_any_up q \<or> on_link topo (\<lambda>l. lk_state l \<in> {LS_UP, LS_PRESENT, LS_SUPPORTED}) i"
  "qs_has_capability (scan_link topo i q) \<longleftrightarrow>
     qs_has_capability q \<or> on_link topo link_has_capability i"
  "qs_any_synth (scan_link topo i q) \<longleftrightarrow>
     qs_any_synth q \<or> on_link topo (\<lambda>l. ev_class (lk_evidence l) = EV_SYNTHETIC) i"
  "qs_any_unsup_ev (scan_link topo i q) \<longleftrightarrow>
     qs_any_unsup_ev q \<or> on_link topo (\<lambda>l. ev_class (lk_evidence l) = EV_UNSUPPORTED) i"
  "qs_nvlink_segments (scan_link topo i q) =
     qs_nvlink_segments q + (if is_nvlink topo i then 1 else 0)"
  "qs_have_nominal (scan_link topo i q) \<longleftrightarrow> qs_have_nominal q \<or> find_link topo i \<noteq> None"
  by (auto simp: scan_link_def scan_states_def scan_capability_def Let_def link_is_down_def
      on_link_def link_has_capability_def is_nvlink_def count_if_def split: option.splits)

lemma scan_flags:
  "qs_any_down (fold (scan_link topo) is q) \<longleftrightarrow> qs_any_down q \<or> list_ex (link_is_down topo) is"
  "qs_any_unsupported (fold (scan_link topo) is q) \<longleftrightarrow>
     qs_any_unsupported q \<or> list_ex (on_link topo (\<lambda>l. lk_state l = LS_UNSUPPORTED)) is"
  "qs_any_reval (fold (scan_link topo) is q) \<longleftrightarrow> qs_any_reval q \<or>
     list_ex (on_link topo (\<lambda>l. lk_state l \<in> {LS_REVALIDATION_REQUIRED, LS_STALE})) is"
  "qs_any_degraded (fold (scan_link topo) is q) \<longleftrightarrow> qs_any_degraded q \<or>
     list_ex (on_link topo (\<lambda>l. lk_degraded l \<or> lk_state l = LS_DEGRADED)) is"
  "qs_any_unknown (fold (scan_link topo) is q) \<longleftrightarrow>
     qs_any_unknown q \<or> list_ex (on_link topo (\<lambda>l. lk_state l = LS_UNKNOWN)) is"
  "qs_any_up (fold (scan_link topo) is q) \<longleftrightarrow>
     qs_any_up q \<or> list_ex (on_link topo (\<lambda>l. lk_state l \<in> {LS_UP, LS_PRESENT, LS_SUPPORTED})) is"
  "qs_has_capability (fold (scan_link topo) is q) \<longleftrightarrow>
     qs_has_capability q \<or> list_ex (on_link topo link_has_capability) is"
  "qs_any_synth (fold (scan_link topo) is q) \<longleftrightarrow>
     qs_any_synth q \<or> list_ex (on_link topo (\<lambda>l. ev_class (lk_evidence l) = EV_SYNTHETIC)) is"
  "qs_any_unsup_ev (fold (scan_link topo) is q) \<longleftrightarrow>
     qs_any_unsup_ev q \<or> list_ex (on_link topo (\<lambda>l. ev_class (lk_evidence l) = EV_UNSUPPORTED)) is"
  "qs_nvlink_segments (fold (scan_link topo) is q) =
     qs_nvlink_segments q + length (filter (is_nvlink topo) is)"
  "qs_have_nominal (fold (scan_link topo) is q) \<longleftrightarrow>
     qs_have_nominal q \<or> list_ex (\<lambda>i. find_link topo i \<noteq> None) is"
  by (induction "is" arbitrary: q; simp)+

lemma list_all_not_ex: "\<not> list_ex P xs \<longleftrightarrow> list_all (\<lambda>x. \<not> P x) xs"
  by (induction xs) auto

definition measured_contended :: "measurement_record list \<Rightarrow> path \<Rightarrow> bool" where
  "measured_contended ms p \<longleftrightarrow>
     (case best_measurement ms p of None \<Rightarrow> False | Some b \<Rightarrow> m_contended b)"

definition link_in_service :: "link_record \<Rightarrow> bool" where
  "link_in_service l \<longleftrightarrow> \<not> lk_degraded l \<and>
     (case lk_state l of LS_UP \<Rightarrow> True | LS_PRESENT \<Rightarrow> True | LS_SUPPORTED \<Rightarrow> True
      | LS_INCOMPATIBLE \<Rightarrow> True | LS_RAW _ \<Rightarrow> True | _ \<Rightarrow> False)"

definition eligible_measurement :: "path \<Rightarrow> measurement_record \<Rightarrow> bool" where
  "eligible_measurement p m \<longleftrightarrow>
     m_valid m \<and> \<not> m_stale m \<and> m_source m = p_source p \<and> m_target m = p_target p"

lemma better_measurement_cases:
  "better_measurement p m best =
     (if eligible_measurement p m \<and>
         (case best of None \<Rightarrow> True | Some b \<Rightarrow> sint (unix_ns (m_measured_at b)) < sint (unix_ns (m_measured_at m)))
      then Some m else best)"
  by (auto simp: better_measurement_def eligible_measurement_def split: option.splits)

lemma best_measurement_snoc:
  "best_measurement (ms @ [m]) p = better_measurement p m (best_measurement ms p)"
  by (simp add: best_measurement_def)

lemma best_measurement_NoneD:
  "best_measurement ms p = None \<Longrightarrow> \<forall>m \<in> set ms. \<not> eligible_measurement p m"
  by (induction ms rule: rev_induct)
    (auto simp: best_measurement_snoc better_measurement_cases split: if_splits)

lemma best_measurement_SomeD:
  assumes "best_measurement ms p = Some b"
  shows "b \<in> set ms \<and> eligible_measurement p b \<and>
    (\<forall>m \<in> set ms. eligible_measurement p m \<longrightarrow> sint (unix_ns (m_measured_at m)) \<le> sint (unix_ns (m_measured_at b)))"
  using assms
proof (induction ms arbitrary: b rule: rev_induct)
  case (snoc m ms)
  show ?case
  proof (cases "best_measurement ms p")
    case None
    then show ?thesis
      using snoc.prems best_measurement_NoneD [OF None]
      by (auto simp: best_measurement_snoc better_measurement_cases split: if_splits)
  next
    case (Some c)
    note step = snoc.prems [unfolded best_measurement_snoc better_measurement_cases Some]
    show ?thesis
    proof (cases "eligible_measurement p m \<and> sint (unix_ns (m_measured_at c)) < sint (unix_ns (m_measured_at m))")
      case True
      then have "\<forall>x \<in> set ms. eligible_measurement p x \<longrightarrow>
          sint (unix_ns (m_measured_at x)) \<le> sint (unix_ns (m_measured_at m))"
        using snoc.IH [OF Some] by (meson less_imp_le order.strict_trans1)
      then show ?thesis using step True by simp
    next
      case False
      then have "b = c" using step by (simp split: if_splits)
      then show ?thesis using False snoc.IH [OF Some] by (auto simp: not_less)
    qed
  qed
qed (simp add: best_measurement_def)

lemma initial_scan_fields [simp]:
  "\<not> qs_any_down (initial_scan n)" "\<not> qs_any_unsupported (initial_scan n)"
  "\<not> qs_any_reval (initial_scan n)" "\<not> qs_any_degraded (initial_scan n)"
  "\<not> qs_any_up (initial_scan n)" "\<not> qs_any_synth (initial_scan n)"
  "\<not> qs_any_unsup_ev (initial_scan n)" "\<not> qs_any_unknown (initial_scan n)"
  "\<not> qs_has_capability (initial_scan n)" "\<not> qs_have_nominal (initial_scan n)"
  "qs_nvlink_segments (initial_scan n) = n" "qs_nominal (initial_scan n) = 0"
  by (simp_all add: initial_scan_def)

lemma in_service_iff:
  "on_link topo link_in_service i \<longleftrightarrow> \<not> link_is_down topo i \<and>
     \<not> on_link topo (\<lambda>l. lk_state l = LS_UNSUPPORTED) i \<and>
     \<not> on_link topo (\<lambda>l. lk_state l \<in> {LS_REVALIDATION_REQUIRED, LS_STALE}) i \<and>
     \<not> on_link topo (\<lambda>l. lk_degraded l \<or> lk_state l = LS_DEGRADED) i \<and>
     \<not> on_link topo (\<lambda>l. lk_state l = LS_UNKNOWN) i"
proof (cases "find_link topo i")
  case (Some l)
  then show ?thesis
    by (cases "lk_state l") (simp_all add: on_link_def link_is_down_def link_in_service_def)
qed (simp add: on_link_def link_is_down_def)

definition path_scan :: "topology_snapshot \<Rightarrow> path \<Rightarrow> quality_scan" where
  "path_scan topo p =
     fold (scan_link topo) (path_links (p_elements p)) (initial_scan (p_nvlink_segments p))"

lemma compute_quality_outcome_eq:
  "q_outcome (compute_quality topo ms p) =
     quality_outcome (path_scan topo p) (p_hop_count p) (measured_contended ms p)"
  by (simp add: compute_quality_def Let_def measured_contended_def path_scan_def)

lemma compute_quality_stale_eq: "q_stale (compute_quality topo ms p) \<longleftrightarrow> qs_any_reval (path_scan topo p)"
  using best_measurement_SomeD [of ms p]
  by (auto simp: compute_quality_def Let_def eligible_measurement_def path_scan_def split: option.splits)

lemmas path_scan_flags = path_scan_def scan_flags

text \<open>
  C10: what a path outcome says. A path is \<open>HEALTHY\<close> exactly when it has a hop, every one of
  its links is in the snapshot, not degraded and in a state that none of the other outcomes claims
  (\<open>UP\<close>, \<open>PRESENT\<close>, \<open>SUPPORTED\<close>, and also \<open>INCOMPATIBLE\<close> and unnamed
  values), some link states a capability, and the best measurement is not contended. It is
  \<open>LINK_DOWN\<close> exactly when it has no hop or some link is missing, down, absent or
  unreachable. It is stale exactly when some link is stale or needs revalidation.
\<close>

theorem compute_quality_outcome:
  "(q_outcome (compute_quality topo ms p) = PQ_HEALTHY \<longleftrightarrow>
      p_hop_count p \<noteq> 0 \<and> list_all (on_link topo link_in_service) (path_links (p_elements p)) \<and>
      list_ex (on_link topo link_has_capability) (path_links (p_elements p)) \<and>
      \<not> measured_contended ms p)
   \<and> (q_outcome (compute_quality topo ms p) = PQ_LINK_DOWN \<longleftrightarrow>
      p_hop_count p = 0 \<or> list_ex (link_is_down topo) (path_links (p_elements p)))
   \<and> (q_stale (compute_quality topo ms p) \<longleftrightarrow>
      list_ex (on_link topo (\<lambda>l. lk_state l \<in> {LS_REVALIDATION_REQUIRED, LS_STALE}))
        (path_links (p_elements p)))"
proof -
  let ?is = "path_links (p_elements p)" and ?q = "path_scan topo p"
  have "list_all (on_link topo link_in_service) ?is \<longleftrightarrow> \<not> qs_any_down ?q \<and> \<not> qs_any_unsupported ?q \<and>
      \<not> qs_any_reval ?q \<and> \<not> qs_any_degraded ?q \<and> \<not> qs_any_unknown ?q"
    by (simp add: path_scan_flags list_all_not_ex) (auto simp: in_service_iff list_all_iff)
  then show ?thesis
    unfolding compute_quality_outcome_eq compute_quality_stale_eq
    by (auto simp: quality_outcome_def path_scan_flags)
qed

definition positive_bandwidths :: "topology_snapshot \<Rightarrow> link_id list \<Rightarrow> u64 list" where
  \<comment> \<open>the nominal bandwidths that the existing links of the path state\<close>
  "positive_bandwidths topo is =
     filter (\<lambda>b. b > 0) (map (\<lambda>l. cap_nominal_bandwidth_bps (lk_capability l))
       (List.map_filter (find_link topo) is))"

lemma positive_bandwidths_Cons:
  "positive_bandwidths topo (i # is) = positive_bandwidths topo [i] @ positive_bandwidths topo is"
  by (simp add: positive_bandwidths_def map_filter_def)

lemma scan_link_nominal:
  "qs_nominal (scan_link topo i q) =
     fold (\<lambda>b n. if n = 0 then b else min n b) (positive_bandwidths topo [i]) (qs_nominal q)"
  by (auto simp: positive_bandwidths_def scan_link_def scan_capability_def scan_states_def
      Let_def map_filter_def split: option.split)

lemma scan_nominal:
  "qs_nominal (fold (scan_link topo) is q) =
     fold (\<lambda>b n. if n = 0 then b else min n b) (positive_bandwidths topo is) (qs_nominal q)"
proof (induction "is" arbitrary: q)
  case (Cons i "is")
  show ?case
    by (subst positive_bandwidths_Cons) (simp add: Cons scan_link_nominal)
qed (simp add: positive_bandwidths_def map_filter_def)

lemma fold_bottleneck:
  fixes bs :: "u64 list"
  assumes "\<forall>b \<in> set bs. b > 0"
  shows "fold (\<lambda>b n. if n = 0 then b else min n b) bs n =
    (if bs = [] then n else if n = 0 then Min (set bs) else min n (Min (set bs)))"
  using assms
proof (induction bs arbitrary: n)
  case (Cons b bs)
  then have "b \<noteq> 0" "min n b \<noteq> 0 \<longleftrightarrow> n \<noteq> 0" by (auto simp: min_def)
  then show ?case using Cons by (cases "bs = []") (auto simp: min.assoc)
qed simp

lemma best_measurement_none_iff:
  "best_measurement ms p = None \<longleftrightarrow> \<not> list_ex (eligible_measurement p) ms"
  using best_measurement_NoneD [of ms p] best_measurement_SomeD [of ms p]
  by (cases "best_measurement ms p") (auto simp: list_ex_iff)

text \<open>
  C11: the numbers of a path quality. The nominal bandwidth is the bottleneck: the least nominal
  bandwidth that any existing link of the path states, zero when none does. The measured values
  are those of a valid, non-stale measurement between the path's endpoints that no other such
  measurement is newer than, and absent exactly when there is no such measurement.
\<close>

theorem compute_quality_numbers:
  "q_nominal_bandwidth_bps (compute_quality topo ms p) =
      (case positive_bandwidths topo (path_links (p_elements p)) of
         [] \<Rightarrow> 0 | b # bs \<Rightarrow> Min (set (b # bs)))
   \<and> (q_measured_bandwidth_bps (compute_quality topo ms p) = None \<longleftrightarrow>
        \<not> list_ex (eligible_measurement p) ms)
   \<and> (q_measured_bandwidth_bps (compute_quality topo ms p) \<noteq> None \<longrightarrow>
        (\<exists>b \<in> set ms. eligible_measurement p b
           \<and> q_measured_bandwidth_bps (compute_quality topo ms p) = Some (m_bandwidth_bps b)
           \<and> q_measured_latency_seconds (compute_quality topo ms p) = Some (m_latency_seconds b)
           \<and> (\<forall>m \<in> set ms. eligible_measurement p m \<longrightarrow>
                sint (unix_ns (m_measured_at m)) \<le> sint (unix_ns (m_measured_at b)))))"
proof -
  let ?bs = "positive_bandwidths topo (path_links (p_elements p))"
  let ?q = "fold (scan_link topo) (path_links (p_elements p)) (initial_scan (p_nvlink_segments p))"
  have pos: "\<forall>b \<in> set ?bs. b > 0" by (simp add: positive_bandwidths_def)
  have nominal: "qs_nominal ?q = (if ?bs = [] then 0 else Min (set ?bs))"
    by (simp add: scan_nominal fold_bottleneck [OF pos])
  have "qs_have_nominal ?q" if "?bs \<noteq> []"
    using that by (auto simp: scan_flags positive_bandwidths_def map_filter_def list_ex_iff
        filter_empty_conv)
  then have "q_nominal_bandwidth_bps (compute_quality topo ms p) =
      (case ?bs of [] \<Rightarrow> 0 | b # bs \<Rightarrow> Min (set (b # bs)))"
    using nominal pos by (auto simp: compute_quality_def Let_def split: list.split)
  moreover have "q_measured_bandwidth_bps (compute_quality topo ms p) =
      map_option m_bandwidth_bps (best_measurement ms p)"
    "q_measured_latency_seconds (compute_quality topo ms p) =
      map_option m_latency_seconds (best_measurement ms p)"
    by (simp_all add: compute_quality_def Let_def)
  ultimately show ?thesis
    using best_measurement_SomeD [of ms p] best_measurement_none_iff [of ms p]
    by (cases "best_measurement ms p") auto
qed

theorem compute_quality_numbers_witness:
  "q_nominal_bandwidth_bps (compute_quality
      (example_topology\<lparr>snap_links := map (\<lambda>l. l\<lparr>lk_capability := default_capability
           \<lparr>cap_nominal_bandwidth_bps := (if lk_id l = Ident 7 then 50 else 25)\<rparr>\<rparr>)
         (snap_links example_topology)\<rparr>) []
      (make_path example_topology (Ident 1) (Ident 3)
        [DEVICE (Ident 1), LINK (Ident 7), DEVICE (Ident 2), LINK (Ident 8), DEVICE (Ident 3)])) = 25"
  by (subst compute_quality_numbers [THEN conjunct1])
    (simp add: positive_bandwidths_def find_link_def make_path_def example_topology_def
      default_link_def map_filter_def)

text \<open>
  the NVLink segments of a path are counted twice in its quality: \<open>compute_quality\<close> starts
  from the count that enumeration has already stored in the path and counts every link again.
\<close>

theorem compute_quality_nvlink_doubled:
  assumes "p \<in> set (enumerate_paths_impl topo src tgt lms)"
  shows "q_nvlink_segments (compute_quality topo ms p) = 2 * p_nvlink_segments p"
  using enumerate_paths_impl_listing [of src tgt topo lms] assms
  by (auto simp: compute_quality_def Let_def scan_flags make_path_def enumerate_paths_impl_def
      split: if_splits)

theorem compute_quality_nvlink_doubled_witness:
  "\<exists>p \<in> set (enumerate_paths_impl example_topology (Ident 1) (Ident 3) default_limits).
     length (path_links (p_elements p)) = 2 \<and>
     q_nvlink_segments (compute_quality example_topology [] p) = 4"
proof -
  obtain p where p: "p \<in> set (enumerate_paths_impl example_topology (Ident 1) (Ident 3) default_limits)"
    "p_elements p = [DEVICE (Ident 1), LINK (Ident 7), DEVICE (Ident 2), LINK (Ident 8), DEVICE (Ident 3)]"
    using example_enumeration by (auto simp: map_eq_Cons_conv intro: that)
  moreover have "p_nvlink_segments p = 2"
    using p enumerate_paths_impl_listing [of "Ident 1" "Ident 3" example_topology default_limits]
    by (auto simp: make_path_def is_nil_def is_nvlink_def find_link_def example_topology_def
        default_link_def)
  ultimately show ?thesis
    using compute_quality_nvlink_doubled [OF p(1)] by (intro bexI [OF _ p(1)]) simp
qed

end
