(* ===== verification/Route_Properties.thy ===== *)
theory Route_Properties
  imports Route Path_Properties
begin

text \<open>
  What a route decision guarantees: an executable decision only uses existing links that pass
  every hard constraint, the selected path is one that no other eligible candidate precedes in
  the ranking, a decision is current exactly as long as the topology it was made in, and no
  topology change leaves it executable.
\<close>

section \<open>Stable sorting under a strict weak order\<close>













section \<open>Candidates\<close>

definition eligible :: "hard_constraint \<Rightarrow> topology_snapshot \<Rightarrow> measurement_record list \<Rightarrow> path \<Rightarrow> bool" where
  "eligible hc topo ms p \<longleftrightarrow> hard_rejection hc topo p (compute_quality topo ms p) = None"

lemma evaluate_candidates_evals:
  "map ev_path (cs_evals (fold (evaluate_candidate hc topo ms) ps c)) =
     map ev_path (cs_evals c) @ filter (eligible hc topo ms) ps"
  by (induction ps arbitrary: c)
    (auto simp: evaluate_candidate_def eligible_def Let_def split: option.split)

lemma evaluate_candidates_quality:
  "\<forall>e \<in> set (cs_evals c). ev_quality e = compute_quality topo ms (ev_path e) \<Longrightarrow>
   e \<in> set (cs_evals (fold (evaluate_candidate hc topo ms) ps c)) \<Longrightarrow>
   ev_quality e = compute_quality topo ms (ev_path e)"
proof (induction ps arbitrary: c)
  case (Cons p ps)
  have "\<forall>e \<in> set (cs_evals (evaluate_candidate hc topo ms p c)).
      ev_quality e = compute_quality topo ms (ev_path e)"
    using Cons.prems(1) by (auto simp: evaluate_candidate_def Let_def split: option.split)
  from Cons.IH [OF this] Cons.prems(2) show ?case by simp
qed simp

lemma evaluate_candidates_rejected:
  "map rc_path (cs_rejected (fold (evaluate_candidate hc topo ms) ps c)) =
     map rc_path (cs_rejected c) @ map p_id (filter (\<lambda>p. \<not> eligible hc topo ms p) ps)"
  by (induction ps arbitrary: c)
    (auto simp: evaluate_candidate_def eligible_def Let_def split: option.split)

lemma evaluate_candidates_freshness:
  "cs_any_freshness (fold (evaluate_candidate hc topo ms) ps c) \<longleftrightarrow> cs_any_freshness c \<or>
     (\<exists>p \<in> set ps. check_supported hc topo p = None \<and> check_fresh hc (compute_quality topo ms p) \<noteq> None)"
  by (induction ps arbitrary: c) (auto simp: evaluate_candidate_def Let_def split: option.split)

lemmas candidate_facts =
  evaluate_candidates_evals [of _ _ _ _ initial_candidates, folded evaluate_candidates_def]
  evaluate_candidates_rejected [of _ _ _ _ initial_candidates, folded evaluate_candidates_def]
  evaluate_candidates_freshness [of _ _ _ _ initial_candidates, folded evaluate_candidates_def]

lemma initial_candidates_fields [simp]:
  "cs_evals initial_candidates = []" "cs_rejected initial_candidates = []"
  "\<not> cs_any_freshness initial_candidates"
  by (simp_all add: initial_candidates_def)

lemma in_evals:
  "e \<in> set (cs_evals (evaluate_candidates hc topo ms ps)) \<Longrightarrow>
   ev_path e \<in> set ps \<and> eligible hc topo ms (ev_path e) \<and>
   ev_quality e = compute_quality topo ms (ev_path e)"
  using arg_cong [OF candidate_facts(1), of set hc topo ms ps]
    evaluate_candidates_quality [of initial_candidates topo ms e hc ps]
  by (auto simp: evaluate_candidates_def [symmetric])


lemma in_score_evals:
  "e \<in> set (score_evals policy es) \<Longrightarrow>
   \<exists>x \<in> set es. ev_path e = ev_path x \<and> ev_quality e = ev_quality x"
  by (auto simp: score_evals_def Let_def)

lemma in_scored_candidates:
  "e \<in> set (score_evals policy (cs_evals (evaluate_candidates hc topo ms ps))) \<Longrightarrow>
   ev_path e \<in> set ps \<and> eligible hc topo ms (ev_path e) \<and>
   ev_quality e = compute_quality topo ms (ev_path e)"
  using in_score_evals in_evals by metis

section \<open>What eligibility means\<close>

lemma first_rejection_None: "first_rejection cs = None \<longleftrightarrow> list_all (\<lambda>c. c = None) cs"
  by (induction cs) (auto split: option.split)

lemma check_links_supported_None:
  "check_links_supported topo is = None \<longleftrightarrow> list_all (on_link topo (\<lambda>l. is_supported_state (lk_state l))) is"
  by (induction "is") (auto simp: on_link_def split: option.split)

lemma check_technology_None:
  "check_technology topo t is = None \<longleftrightarrow> list_all (on_link topo (\<lambda>l. lk_technology l = t)) is"
  by (induction "is") (auto simp: on_link_def split: option.split)

definition satisfies :: "hard_constraint \<Rightarrow> topology_snapshot \<Rightarrow> path \<Rightarrow> path_quality \<Rightarrow> bool" where
  \<comment> \<open>the hard constraints as predicates of the path, without order or reasons\<close>
  "satisfies hc topo p q \<longleftrightarrow>
     (hc_require_supported_links hc \<longrightarrow>
        list_all (on_link topo (\<lambda>l. is_supported_state (lk_state l))) (path_links (p_elements p))) \<and>
     (hc_require_fresh hc \<longrightarrow> q_outcome q \<noteq> PQ_REVALIDATION_REQUIRED \<and> \<not> q_stale q) \<and>
     (hc_require_direct hc \<longrightarrow> p_direct p) \<and>
     (\<forall>b. hc_min_nominal_bandwidth_bps hc = Some b \<longrightarrow> b \<le> q_nominal_bandwidth_bps q) \<and>
     (\<forall>b. hc_min_measured_bandwidth_bps hc = Some b \<longrightarrow>
        (\<exists>bw. q_measured_bandwidth_bps q = Some bw \<and> \<not> f64_lt bw b)) \<and>
     (\<forall>t. hc_required_technology hc = Some t \<longrightarrow>
        list_all (on_link topo (\<lambda>l. lk_technology l = t)) (path_links (p_elements p))) \<and>
     (\<forall>n. hc_max_hops hc = Some n \<longrightarrow> p_hop_count p \<le> n) \<and>
     (hc_exclude_degraded hc \<longrightarrow> q_degraded_links q = 0) \<and>
     (hc_exclude_down hc \<longrightarrow> q_down_links q = 0) \<and>
     (hc_exclude_contended hc \<longrightarrow> \<not> q_contended q)"

lemma hard_rejection_None: "hard_rejection hc topo p q = None \<longleftrightarrow> satisfies hc topo p q"
proof -
  have 1: "check_supported hc topo p = None \<longleftrightarrow> (hc_require_supported_links hc \<longrightarrow>
      list_all (on_link topo (\<lambda>l. is_supported_state (lk_state l))) (path_links (p_elements p)))"
    by (simp add: check_supported_def check_links_supported_None)
  have 2: "check_fresh hc q = None \<longleftrightarrow>
      (hc_require_fresh hc \<longrightarrow> q_outcome q \<noteq> PQ_REVALIDATION_REQUIRED \<and> \<not> q_stale q)"
    by (simp add: check_fresh_def)
  have 3: "check_direct hc p = None \<longleftrightarrow> (hc_require_direct hc \<longrightarrow> p_direct p)"
    by (simp add: check_direct_def)
  have 4: "check_min_nominal hc q = None \<longleftrightarrow>
      (\<forall>b. hc_min_nominal_bandwidth_bps hc = Some b \<longrightarrow> b \<le> q_nominal_bandwidth_bps q)"
    by (auto simp: check_min_nominal_def not_less [symmetric] split: option.split)
  have 5: "check_min_measured hc q = None \<longleftrightarrow> (\<forall>b. hc_min_measured_bandwidth_bps hc = Some b \<longrightarrow>
      (\<exists>bw. q_measured_bandwidth_bps q = Some bw \<and> \<not> f64_lt bw b))"
    by (simp add: check_min_measured_def split: option.split)
  have 6: "check_required_technology hc topo p = None \<longleftrightarrow> (\<forall>t. hc_required_technology hc = Some t \<longrightarrow>
      list_all (on_link topo (\<lambda>l. lk_technology l = t)) (path_links (p_elements p)))"
    by (simp add: check_required_technology_def check_technology_None split: option.split)
  have 7: "check_max_hops hc p = None \<longleftrightarrow> (\<forall>n. hc_max_hops hc = Some n \<longrightarrow> p_hop_count p \<le> n)"
    by (simp add: check_max_hops_def not_less split: option.split)
  have 8: "check_degraded hc q = None \<longleftrightarrow> (hc_exclude_degraded hc \<longrightarrow> q_degraded_links q = 0)"
    "check_down hc q = None \<longleftrightarrow> (hc_exclude_down hc \<longrightarrow> q_down_links q = 0)"
    "check_contended hc q = None \<longleftrightarrow> (hc_exclude_contended hc \<longrightarrow> \<not> q_contended q)"
    by (simp_all add: check_degraded_def check_down_def check_contended_def word_gt_0)
  show ?thesis
    unfolding hard_rejection_def first_rejection_None satisfies_def list.pred_inject 1 2 3 4 5 6 7 8
    by simp
qed

lemma supported_not_reval:
  assumes "list_all (on_link topo (\<lambda>l. is_supported_state (lk_state l))) (path_links (p_elements p))"
  shows "q_outcome (compute_quality topo ms p) \<noteq> PQ_REVALIDATION_REQUIRED
    \<and> \<not> q_stale (compute_quality topo ms p)"
proof -
  have "\<not> list_ex (on_link topo (\<lambda>l. lk_state l \<in> {LS_REVALIDATION_REQUIRED, LS_STALE}))
      (path_links (p_elements p))"
    using assms by (auto simp: list_all_iff list_ex_iff on_link_def is_supported_state_def
        split: option.splits)
  then show ?thesis
    by (auto simp: compute_quality_outcome_eq compute_quality_stale_eq quality_outcome_def path_scan_flags)
qed

section \<open>The view of a well-formed registry\<close>

lemma consistent_view_fields:
  assumes "Registry.consistent_view s w = (view, w')"
  shows "snap_generation (view_topology view) = topology_gen s"
    "snap_devices (view_topology view) = sort_key dev_id (um_values (devices s))"
    "snap_links (view_topology view) = sort_key lk_id (um_values (links s))"
    "view_measurements view = measurement_history s"
  using assms by (auto simp: Registry.consistent_view_def build_snapshot_def split: prod.splits)

lemma find_as_um_find: "find (\<lambda>x. f x = i) xs = um_find (map (\<lambda>x. (f x, x)) xs) i"
  by (induction xs) (simp_all add: um_find_def)

lemma find_in_view:
  assumes "wf_state lms s" "Registry.consistent_view s w = (view, w')"
  shows "find_device (view_topology view) i = device s i" "find_link (view_topology view) j = link s j"
  using wf_invars [OF assms(1)] wf_keyed [OF assms(1)]
    sorted_listing_find [of "devices s" dev_id] sorted_listing_find [of "links s" lk_id]
  by (simp_all add: find_device_def find_link_def find_as_um_find device_def link_def
      consistent_view_fields [OF assms(2)])

text \<open>Two views of one state differ only in the identity and creation time of the snapshot.\<close>

lemma snapshot_stamp_irrelevant:
  fixes t t' :: topology_snapshot
  assumes t'_def: "t' = t\<lparr>snap_id := x, snap_created_at := y\<rparr>"
  shows "find_link t' = find_link t" "find_device t' = find_device t"
    "enumerate_paths_impl t' = enumerate_paths_impl t"
    "compute_quality t' = compute_quality t" "satisfies hc t' = satisfies hc t"
proof -
  show fl: "find_link t' = find_link t" and fd: "find_device t' = find_device t"
    by (simp_all add: fun_eq_iff find_link_def find_device_def t'_def)
  have adj: "build_adjacency t' = build_adjacency t" by (simp add: build_adjacency_def t'_def)
  have mk: "make_path t' = make_path t" "traverses_switch t' = traverses_switch t"
    by (simp_all add: fun_eq_iff make_path_def is_nvlink_def [abs_def] traverses_switch_def fl fd)
  have "enumerate_paths_impl t' a b lms = enumerate_paths_impl t a b lms" for a b lms
  proof (cases "is_nil a \<or> is_nil b \<or> a = b")
    case False
    then show ?thesis by (simp add: enumerate_paths_impl_listing adj mk)
  qed (simp add: enumerate_paths_impl_def)
  then show "enumerate_paths_impl t' = enumerate_paths_impl t" by (simp add: fun_eq_iff)
  have scan: "scan_link t' = scan_link t" by (intro ext) (simp only: scan_link_def fl)
  have gen: "snap_generation t' = snap_generation t" by (simp add: t'_def)
  show "compute_quality t' = compute_quality t"
    by (intro ext) (simp only: compute_quality_def fd scan gen)
  show "satisfies hc t' = satisfies hc t"
    by (simp add: fun_eq_iff satisfies_def on_link_def [abs_def] fl)
qed

lemma view_unique:
  assumes "Registry.consistent_view s w = (view, w')" "Registry.consistent_view s v = (view2, v')"
  obtains x y where "view_topology view2 = (view_topology view)\<lparr>snap_id := x, snap_created_at := y\<rparr>"
    "view_measurements view2 = view_measurements view"
  using assms by (auto simp: Registry.consistent_view_def build_snapshot_def split: prod.splits)

lemma start_decision_fields:
  assumes "start_decision a b pid w = (d, w')"
  shows "rd_source d = a" "rd_target d = b" "\<not> rd_executable d" "rd_selected d = None"
    "rd_outcome d = RD_NO_ROUTE" "rd_rejected d = []" "rd_candidates_considered d = []"
  using assms by (auto simp: start_decision_def default_route_decision_def split: prod.splits)

definition scored_candidates ::
  "limits \<Rightarrow> Fabric_Types.consistent_view \<Rightarrow> route_policy \<Rightarrow> device_id \<Rightarrow> device_id \<Rightarrow> eval list" where
  "scored_candidates lms view policy a b =
     score_evals policy (cs_evals (evaluate_candidates (pol_hard policy) (view_topology view)
       (view_measurements view) (enumerate_paths_impl (view_topology view) a b lms)))"

text \<open>The branches of a decision, in terms of its candidates.\<close>

lemma decide_in_view_selected:
  assumes "decide_in_view lms view obs policy d0 = d" "rd_selected d0 = None" "\<not> rd_executable d0"
  shows "(rd_selected d = None \<and> \<not> rd_executable d) \<or>
    (\<exists>best rest sd td. stable_sort eval_before (scored_candidates lms view policy (rd_source d0) (rd_target d0))
         = best # rest \<and>
       find_device (view_topology view) (rd_source d0) = Some sd \<and>
       find_device (view_topology view) (rd_target d0) = Some td \<and>
       rd_selected d = Some (p_id (ev_path best)) \<and>
       rd_outcome d = route_outcome (q_outcome (ev_quality best)) \<and>
       (rd_executable d \<longleftrightarrow> rd_outcome d \<in> {RD_ROUTE_ALLOWED, RD_ROUTE_ALLOWED_DEGRADED}) \<and>
       rd_source_generation d = dev_generation sd \<and> rd_target_generation d = dev_generation td \<and>
       rd_topology_generation d = snap_generation (view_topology view))"
  using assms
  by (auto simp: decide_in_view_def select_route_def scored_candidates_def Let_def
      split: option.splits list.splits if_splits)

lemma decide_in_view_endpoints:
  "decide_in_view lms view obs policy d0 = d \<Longrightarrow> rd_source d = rd_source d0 \<and> rd_target d = rd_target d0"
  by (auto simp: decide_in_view_def select_route_def Let_def split: option.splits list.splits if_splits)

lemma stable_sort_member: "stable_sort lt xs = best # rest \<Longrightarrow> best \<in> set xs"
proof -
  have "set (insert_before lt x ys) = insert x (set ys)" for x ys by (induction ys) auto
  then have "set (stable_sort lt xs) = set xs" by (induction xs) (simp_all add: stable_sort_def)
  then show "stable_sort lt xs = best # rest \<Longrightarrow> best \<in> set xs" by auto
qed

lemma allowed_outcome:
  "route_outcome o' \<in> {RD_ROUTE_ALLOWED, RD_ROUTE_ALLOWED_DEGRADED} \<longleftrightarrow>
   o' \<in> {PQ_HEALTHY, PQ_DEGRADED, PQ_CONTENDED}"
  by (cases o') auto

definition link_usable :: "link_record \<Rightarrow> bool" where
  "link_usable l \<longleftrightarrow> lk_state l \<notin>
     {LS_DOWN, LS_ABSENT, LS_UNREACHABLE, LS_UNSUPPORTED, LS_REVALIDATION_REQUIRED, LS_STALE}"

lemma usable_iff:
  "on_link topo link_usable i \<longleftrightarrow> \<not> link_is_down topo i \<and>
     \<not> on_link topo (\<lambda>l. lk_state l = LS_UNSUPPORTED) i \<and>
     \<not> on_link topo (\<lambda>l. lk_state l \<in> {LS_REVALIDATION_REQUIRED, LS_STALE}) i"
  by (auto simp: on_link_def link_is_down_def link_usable_def split: option.splits)

lemma good_outcome_links_usable:
  assumes "q_outcome (compute_quality topo ms p) \<in> {PQ_HEALTHY, PQ_DEGRADED, PQ_CONTENDED}"
  shows "list_all (on_link topo link_usable) (path_links (p_elements p))"
proof -
  have "\<not> qs_any_down (path_scan topo p) \<and> \<not> qs_any_unsupported (path_scan topo p) \<and>
      \<not> qs_any_reval (path_scan topo p)"
    using assms by (auto simp: compute_quality_outcome_eq quality_outcome_def split: if_splits)
  then show ?thesis
    by (auto simp: path_scan_flags list_all_iff list_ex_iff usable_iff)
qed

lemma executable_route_sound:
  assumes wf: "wf_state lms s" and run: "decide_route lms s s2 a b policy w = (ok d, w')"
    and exe: "rd_executable d" and view: "Registry.consistent_view s v = (view, v')"
  shows "device s a \<noteq> None \<and> device s b \<noteq> None
    \<and> (\<exists>p \<in> set (enumerate_paths_impl (view_topology view) a b lms).
         rd_selected d = Some (p_id p)
       \<and> satisfies (pol_hard policy) (view_topology view) p
           (compute_quality (view_topology view) (view_measurements view) p)
       \<and> (\<forall>i \<in> set (path_links (p_elements p)). \<exists>l. link s i = Some l \<and> link_usable l))"
proof -
  obtain d0 w0 where start: "start_decision a b (pol_id policy) w = (d0, w0)" by fastforce
  obtain view0 w1 where view0: "Registry.consistent_view s w0 = (view0, w1)" by fastforce
  note start_facts = start_decision_fields [OF start]
  have d: "decide_in_view lms view0 (observations s2) policy d0 = d"
    using run start view0 by (simp add: decide_route_def)
  then obtain best rest where sorted: "stable_sort eval_before (scored_candidates lms view0 policy a b) = best # rest"
    and ends: "find_device (view_topology view0) a \<noteq> None" "find_device (view_topology view0) b \<noteq> None"
    and sel: "rd_selected d = Some (p_id (ev_path best))"
    and good: "route_outcome (q_outcome (ev_quality best)) \<in> {RD_ROUTE_ALLOWED, RD_ROUTE_ALLOWED_DEGRADED}"
    using decide_in_view_selected [OF d start_facts(4,3)] exe start_facts by auto
  let ?t = "view_topology view0" and ?ms = "view_measurements view0" and ?p = "ev_path best"
  have best: "?p \<in> set (enumerate_paths_impl ?t a b lms)" "eligible (pol_hard policy) ?t ?ms ?p"
      "ev_quality best = compute_quality ?t ?ms ?p"
    using in_scored_candidates stable_sort_member [OF sorted] unfolding scored_candidates_def by blast+
  have "list_all (on_link ?t link_usable) (path_links (p_elements ?p))"
    using good best(3) good_outcome_links_usable unfolding allowed_outcome by simp
  then have links: "\<forall>i \<in> set (path_links (p_elements ?p)). \<exists>l. link s i = Some l \<and> link_usable l"
    by (auto simp: list_all_iff on_link_def find_in_view [OF wf view0] split: option.splits)
  obtain x y where stamp: "view_topology view = ?t\<lparr>snap_id := x, snap_created_at := y\<rparr>"
    and ms: "view_measurements view = ?ms" by (rule view_unique [OF view0 view])
  note same = snapshot_stamp_irrelevant [OF stamp] ms
  have "?p \<in> set (enumerate_paths_impl (view_topology view) a b lms)"
    "satisfies (pol_hard policy) (view_topology view) ?p
       (compute_quality (view_topology view) (view_measurements view) ?p)"
    using best same by (simp_all add: eligible_def hard_rejection_None)
  then show ?thesis
    using ends links sel by (auto simp: find_in_view [OF wf view0])
qed

text \<open>
  C13: an executable decision is sound. When \<open>decide_route\<close> returns an executable decision on
  a well-formed registry, both endpoints are stored, the selected id is that of an enumerated path
  between them that satisfies every hard constraint of the policy, and every link of that path is
  stored and neither down, absent, unreachable, unsupported, stale nor waiting for revalidation.
\<close>

theorem decide_route_executable_sound:
  assumes wf: "wf_state lms s" and run: "decide_route lms s s2 a b policy w = (ok d, w')"
    and exe: "rd_executable d" and view: "Registry.consistent_view s v = (view, v')"
  shows "device s a \<noteq> None \<and> device s b \<noteq> None
    \<and> (\<exists>p \<in> set (enumerate_paths_impl (view_topology view) a b lms).
         rd_selected d = Some (p_id p)
       \<and> satisfies (pol_hard policy) (view_topology view) p
           (compute_quality (view_topology view) (view_measurements view) p)
       \<and> (\<forall>i \<in> set (path_links (p_elements p)). \<exists>l. link s i = Some l \<and> link_usable l))"
  using executable_route_sound [OF assms] .

definition route_example :: "world \<times> state" where
  \<comment> \<open>two devices and one link that states a bandwidth\<close>
  "route_example = run_ops default_limits
     [Upsert_Device (example_device 1 1), Upsert_Device (example_device 2 1),
      Upsert_Link ((example_link 7 1 2)\<lparr>lk_capability :=
        default_capability\<lparr>cap_nominal_bandwidth_bps := 50\<rparr>\<rparr>)] example_world initial_state"

lemma route_example_reachable: "reachable default_limits (fst route_example) (snd route_example)"
  using reachable_run [OF reachable.start] by (metis route_example_def prod.collapse)

lemmas route_example_wf = reachable_wf [OF route_example_reachable]

lemmas route_eval = route_example_def example_eval decide_route_def start_decision_def
  default_route_decision_def fresh_generation_def Registry.consistent_view_def build_snapshot_def
  um_values_def decide_in_view_def select_route_def enumerate_paths_impl_def build_adjacency_def
  add_link_edges_def push_edge_def make_path_def traverses_switch_def evaluate_candidates_def
  initial_candidates_def evaluate_candidate_def compute_quality_def scan_link_def scan_states_def
  scan_capability_def initial_scan_def best_measurement_def quality_outcome_def hard_rejection_def
  check_supported_def check_fresh_def check_direct_def check_min_nominal_def check_min_measured_def
  check_required_technology_def check_max_hops_def check_degraded_def check_down_def
  check_contended_def default_policy_def default_hard_constraint_def is_supported_state_def
  find_device_def find_link_def score_evals_def stable_sort_def default_capability_def
  count_if_def is_nvlink_def less_ident_def less_eq_ident_def

lemma route_example_decision:
  "rd_executable (projr (fst (decide_route default_limits (snd route_example) (snd route_example)
     (Ident 1) (Ident 2) default_policy (fst route_example))))"
  by (simp add: route_eval Let_def)

lemma route_example_run:
  obtains d w' where "decide_route default_limits (snd route_example) (snd route_example)
      (Ident 1) (Ident 2) default_policy (fst route_example) = (ok d, w')" "rd_executable d"
  using route_example_decision by (auto simp: decide_route_def split: prod.splits)

theorem decide_route_executable_sound_witness:
  "\<exists>d. fst (decide_route default_limits (snd route_example) (snd route_example)
        (Ident 1) (Ident 2) default_policy (fst route_example)) = ok d
     \<and> rd_selected d \<noteq> None"
proof -
  obtain d w' where run: "decide_route default_limits (snd route_example) (snd route_example)
      (Ident 1) (Ident 2) default_policy (fst route_example) = (ok d, w')" and exe: "rd_executable d"
    by (rule route_example_run)
  obtain view v' where "Registry.consistent_view (snd route_example) (fst route_example) = (view, v')"
    by fastforce
  from decide_route_executable_sound [OF route_example_wf run exe this] show ?thesis
    using run by auto
qed

section \<open>Ranking\<close>









definition route_example_view :: Fabric_Types.consistent_view where
  "route_example_view = fst (Registry.consistent_view (snd route_example) (fst route_example))"

definition route_example_start :: route_decision where
  "route_example_start = fst (start_decision (Ident 1) (Ident 2) (Ident 0) (fst route_example))"


section \<open>Currency of decisions\<close>

lemma is_route_executable_iff:
  assumes "wf_state lms s"
  shows "fst (is_route_executable s d v) \<longleftrightarrow> rd_executable d \<and> topology_gen s = rd_topology_generation d \<and>
    map_option dev_generation (device s (rd_source d)) = Some (rd_source_generation d) \<and>
    map_option dev_generation (device s (rd_target d)) = Some (rd_target_generation d)"
proof -
  obtain view v' where view: "Registry.consistent_view s v = (view, v')" by fastforce
  show ?thesis
    using find_in_view(1) [OF assms view] consistent_view_fields(1) [OF view]
    by (auto simp: is_route_executable_def view Let_def split: option.split)
qed

lemma decide_route_stamps:
  assumes "wf_state lms s" "decide_route lms s s2 a b policy w = (ok d, w')" "rd_executable d"
  shows "rd_topology_generation d = topology_gen s \<and> rd_source d = a \<and> rd_target d = b \<and>
    map_option dev_generation (device s a) = Some (rd_source_generation d) \<and>
    map_option dev_generation (device s b) = Some (rd_target_generation d)"
proof -
  obtain d0 w0 where start: "start_decision a b (pol_id policy) w = (d0, w0)" by fastforce
  obtain view w1 where view: "Registry.consistent_view s w0 = (view, w1)" by fastforce
  note f = start_decision_fields [OF start]
  have d: "decide_in_view lms view (observations s2) policy d0 = d"
    using assms(2) start view by (simp add: decide_route_def)
  from decide_in_view_selected [OF d f(4,3)] decide_in_view_endpoints [OF d] assms(3) show ?thesis
    using find_in_view(1) [OF assms(1) view] consistent_view_fields(1) [OF view] by (auto simp: f)
qed

text \<open>
  C15: a decision is current in the state it was made in: \<open>is_route_executable\<close> answers exactly
  whether the decision is executable, and revalidating an executable decision there returns it
  unchanged.
\<close>

theorem decided_route_is_current:
  assumes wf: "wf_state lms s" and run: "decide_route lms s s2 a b policy w = (ok d, w')"
  shows "fst (is_route_executable s d v) = rd_executable d
    \<and> (rd_executable d \<longrightarrow> fst (revalidate_route s d v) = ok d)"
proof -
  have "fst (is_route_executable s d v) = rd_executable d"
    using is_route_executable_iff [OF wf] decide_route_stamps [OF assms] by auto
  then show ?thesis by (auto simp: revalidate_route_def split: prod.splits)
qed

theorem decided_route_is_current_witness:
  "\<exists>d. fst (decide_route default_limits (snd route_example) (snd route_example)
        (Ident 1) (Ident 2) default_policy (fst route_example)) = ok d
     \<and> fst (is_route_executable (snd route_example) d (fst route_example))"
proof -
  obtain d w' where run: "decide_route default_limits (snd route_example) (snd route_example)
      (Ident 1) (Ident 2) default_policy (fst route_example) = (ok d, w')" "rd_executable d"
    by (rule route_example_run)
  then show ?thesis using decided_route_is_current [OF route_example_wf run(1)] by auto
qed

fun generations_stay_valid :: "limits \<Rightarrow> registry_op list \<Rightarrow> world \<Rightarrow> state \<Rightarrow> bool" where
  \<comment> \<open>no step of the run wraps the 64-bit topology generation to zero\<close>
  "generations_stay_valid lms [] w s = True"
| "generations_stay_valid lms (x # xs) w s =
     (case apply_op lms x w s of
        (r, w', s') \<Rightarrow> gen_valid (topology_gen s') \<and> generations_stay_valid lms xs w' s')"

lemma run_ops_generation:
  "run_ops lms xs w s = (w', s') \<Longrightarrow> generations_stay_valid lms xs w s \<Longrightarrow> topology_gen s \<le> topology_gen s'"
proof (induction xs arbitrary: w s)
  case (Cons x xs)
  then show ?case using op.generation_monotone [of lms x w s] by (force split: prod.splits)
qed simp

lemma generations_stay_valid_append:
  "run_ops lms xs w s = (w1, s1) \<Longrightarrow> generations_stay_valid lms (xs @ ys) w s \<longleftrightarrow>
    generations_stay_valid lms xs w s \<and> generations_stay_valid lms ys w1 s1"
  by (induction xs arbitrary: w s) (auto split: prod.splits)

text \<open>
  C16: a topology change invalidates every earlier decision. After a decision has been made in
  \<open>s\<close>, run any mutations of the registry; if one of them, after any others (\<open>xs\<close>) and before any others
  (\<open>ys\<close>), changes the topology, the decision is no longer executable in the end, and revalidating it gives a
  fresh, non-executable decision with outcome \<open>REVALIDATION_REQUIRED\<close>, as long as the 64-bit generation does
  not wrap on the way.
\<close>

theorem topology_change_invalidates_decision:
  assumes wf: "wf_state lms s" and run: "decide_route lms s s2 a b policy w = (ok d, w')"
    and before: "run_ops lms xs w0 s = (w1, s1)"
    and change: "apply_op lms x w1 s1 = (r, w2, s')" and changed: "\<not> same_topology s1 s'"
    and rest: "run_ops lms ys w2 s' = (w3, s'')"
    and valid: "generations_stay_valid lms (xs @ x # ys) w0 s"
  shows "\<not> fst (is_route_executable s'' d v)
    \<and> (\<exists>nd. fst (revalidate_route s'' d v) = ok nd \<and> \<not> rd_executable nd
          \<and> rd_outcome nd = RD_REVALIDATION_REQUIRED \<and> rd_source nd = rd_source d \<and> rd_target nd = rd_target d)"
proof -
  have wf'': "wf_state lms s''"
    using run_ops_wf [OF wf before] op.keeps_wf change run_ops_wf rest by blast
  have valid': "generations_stay_valid lms xs w0 s" "generations_stay_valid lms (x # ys) w1 s1"
    using valid generations_stay_valid_append before by auto
  have "topology_gen s \<le> topology_gen s1" by (rule run_ops_generation [OF before valid'(1)])
  also have "topology_gen s1 < topology_gen s''"
    using op.changed_topology_advances [OF change changed] run_ops_generation [OF rest] valid'(2) change by simp
  finally have "\<not> fst (is_route_executable s'' d v)"
    using is_route_executable_iff [OF wf''] decide_route_stamps [OF wf run] by auto
  then show ?thesis
    by (auto simp: revalidate_route_def start_decision_fields split: prod.splits)
qed

theorem topology_change_invalidates_decision_witness:
  "\<exists>d. fst (decide_route default_limits (snd route_example) (snd route_example)
        (Ident 1) (Ident 2) default_policy (fst route_example)) = ok d
     \<and> rd_executable d
     \<and> \<not> fst (is_route_executable (snd (run_ops default_limits [Publish_Measurement default_measurement, Remove_Link (Ident 7)]
           (fst route_example) (snd route_example))) d (fst route_example))"
proof -
  obtain d w' where run: "decide_route default_limits (snd route_example) (snd route_example)
      (Ident 1) (Ident 2) default_policy (fst route_example) = (ok d, w')" "rd_executable d"
    by (rule route_example_run)
  obtain w1 s1 where before: "run_ops default_limits [Publish_Measurement default_measurement] (fst route_example)
      (snd route_example) = (w1, s1)" by force
  obtain r w2 s' where change: "apply_op default_limits (Remove_Link (Ident 7)) w1 s1 = (r, w2, s')"
    by (metis prod_cases3)
  have s1: "topology_gen s1 = topology_gen (snd route_example)" "links s1 = links (snd route_example)"
    using before by (auto simp: publish_measurement_def split: prod.splits)
  have changes: "\<not> same_topology s1 s'" "gen_valid (topology_gen s')" "gen_valid (topology_gen s1)"
    using change s1 by (auto simp: same_topology_def remove_link_def um_erase_def route_example_def example_eval Let_def)
  then have "generations_stay_valid default_limits ([Publish_Measurement default_measurement] @ Remove_Link (Ident 7) # [])
      (fst route_example) (snd route_example)"
    using before change by (auto split: prod.splits)
  then have "\<not> fst (is_route_executable s' d (fst route_example))"
    using topology_change_invalidates_decision [OF route_example_wf run(1) before change changes(1), of "[]"] by simp
  then show ?thesis using run before change by (auto split: prod.splits)
qed

section \<open>Outcomes and accounting\<close>

lemma route_outcome_never:
  "route_outcome o' \<notin> {RD_STALE_TOPOLOGY, RD_ENDPOINT_STALE, RD_LINK_STALE, RD_POLICY_REJECTED}"
  by (cases o') auto

lemma route_outcome_reval: "route_outcome o' = RD_REVALIDATION_REQUIRED \<longleftrightarrow> o' = PQ_REVALIDATION_REQUIRED"
  by (cases o') auto

lemma eligible_supported:
  assumes "hc_require_supported_links hc" "eligible hc topo ms p"
  shows "q_outcome (compute_quality topo ms p) \<noteq> PQ_REVALIDATION_REQUIRED"
  using assms supported_not_reval [of topo p ms]
  by (simp add: eligible_def hard_rejection_None satisfies_def)

lemma no_freshness_when_supported:
  assumes "hc_require_supported_links hc"
  shows "\<not> cs_any_freshness (evaluate_candidates hc topo ms ps)"
  using assms supported_not_reval [of topo _ ms]
  by (auto simp: candidate_facts check_supported_def check_links_supported_None check_fresh_def)

text \<open>
  Which outcomes a decision can have. No decision ever reports a stale topology, endpoint or
  link, and under a policy that requires supported links (the default policy does) none reports
  that revalidation is required: links waiting for revalidation are rejected by the supported-link
  check before the freshness check can record them.
\<close>

theorem decide_route_outcomes:
  assumes run: "decide_route lms s s2 a b policy w = (ok d, w')"
  shows "rd_outcome d \<notin> {RD_STALE_TOPOLOGY, RD_ENDPOINT_STALE, RD_LINK_STALE}
    \<and> (hc_require_supported_links (pol_hard policy) \<longrightarrow> rd_outcome d \<noteq> RD_REVALIDATION_REQUIRED)"
proof -
  obtain d0 w0 where start: "start_decision a b (pol_id policy) w = (d0, w0)" by fastforce
  obtain view w1 where view: "Registry.consistent_view s w0 = (view, w1)" by fastforce
  let ?c = "evaluate_candidates (pol_hard policy) (view_topology view) (view_measurements view)
      (enumerate_paths_impl (view_topology view) a b lms)"
  have d: "decide_in_view lms view (observations s2) policy d0 = d"
    using run start view by (simp add: decide_route_def)
  have "rd_outcome d = RD_NO_ROUTE \<or> rd_outcome d = no_candidate_outcome ?c \<or>
      (\<exists>best \<in> set (score_evals policy (cs_evals ?c)). rd_outcome d = route_outcome (q_outcome (ev_quality best)))"
    using d stable_sort_member [of eval_before "score_evals policy (cs_evals ?c)"]
    by (auto simp: decide_in_view_def select_route_def Let_def start_decision_fields [OF start]
        split: option.splits list.splits if_splits)
  then show ?thesis
  proof (elim disjE bexE)
    assume "rd_outcome d = no_candidate_outcome ?c"
    then show ?thesis
      using no_freshness_when_supported [of "pol_hard policy" "view_topology view" "view_measurements view"]
      by (auto simp: no_candidate_outcome_def)
  next
    fix best assume "best \<in> set (score_evals policy (cs_evals ?c))"
      and out: "rd_outcome d = route_outcome (q_outcome (ev_quality best))"
    then have "eligible (pol_hard policy) (view_topology view) (view_measurements view) (ev_path best)"
      "ev_quality best = compute_quality (view_topology view) (view_measurements view) (ev_path best)"
      using in_scored_candidates by blast+
    then show ?thesis
      using out eligible_supported route_outcome_never [of "q_outcome (ev_quality best)"]
      by (auto simp: route_outcome_reval)
  qed simp
qed

theorem decide_route_outcomes_witness:
  "\<exists>d. fst (decide_route default_limits (snd route_example) (snd route_example)
        (Ident 1) (Ident 2) default_policy (fst route_example)) = ok d
     \<and> rd_outcome d \<noteq> RD_REVALIDATION_REQUIRED"
proof -
  obtain d w' where run: "decide_route default_limits (snd route_example) (snd route_example)
      (Ident 1) (Ident 2) default_policy (fst route_example) = (ok d, w')"
    by (rule route_example_run)
  then show ?thesis
    using decide_route_outcomes [OF run] by (auto simp: default_policy_def default_hard_constraint_def)
qed

lemma unsupported_reason_named: "unsupported_reason st \<noteq> RR_NONE"
  by (simp add: unsupported_reason_def)

lemma check_links_named: "check_links_supported topo is = Some r \<Longrightarrow> fst r \<noteq> RR_NONE"
  by (induction "is") (auto simp: unsupported_reason_named split: option.splits if_splits)

lemma check_technology_named: "check_technology topo t is = Some r \<Longrightarrow> fst r \<noteq> RR_NONE"
  by (induction "is") (auto split: option.splits if_splits)

lemma first_rejection_Some: "first_rejection cs = Some r \<Longrightarrow> Some r \<in> set cs"
  by (induction cs) (auto split: option.splits)

lemma checks_named:
  "check_supported hc topo p = Some r \<Longrightarrow> fst r \<noteq> RR_NONE"
  "check_fresh hc q = Some r \<Longrightarrow> fst r \<noteq> RR_NONE"
  "check_direct hc p = Some r \<Longrightarrow> fst r \<noteq> RR_NONE"
  "check_min_nominal hc q = Some r \<Longrightarrow> fst r \<noteq> RR_NONE"
  "check_min_measured hc q = Some r \<Longrightarrow> fst r \<noteq> RR_NONE"
  "check_required_technology hc topo p = Some r \<Longrightarrow> fst r \<noteq> RR_NONE"
  "check_max_hops hc p = Some r \<Longrightarrow> fst r \<noteq> RR_NONE"
  "check_degraded hc q = Some r \<Longrightarrow> fst r \<noteq> RR_NONE"
  "check_down hc q = Some r \<Longrightarrow> fst r \<noteq> RR_NONE"
  "check_contended hc q = Some r \<Longrightarrow> fst r \<noteq> RR_NONE"
  using check_links_named [of topo _ r] check_technology_named [of topo _ _ r]
  by (auto simp: check_supported_def check_fresh_def check_direct_def check_min_nominal_def
      check_min_measured_def check_required_technology_def check_max_hops_def check_degraded_def
      check_down_def check_contended_def split: option.splits if_splits)

lemma hard_rejection_named: "hard_rejection hc topo p q = Some r \<Longrightarrow> fst r \<noteq> RR_NONE"
  unfolding hard_rejection_def
  by (drule first_rejection_Some, unfold list.set insert_iff empty_iff, elim disjE FalseE)
    (rule checks_named, erule sym)+

lemma evaluate_candidates_named:
  "\<forall>rc \<in> set (cs_rejected c). rc_reason rc \<noteq> RR_NONE \<and> rc_detail rc \<noteq> [] \<Longrightarrow>
   \<forall>rc \<in> set (cs_rejected (fold (evaluate_candidate hc topo ms) ps c)). rc_reason rc \<noteq> RR_NONE \<and> rc_detail rc \<noteq> []"
proof (induction ps arbitrary: c)
  case (Cons p ps)
  have "\<forall>rc \<in> set (cs_rejected (evaluate_candidate hc topo ms p c)). rc_reason rc \<noteq> RR_NONE \<and> rc_detail rc \<noteq> []"
    using Cons.prems hard_rejection_named [of hc topo p "compute_quality topo ms p"]
    by (auto simp: evaluate_candidate_def Let_def split: option.split)
  from Cons.IH [OF this] show ?case by simp
qed simp

text \<open>
  C17: nothing is dropped silently. When both endpoints are present, the decision lists every
  enumerated path as considered, in order, and its rejected candidates are exactly the considered
  paths that violate a hard constraint, each with a named reason and a non-empty detail.
\<close>

theorem decide_in_view_accounts:
  assumes "decide_in_view lms view obs policy d0 = d"
    and "find_device (view_topology view) (rd_source d0) \<noteq> None"
    and "find_device (view_topology view) (rd_target d0) \<noteq> None"
    and "rd_rejected d0 = []" "rd_candidates_considered d0 = []"
  defines "paths \<equiv> enumerate_paths_impl (view_topology view) (rd_source d0) (rd_target d0) lms"
  shows "rd_candidates_considered d = map p_id paths
    \<and> map rc_path (rd_rejected d) = map p_id (filter (\<lambda>p. \<not> satisfies (pol_hard policy)
         (view_topology view) p (compute_quality (view_topology view) (view_measurements view) p)) paths)
    \<and> (\<forall>rc \<in> set (rd_rejected d). rc_reason rc \<noteq> RR_NONE \<and> rc_detail rc \<noteq> [])"
proof -
  let ?c = "evaluate_candidates (pol_hard policy) (view_topology view) (view_measurements view) paths"
  have "rd_candidates_considered d = map p_id paths \<and> rd_rejected d = (if paths = [] then [] else cs_rejected ?c)"
    using assms by (auto simp: decide_in_view_def select_route_def Let_def
        split: option.splits list.splits)
  moreover have "map rc_path (cs_rejected ?c) = map p_id (filter (\<lambda>p. \<not> satisfies (pol_hard policy)
         (view_topology view) p (compute_quality (view_topology view) (view_measurements view) p)) paths)"
    by (simp add: candidate_facts eligible_def [abs_def] hard_rejection_None)
  moreover have "\<forall>rc \<in> set (cs_rejected ?c). rc_reason rc \<noteq> RR_NONE \<and> rc_detail rc \<noteq> []"
    unfolding evaluate_candidates_def by (rule evaluate_candidates_named) simp
  ultimately show ?thesis by (auto split: if_splits)
qed

theorem decide_in_view_accounts_witness:
  "length (rd_candidates_considered (decide_in_view default_limits
     (route_example_view\<lparr>view_topology := example_topology\<rparr>) [] default_policy
     (route_example_start\<lparr>rd_target := Ident 3\<rparr>))) = 2"
proof -
  have ends: "rd_source (route_example_start\<lparr>rd_target := Ident 3\<rparr>) = Ident 1"
    "rd_rejected (route_example_start\<lparr>rd_target := Ident 3\<rparr>) = []"
    "rd_candidates_considered (route_example_start\<lparr>rd_target := Ident 3\<rparr>) = []"
    by (simp_all add: route_example_start_def start_decision_def default_route_decision_def
        split: prod.split)
  have "find_device example_topology (Ident 1) \<noteq> None" "find_device example_topology (Ident 3) \<noteq> None"
    by (simp_all add: find_device_def example_topology_def default_device_def)
  moreover have "length (enumerate_paths_impl example_topology (Ident 1) (Ident 3) default_limits) = 2"
    using arg_cong [OF example_enumeration, of length] by simp
  ultimately show ?thesis
    using decide_in_view_accounts [OF refl, of "route_example_view\<lparr>view_topology := example_topology\<rparr>"
        "route_example_start\<lparr>rd_target := Ident 3\<rparr>" default_limits "[]" default_policy] ends by simp
qed

end
