(* ===== verification/Bytes_IO.thy ===== *)
theory Bytes_IO
  imports Fabric_Types "HOL-Library.State_Monad"
begin

text \<open>
  Byte-level writing and reading shared by the durable-state serialiser
  (\<open>src/core/serialization.cpp\<close>) and the wire protocol (\<open>src/core/protocol.cpp\<close>):
  little-endian integers, length-prefixed strings, the bounds-checked readers and the CRC-32.

  A writer call is the bytes it appends. A reader is a computation over the position and the
  sticky \<open>bad\<close> flag: once a read runs past the end it sets the flag and returns a default, and
  every caller is free to go on. The locale \<open>codec\<close> is the contract between a writer and a
  reader of the same value; its lemmas lift it to sequences of values.
\<close>

section \<open>Writers\<close>

definition put_u8 :: "u8 \<Rightarrow> bytes" where
  "put_u8 v = [v]"

definition put_u16 :: "u16 \<Rightarrow> bytes" where
  "put_u16 v = [ucast v, ucast (drop_bit 8 v)]"

definition put_u32 :: "u32 \<Rightarrow> bytes" where
  "put_u32 v = map (\<lambda>i. ucast (drop_bit (8 * i) v AND 0xFF)) [0..<4]"

definition put_u64 :: "u64 \<Rightarrow> bytes" where
  "put_u64 v = map (\<lambda>i. ucast (drop_bit (8 * i) v AND 0xFF)) [0..<8]"

definition put_bool :: "bool \<Rightarrow> bytes" where
  \<comment> \<open>\<open>w.u8(b ? 1u : 0u)\<close>\<close>
  "put_bool b = put_u8 (if b then 1 else 0)"

definition byte_of_char :: "char \<Rightarrow> u8" where
  "byte_of_char c = word_of_nat (of_char c)"

definition char_of_byte :: "u8 \<Rightarrow> char" where
  "char_of_byte b = char_of (unat b)"

definition put_opt_u32 :: "u32 option \<Rightarrow> bytes" where
  "put_opt_u32 v = put_bool (v \<noteq> None) @ (case v of None \<Rightarrow> [] | Some x \<Rightarrow> put_u32 x)"

definition put_opt_id :: "'t ident option \<Rightarrow> bytes" where
  "put_opt_id v = put_bool (v \<noteq> None) @ (case v of None \<Rightarrow> [] | Some x \<Rightarrow> put_u64 (id_value x))"

section \<open>Readers\<close>

record reader =
  rd_bytes :: bytes
  rd_pos :: nat
  rd_bad :: bool

type_synonym 'a read = "(reader, 'a) State_Monad.state"

definition start_reader :: "bytes \<Rightarrow> reader" where
  "start_reader b = \<lparr>rd_bytes = b, rd_pos = 0, rd_bad = False\<rparr>"

definition remaining :: "reader \<Rightarrow> nat \<Rightarrow> bool" where
  "remaining r n \<longleftrightarrow> rd_pos r + n \<le> length (rd_bytes r)"

definition fetch :: "nat \<Rightarrow> reader \<Rightarrow> bytes" where
  \<comment> \<open>the bytes at \<open>b[pos], \<dots>, b[pos + n - 1]\<close>\<close>
  "fetch n r = take n (drop (rd_pos r) (rd_bytes r))"

definition read_with :: "nat \<Rightarrow> (bytes \<Rightarrow> 'a) \<Rightarrow> 'a \<Rightarrow> 'a read" where
  \<comment> \<open>a fixed-size read: \<open>if (!remaining(n)) { bad = true; return dflt; }\<close>, else the value
     of the next \<open>n\<close> bytes\<close>
  "read_with n val dflt = State (\<lambda>r.
     if \<not> remaining r n then (dflt, r\<lparr>rd_bad := True\<rparr>)
     else (val (fetch n r), r\<lparr>rd_pos := rd_pos r + n\<rparr>))"

fun le_value :: "nat \<Rightarrow> bytes \<Rightarrow> 'w::len word" where
  \<comment> \<open>\<open>v |= byte << (8 * i)\<close> for the successive bytes\<close>
  "le_value i [] = 0"
| "le_value i (b # bs) = push_bit (8 * i) (ucast b) OR le_value (Suc i) bs"

definition read_u8 :: "u8 read" where
  "read_u8 = read_with 1 hd 0"

definition read_u16 :: "u16 read" where
  "read_u16 = read_with 2 (le_value 0) 0"

definition read_u32 :: "u32 read" where
  "read_u32 = read_with 4 (le_value 0) 0"

definition read_u64 :: "u64 read" where
  "read_u64 = read_with 8 (le_value 0) 0"

definition mark_bad :: "'a \<Rightarrow> 'a read" where
  "mark_bad v = State (\<lambda>r. (v, r\<lparr>rd_bad := True\<rparr>))"

definition read_str_upto :: "nat \<Rightarrow> string read" where
  \<comment> \<open>a string whose 16-bit length may be at most \<open>cap\<close>\<close>
  "read_str_upto cap = do {
     n \<leftarrow> read_u16;
     State (\<lambda>r.
       if rd_bad r \<or> unat n > cap \<or> \<not> remaining r (unat n) then ([], r\<lparr>rd_bad := True\<rparr>)
       else (map char_of_byte (fetch (unat n) r), r\<lparr>rd_pos := rd_pos r + unat n\<rparr>))}"

definition read_bool :: "bool read" where
  \<comment> \<open>\<open>r.u8() != 0u\<close>\<close>
  "read_bool = do { b \<leftarrow> read_u8; State_Monad.return (b \<noteq> 0) }"

definition read_opt_u32 :: "u32 option read" where
  "read_opt_u32 = do {
     b \<leftarrow> read_u8;
     if b \<noteq> 0 then do { v \<leftarrow> read_u32; State_Monad.return (Some v) } else State_Monad.return None }"

definition read_opt_id :: "'t ident option read" where
  "read_opt_id = do {
     b \<leftarrow> read_u8;
     if b \<noteq> 0 then do { v \<leftarrow> read_u64; State_Monad.return (Some (Ident v)) }
     else State_Monad.return None }"

primrec read_n :: "nat \<Rightarrow> 'a read \<Rightarrow> 'a list read" where
  "read_n 0 m = State_Monad.return []"
| "read_n (Suc n) m = do { x \<leftarrow> m; xs \<leftarrow> read_n n m; State_Monad.return (x # xs) }"

section \<open>What reading back a written value means\<close>

definition decodes :: "'a read \<Rightarrow> 'a \<Rightarrow> bytes \<Rightarrow> bool" where
  \<comment> \<open>wherever the bytes \<open>xs\<close> are next, \<open>m\<close> returns \<open>v\<close> and moves past them\<close>
  "decodes m v xs \<longleftrightarrow> (\<forall>pre post.
     run_state m \<lparr>rd_bytes = pre @ xs @ post, rd_pos = length pre, rd_bad = False\<rparr> =
       (v, \<lparr>rd_bytes = pre @ xs @ post, rd_pos = length pre + length xs, rd_bad = False\<rparr>))"

lemma decodes_return [intro]: "decodes (State_Monad.return v) v []"
  by (simp add: decodes_def)

lemma decodes_bind [intro]:
  assumes "decodes m v xs" "decodes (f v) w ys"
  shows "decodes (State_Monad.bind m f) w (xs @ ys)"
proof -
  have "run_state m \<lparr>rd_bytes = pre @ (xs @ ys) @ post, rd_pos = length pre, rd_bad = False\<rparr> =
      (v, \<lparr>rd_bytes = (pre @ xs) @ ys @ post, rd_pos = length (pre @ xs), rd_bad = False\<rparr>)" for pre post
    using assms(1) by (simp add: decodes_def)
  moreover have "run_state (f v) \<lparr>rd_bytes = (pre @ xs) @ ys @ post, rd_pos = length (pre @ xs), rd_bad = False\<rparr>
      = (w, \<lparr>rd_bytes = (pre @ xs) @ ys @ post, rd_pos = length (pre @ xs) + length ys, rd_bad = False\<rparr>)"
    for pre post
    using assms(2) unfolding decodes_def by blast
  ultimately show ?thesis by (simp add: decodes_def)
qed

lemma decodes_map:
  "decodes m v xs \<Longrightarrow> decodes (State_Monad.bind m (\<lambda>x. State_Monad.return (f x))) (f v) xs"
  using decodes_bind [of m v xs "\<lambda>x. State_Monad.return (f x)" "f v" "[]"] by auto

lemma decodes_read_with:
  "length xs = n \<Longrightarrow> val xs = v \<Longrightarrow> decodes (read_with n val dflt) v xs"
  by (auto simp: decodes_def read_with_def remaining_def fetch_def)

locale codec =
  fixes valid :: "'a \<Rightarrow> bool" and enc :: "'a \<Rightarrow> bytes" and dec :: "'a read"
  assumes decodes_enc: "valid v \<Longrightarrow> decodes dec v (enc v)"
begin

lemma decodes_list:
  "list_all valid vs \<Longrightarrow> decodes (read_n (length vs) dec) vs (concat (map enc vs))"
proof (induction vs)
  case (Cons v vs)
  then have "decodes dec v (enc v)" "decodes (read_n (length vs) dec) vs (concat (map enc vs))"
    using decodes_enc by auto
  then show ?case
    by (auto intro!: decodes_bind decodes_map [where f = "(#) v"])
qed auto

lemma enc_inj:
  assumes "valid v" "valid w" "enc v = enc w"
  shows "v = w"
  using decodes_enc [OF assms(1)] decodes_enc [OF assms(2)] assms(3)
  by (auto simp: decodes_def)

end

section \<open>The primitive codecs\<close>

lemma bit_le_value:
  "bit (le_value i bs :: 'w::len word) n \<longleftrightarrow>
     n < LENGTH('w) \<and> 8 * i \<le> n \<and> n < 8 * (i + length bs) \<and> bit (bs ! (n div 8 - i)) (n mod 8)"
proof (induction bs arbitrary: i)
  case (Cons b bs)
  have head: "bit (push_bit (8 * i) (ucast b) :: 'w word) n \<longleftrightarrow>
      n < LENGTH('w) \<and> 8 * i \<le> n \<and> bit b (n - 8 * i)"
    by (auto simp: bit_push_bit_iff bit_ucast_iff dest: bit_imp_le_length)
  show ?case
  proof (cases "n < 8 * (i + 1)")
    case True
    show ?thesis
    proof (cases "8 * i \<le> n")
      case le: True
      have d: "n div 8 = i" by (rule div_nat_eqI) (use True le in simp_all)
      have "n - 8 * i = n mod 8" using minus_mult_div_eq_mod [of n 8] by (simp add: d)
      then show ?thesis using True le d by (simp add: Cons bit_or_iff head)
    qed (simp add: Cons bit_or_iff head)
  next
    case False
    then have "Suc i \<le> n div 8" using div_le_mono [of "8 * Suc i" n 8] by simp
    with False have n: "n div 8 - i = Suc (n div 8 - Suc i)" "8 \<le> n - 8 * i" "8 * i \<le> n" "8 * Suc i \<le> n"
      by simp_all
    then have "\<not> bit b (n - 8 * i)" using bit_imp_le_length [of b "n - 8 * i"] by auto
    then show ?thesis
      using n by (simp add: Cons bit_or_iff head)
  qed
qed simp

lemma le_value_put:
  assumes "LENGTH('w) = 8 * n"
  shows "le_value 0 (map (\<lambda>i. ucast (drop_bit (8 * i) v AND 0xFF)) [0..<n]) = (v :: 'w::len word)"
proof (rule bit_word_eqI)
  fix k assume k: "k < LENGTH('w)"
  have m: "(0xFF :: 'w word) = mask 8" by (simp add: mask_eq_exp_minus_1)
  have "8 * (k div 8) + k mod 8 = k" by simp
  then have "bit (ucast (drop_bit (8 * (k div 8)) v AND mask 8) :: u8) (k mod 8) \<longleftrightarrow> bit v k"
    using k by (simp only: bit_ucast_iff bit_and_iff bit_drop_bit_eq bit_mask_iff comp_def)
      auto
  then have "bit (ucast (drop_bit (8 * (k div 8)) v AND 0xFF) :: u8) (k mod 8) \<longleftrightarrow> bit v k"
    unfolding m .
  then show "bit (le_value 0 (map (\<lambda>i. ucast (drop_bit (8 * i) v AND 0xFF)) [0..<n]) :: 'w word) k \<longleftrightarrow> bit v k"
    using k assms less_mult_imp_div_less [of k n 8] by (simp add: bit_le_value mult.commute)
qed

lemma put_lengths [simp]: "length (put_u8 a) = 1" "length (put_u16 b) = 2" "length (put_u32 c) = 4" "length (put_u64 d) = 8"
  by (simp_all add: put_u8_def put_u16_def put_u32_def put_u64_def)

lemma le_value_put_u32 [simp]: "le_value 0 (put_u32 v) = v"
  by (simp add: put_u32_def le_value_put)

lemma le_value_inj:
  assumes "(le_value 0 xs :: 'w::len word) = le_value 0 ys" "length xs = length ys" "8 * length xs \<le> LENGTH('w)"
  shows "xs = ys"
proof (rule nth_equalityI)
  fix j assume j: "j < length xs"
  show "xs ! j = ys ! j"
  proof (rule bit_word_eqI)
    fix k assume k: "k < LENGTH(8)"
    have "bit (le_value 0 zs :: 'w word) (8 * j + k) \<longleftrightarrow> bit (zs ! j) k" if "length zs = length xs" for zs
      using j k that assms(3) by (simp add: bit_le_value)
    then show "bit (xs ! j) k \<longleftrightarrow> bit (ys ! j) k" using assms(1,2) by metis
  qed
qed (rule assms(2))

lemma put_u32_le_value: "length xs = 4 \<Longrightarrow> put_u32 (le_value 0 xs) = xs"
  by (rule le_value_inj [where 'w = 32]) simp_all

interpretation u8c: codec "\<lambda>_. True" put_u8 read_u8
  by unfold_locales (auto simp: put_u8_def read_u8_def intro: decodes_read_with)

lemma decodes_u16: "decodes read_u16 v (put_u16 v)"
proof -
  have "le_value 0 [ucast v, ucast (drop_bit 8 v)] = v"
  proof (rule bit_word_eqI)
    fix k assume "k < LENGTH(16)"
    then show "bit (le_value 0 [ucast v, ucast (drop_bit 8 v)] :: u16) k \<longleftrightarrow> bit v k"
      by (cases "k < 8") (auto simp: bit_or_iff bit_push_bit_iff bit_ucast_iff bit_drop_bit_eq
          dest: bit_imp_le_length)
  qed
  then show ?thesis by (auto simp: put_u16_def read_u16_def intro: decodes_read_with)
qed

interpretation u16c: codec "\<lambda>_. True" put_u16 read_u16
  by unfold_locales (rule decodes_u16)

interpretation u32c: codec "\<lambda>_. True" put_u32 read_u32
  by unfold_locales (auto simp: put_u32_def read_u32_def intro!: decodes_read_with le_value_put)

interpretation u64c: codec "\<lambda>_. True" put_u64 read_u64
  by unfold_locales (auto simp: put_u64_def read_u64_def intro!: decodes_read_with le_value_put)

interpretation boolc: codec "\<lambda>_. True" put_bool read_bool
proof
  fix v
  show "decodes read_bool v (put_bool v)"
    using decodes_map [OF u8c.decodes_enc [OF TrueI], of "\<lambda>b. b \<noteq> 0" "if v then 1 else 0"]
    by (simp add: read_bool_def put_bool_def split: if_splits)
qed

interpretation opt_u32c: codec "\<lambda>_. True" put_opt_u32 read_opt_u32
proof
  fix v
  show "decodes read_opt_u32 v (put_opt_u32 v)"
    unfolding put_opt_u32_def put_bool_def read_opt_u32_def
    by (rule decodes_bind, rule u8c.decodes_enc [OF TrueI])
      (auto split: option.split intro: decodes_map u32c.decodes_enc)
qed

interpretation opt_idc: codec "\<lambda>_. True" put_opt_id read_opt_id
proof
  fix v :: "'a ident option"
  have "decodes (State_Monad.bind read_u64 (\<lambda>v. State_Monad.return (Some (Ident v :: 'a ident)))) (Some x)
      (put_u64 (id_value x))" for x :: "'a ident"
    using decodes_map [OF u64c.decodes_enc [OF TrueI], of "\<lambda>v. Some (Ident v :: 'a ident)" "id_value x"] by simp
  then show "decodes read_opt_id v (put_opt_id v)"
    unfolding put_opt_id_def put_bool_def read_opt_id_def
    by (intro decodes_bind [OF u8c.decodes_enc [OF TrueI]]) (auto split: option.split)
qed

section \<open>Strings\<close>

definition put_chars :: "string \<Rightarrow> bytes" where
  "put_chars s = map byte_of_char s"

lemma char_of_byte_of_char [simp]: "char_of_byte (byte_of_char c) = c"
proof -
  have "of_char c < (256 :: nat)" by simp
  then show ?thesis by (simp add: char_of_byte_def byte_of_char_def unsigned_of_nat take_bit_nat_eq_self)
qed

lemma decodes_str:
  assumes "length s \<le> cap" "length s < 2 ^ 16"
  shows "decodes (read_str_upto cap) s (put_u16 (word_of_nat (length s)) @ put_chars s)"
proof -
  have u: "unat (word_of_nat (length s) :: u16) = length s"
    using assms(2) by (simp add: unsigned_of_nat take_bit_nat_eq_self)
  show ?thesis
    unfolding read_str_upto_def
    by (rule decodes_bind [OF decodes_u16])
      (use assms(1) in \<open>auto simp: decodes_def u remaining_def fetch_def put_chars_def comp_def\<close>)
qed

section \<open>Running a reader on bytes that were written\<close>

definition rdr :: "bytes \<Rightarrow> nat \<Rightarrow> reader" where
  "rdr bs p = \<lparr>rd_bytes = bs, rd_pos = p, rd_bad = False\<rparr>"

lemma rdr_simps [simp]:
  "rd_bytes (rdr bs p) = bs" "rd_pos (rdr bs p) = p" "\<not> rd_bad (rdr bs p)"
  "start_reader bs = rdr bs 0" "remaining (rdr bs p) n \<longleftrightarrow> p + n \<le> length bs"
  by (simp_all add: rdr_def start_reader_def remaining_def)

lemma decodes_run:
  assumes "decodes m v xs" "drop p bs = xs @ rest" "p \<le> length bs"
  shows "run_state m (rdr bs p) = (v, rdr bs (p + length xs))"
    "drop (p + length xs) bs = rest" "p + length xs \<le> length bs"
proof -
  have bs: "bs = take p bs @ xs @ rest" using assms(2) append_take_drop_id [of p bs] by simp
  have "length (take p bs) = p" using assms(3) by simp
  then show "run_state m (rdr bs p) = (v, rdr bs (p + length xs))"
    using assms(1) bs unfolding decodes_def rdr_def by metis
  show "drop (p + length xs) bs = rest"
    using arg_cong [OF assms(2), of "drop (length xs)"] by (simp add: add.commute)
  show "p + length xs \<le> length bs"
    using arg_cong [OF assms(2), of length] assms(3) by simp
qed

lemma decodes_last:
  "decodes m v xs \<Longrightarrow> f v = w \<Longrightarrow> decodes (State_Monad.bind m (\<lambda>x. State_Monad.return (f x))) w xs"
  using decodes_map [of m v xs f] by simp

end
