(* ===== verification/Checksum.thy ===== *)
theory Checksum
  imports Prelude
begin

text \<open>
  The CRC-32 that both the durable-state file and every protocol frame carry (the same function
  appears in \<open>src/core/serialization.cpp\<close> and \<open>src/core/protocol.cpp\<close>). Every step of the
  register is injective, so two byte strings of the same length that differ in exactly one byte
  never have the same checksum.
\<close>

definition crc_bit :: "u32 \<Rightarrow> u32" where
  \<comment> \<open>one round of the inner loop; \<open>mask\<close> is all ones when the low bit is set\<close>
  "crc_bit crc = (let m = - (crc AND 1) in drop_bit 1 crc XOR (0xEDB88320 AND m))"

definition crc_byte :: "u8 \<Rightarrow> u32 \<Rightarrow> u32" where
  "crc_byte b crc = (crc_bit ^^ 8) (crc XOR ucast b)"

definition crc32 :: "bytes \<Rightarrow> u32" where
  "crc32 bs = NOT (fold crc_byte bs 0xFFFFFFFF)"

lemma crc_bit_alt: "crc_bit c = drop_bit 1 c XOR (if bit c 0 then 0xEDB88320 else 0)"
  by (simp add: crc_bit_def Let_def and_one_eq mod_2_eq_odd bit_0)

lemma xor_cancel:
  fixes a b c :: "'w::len word"
  shows "a XOR c = b XOR c \<longleftrightarrow> a = b" "c XOR a = c XOR b \<longleftrightarrow> a = b"
  by (auto simp: bit_eq_iff bit_xor_iff)

lemma crc_bit_top: "bit (crc_bit c) 31 \<longleftrightarrow> bit c 0"
  using bit_imp_le_length [of c 32] by (auto simp: crc_bit_alt bit_xor_iff bit_drop_bit_eq)

lemma crc_bit_inj: "crc_bit c = crc_bit d \<Longrightarrow> c = d"
proof -
  assume eq: "crc_bit c = crc_bit d"
  then have low: "bit c 0 \<longleftrightarrow> bit d 0" using crc_bit_top by metis
  with eq have "drop_bit 1 c = drop_bit 1 d"
    by (simp add: crc_bit_alt xor_cancel)
  then have "bit c (Suc n) \<longleftrightarrow> bit d (Suc n)" for n
    by (metis bit_drop_bit_eq comp_apply plus_1_eq_Suc)
  with low show "c = d" by (intro bit_word_eqI) (metis not0_implies_Suc)
qed

lemma crc_bits_inj: "(crc_bit ^^ n) c = (crc_bit ^^ n) d \<Longrightarrow> c = d"
  by (induction n) (auto dest: crc_bit_inj)

lemma crc_byte_inj: "crc_byte b c = crc_byte b d \<Longrightarrow> c = d"
  unfolding crc_byte_def by (drule crc_bits_inj) (simp add: xor_cancel)

lemma crc_byte_inj_byte: "crc_byte a c = crc_byte b c \<Longrightarrow> a = b"
proof -
  assume "crc_byte a c = crc_byte b c"
  then have "c XOR ucast a = c XOR ucast b" unfolding crc_byte_def by (rule crc_bits_inj)
  then have "(ucast a :: u32) = ucast b" by (simp only: xor_cancel)
  then show "a = b" by (auto simp: bit_eq_iff bit_ucast_iff)
qed

lemma crc_fold_inj: "fold crc_byte bs c = fold crc_byte bs d \<Longrightarrow> c = d"
  by (induction bs arbitrary: c d) (auto dest: crc_byte_inj)

lemma crc32_one_byte:
  assumes "a \<noteq> b"
  shows "crc32 (xs @ a # ys) \<noteq> crc32 (xs @ b # ys)"
proof
  assume "crc32 (xs @ a # ys) = crc32 (xs @ b # ys)"
  then have "crc_byte a (fold crc_byte xs 0xFFFFFFFF) = crc_byte b (fold crc_byte xs 0xFFFFFFFF)"
    by (simp add: crc32_def) (drule crc_fold_inj)
  then show False using assms crc_byte_inj_byte by blast
qed

lemma crc32_list_update:
  assumes "i < length bs" "bs ! i \<noteq> b"
  shows "crc32 (bs[i := b]) \<noteq> crc32 bs"
  using crc32_one_byte [OF assms(2), of "take i bs" "drop (Suc i) bs"] assms(1)
  by (simp add: upd_conv_take_nth_drop id_take_nth_drop [symmetric])

end
