(* ===== verification/Serialization.thy ===== *)
theory Serialization
  imports Bytes_IO Checksum
begin

text \<open>
  Binary serialisation of the durable state (\<open>serialization.hpp\<close>,
  \<open>src/core/serialization.cpp\<close>): the frame \<open>magic, version, payload length, payload, CRC\<close>, the
  record writers and readers field by field, and every rejection of \<open>deserialize_durable_state\<close>.

  The sources build a \<open>Timestamp\<close> from two reads that are arguments of one call. C++ leaves the
  order of the two open, so the readers take it as the parameter \<open>ltr\<close> (left to right).
\<close>

section \<open>Writing\<close>

definition durable_magic :: u32 where
  "durable_magic = 0x4446564E"

definition durable_version :: u32 where
  "durable_version = 1"

definition kMaxString :: nat where
  "kMaxString = 4096"

definition writer_str :: "string \<Rightarrow> bytes" where
  \<comment> \<open>the length is cut to 16 bits, the bytes are all written\<close>
  "writer_str s = put_u16 (word_of_nat (length s)) @ put_chars s"

definition write_capability :: "capability \<Rightarrow> bytes" where
  "write_capability c =
     put_u8 (interconnect_technology_to_u8 (cap_interconnect c)) @ put_u32 (cap_link_count c) @
     put_u32 (cap_nominal_lane_width c) @ put_u64 (cap_nominal_bandwidth_bps c) @
     put_bool (cap_peer_access_supported c) @
     put_u8 (measurement_support_to_u8 (cap_measurement_support c)) @
     put_u32 (cap_supported_counters c) @ put_bool (cap_telemetry_supported c)"

definition write_evidence :: "evidence \<Rightarrow> bytes" where
  "write_evidence e =
     put_u8 (evidence_class_to_u8 (ev_class e)) @ put_u32 (ev_provenance e) @
     writer_str (ev_source e) @ writer_str (ev_note e)"

definition write_timestamp :: "timestamp \<Rightarrow> bytes" where
  "write_timestamp t = put_u64 (unix_ns t) @ put_bool (ts_valid t)"

definition write_device :: "device_record \<Rightarrow> bytes" where
  "write_device d =
     put_u64 (id_value (dev_id d)) @ writer_str (dev_logical_name d) @
     put_u8 (node_kind_to_u8 (dev_kind d)) @ writer_str (dev_backend d) @
     writer_str (dev_backend_instance d) @ writer_str (dev_pci_identity d) @
     put_opt_u32 (dev_cuda_ordinal d) @ writer_str (dev_vendor d) @
     writer_str (dev_architecture d) @ writer_str (dev_device_generation d) @
     write_capability (dev_capability d) @
     put_u8 (device_health_state_to_u8 (dev_health d)) @ write_evidence (dev_evidence d) @
     put_u64 (gen_value (dev_generation d)) @ put_opt_id (dev_owner_worker d) @
     put_opt_id (dev_owner_boot d)"

definition write_link :: "link_record \<Rightarrow> bytes" where
  "write_link l =
     put_u64 (id_value (lk_id l)) @ put_u64 (id_value (lk_source l)) @
     put_u64 (id_value (lk_target l)) @ put_bool (lk_directed l) @
     writer_str (lk_physical_identifier l) @
     put_u8 (link_operational_state_to_u8 (lk_state l)) @
     put_u8 (interconnect_technology_to_u8 (lk_technology l)) @
     write_capability (lk_capability l) @ put_u64 (gen_value (lk_generation l)) @
     write_evidence (lk_evidence l) @ write_timestamp (lk_last_observation l) @
     put_bool (lk_measurement_supported l) @ put_bool (lk_degraded l) @
     writer_str (lk_degradation_note l) @ put_u64 (gen_value (lk_topology_generation l))"

definition write_durable :: "durable_state \<Rightarrow> bytes" where
  "write_durable s =
     put_u64 (gen_value (ds_topology_generation s)) @ write_timestamp (ds_saved_at s) @
     put_u32 (word_of_nat (length (ds_devices s))) @ concat (map write_device (ds_devices s)) @
     put_u32 (word_of_nat (length (ds_links s))) @ concat (map write_link (ds_links s))"

record serialized =
  ser_format_version :: u32
  ser_bytes :: bytes

definition patch_u32 :: "nat \<Rightarrow> u32 \<Rightarrow> bytes \<Rightarrow> bytes" where
  "patch_u32 pos v bs = take pos bs @ put_u32 v @ drop (pos + 4) bs"

definition serialize_durable_state :: "durable_state \<Rightarrow> serialized result" where
  "serialize_durable_state state =
     (let out = put_u32 durable_magic @ put_u32 durable_version @ put_u32 0;
          len_pos = length out - 4;
          out = out @ write_durable state;
          payload_len = (word_of_nat (length out - (len_pos + 4)) :: u32);
          out = patch_u32 len_pos payload_len out;
          crc = crc32 out
      in ok \<lparr>ser_format_version = durable_version, ser_bytes = out @ put_u32 crc\<rparr>)"

section \<open>Reading\<close>

definition reader_str :: "string read" where
  "reader_str = read_str_upto kMaxString"

definition read_capability :: "capability read" where
  "read_capability = do {
     ic \<leftarrow> read_u8; lc \<leftarrow> read_u32; lw \<leftarrow> read_u32; bw \<leftarrow> read_u64; pa \<leftarrow> read_bool;
     ms \<leftarrow> read_u8; sc \<leftarrow> read_u32; te \<leftarrow> read_bool;
     State_Monad.return \<lparr>cap_interconnect = interconnect_technology_of_u8 ic, cap_link_count = lc,
       cap_nominal_lane_width = lw, cap_nominal_bandwidth_bps = bw, cap_peer_access_supported = pa,
       cap_measurement_support = measurement_support_of_u8 ms, cap_supported_counters = sc,
       cap_telemetry_supported = te\<rparr> }"

definition read_evidence :: "evidence read" where
  "read_evidence = do {
     c \<leftarrow> read_u8; p \<leftarrow> read_u32; s \<leftarrow> reader_str; n \<leftarrow> reader_str;
     State_Monad.return \<lparr>ev_class = evidence_class_of_u8 c, ev_provenance = p, ev_source = s,
       ev_note = n\<rparr> }"

definition read_timestamp :: "bool \<Rightarrow> timestamp read" where
  \<comment> \<open>\<open>Timestamp(r.u64(), r.u8() != 0u)\<close>, with the order in which the arguments are evaluated\<close>
  "read_timestamp ltr =
     (if ltr
      then do { ns \<leftarrow> read_u64; v \<leftarrow> read_bool; State_Monad.return \<lparr>unix_ns = ns, ts_valid = v\<rparr> }
      else do { v \<leftarrow> read_bool; ns \<leftarrow> read_u64; State_Monad.return \<lparr>unix_ns = ns, ts_valid = v\<rparr> })"

definition read_device :: "device_record read" where
  "read_device = do {
     i \<leftarrow> read_u64; name \<leftarrow> reader_str; kind \<leftarrow> read_u8; be \<leftarrow> reader_str; bei \<leftarrow> reader_str;
     pci \<leftarrow> reader_str; ord \<leftarrow> read_opt_u32; ven \<leftarrow> reader_str; arch \<leftarrow> reader_str;
     dg \<leftarrow> reader_str; cap \<leftarrow> read_capability; he \<leftarrow> read_u8; ev \<leftarrow> read_evidence;
     g \<leftarrow> read_u64; ow \<leftarrow> read_opt_id; ob \<leftarrow> read_opt_id;
     State_Monad.return \<lparr>dev_id = Ident i, dev_logical_name = name, dev_kind = node_kind_of_u8 kind,
       dev_backend = be, dev_backend_instance = bei, dev_pci_identity = pci,
       dev_cuda_ordinal = ord, dev_vendor = ven, dev_architecture = arch,
       dev_device_generation = dg, dev_capability = cap,
       dev_health = device_health_state_of_u8 he, dev_evidence = ev,
       dev_generation = Generation g, dev_owner_worker = ow, dev_owner_boot = ob\<rparr> }"

definition read_link :: "bool \<Rightarrow> link_record read" where
  "read_link ltr = do {
     i \<leftarrow> read_u64; src \<leftarrow> read_u64; tgt \<leftarrow> read_u64; dir \<leftarrow> read_bool; phys \<leftarrow> reader_str;
     st \<leftarrow> read_u8; te \<leftarrow> read_u8; cap \<leftarrow> read_capability; g \<leftarrow> read_u64; ev \<leftarrow> read_evidence;
     ts \<leftarrow> read_timestamp ltr; ms \<leftarrow> read_bool; deg \<leftarrow> read_bool; dn \<leftarrow> reader_str; tg \<leftarrow> read_u64;
     State_Monad.return \<lparr>lk_id = Ident i, lk_source = Ident src, lk_target = Ident tgt,
       lk_directed = dir, lk_physical_identifier = phys,
       lk_state = link_operational_state_of_u8 st,
       lk_technology = interconnect_technology_of_u8 te, lk_capability = cap,
       lk_generation = Generation g, lk_evidence = ev, lk_last_observation = ts,
       lk_measurement_supported = ms, lk_degraded = deg, lk_degradation_note = dn,
       lk_topology_generation = Generation tg\<rparr> }"

fun read_records :: "nat \<Rightarrow> 'a read \<Rightarrow> reader \<Rightarrow> ('a list \<times> reader) option" where
  \<comment> \<open>the loops over the records, with their early return on \<open>r.bad\<close> (\<open>None\<close>)\<close>
  "read_records 0 m r = Some ([], r)"
| "read_records (Suc n) m r =
     (let (x, r) = run_state m r
      in if rd_bad r then None
         else map_option (\<lambda>(xs, r). (x # xs, r)) (read_records n m r))"

definition default_durable_state :: durable_state where
  "default_durable_state =
     \<lparr>ds_format_version = ''nvlinkfabric-durable/1.0'', ds_topology_generation = Generation 0,
      ds_devices = [], ds_links = [], ds_saved_at = default_timestamp\<rparr>"

definition check_trailer :: "bytes \<Rightarrow> nat \<Rightarrow> reader \<Rightarrow> durable_state \<Rightarrow> durable_state result" where
  \<comment> \<open>the checks after the records; \<open>plen\<close> is the payload length\<close>
  "check_trailer bs plen r st =
     (let expected = crc32 (take (12 + plen) bs); cs_pos = 12 + plen
      in if length bs < cs_pos + 4 then fail EC_INTEGRITY_FAILURE ''missing checksum''
      else let stored = (le_value 0 (take 4 (drop cs_pos bs)) :: u32)
      in if length bs \<noteq> cs_pos + 4 then fail EC_INTEGRITY_FAILURE ''trailing garbage after frame''
      else if stored \<noteq> expected
      then fail EC_INTEGRITY_FAILURE ''checksum mismatch (corrupt frame)''
      else if rd_pos r \<noteq> cs_pos then fail EC_INTEGRITY_FAILURE ''payload length inconsistent''
      else ok st)"

definition read_payload :: "bool \<Rightarrow> bytes \<Rightarrow> nat \<Rightarrow> reader \<Rightarrow> durable_state result" where
  "read_payload ltr bs plen r =
     (let (topo, r) = run_state read_u64 r;
          (saved, r) = run_state (read_timestamp ltr) r;
          (nd, r) = run_state read_u32 r
      in if rd_bad r \<or> unat nd > max_devices default_limits
      then fail EC_INTEGRITY_FAILURE ''impossible device count''
      else case read_records (unat nd) read_device r of
        None \<Rightarrow> fail EC_INTEGRITY_FAILURE ''corrupt device record''
      | Some (ds, r) \<Rightarrow>
          let (nl, r) = run_state read_u32 r
          in if rd_bad r \<or> unat nl > max_links default_limits
          then fail EC_INTEGRITY_FAILURE ''impossible link count''
          else case read_records (unat nl) (read_link ltr) r of
            None \<Rightarrow> fail EC_INTEGRITY_FAILURE ''corrupt link record''
          | Some (ls, r) \<Rightarrow>
              check_trailer bs plen r (default_durable_state\<lparr>ds_topology_generation := Generation topo,
                ds_saved_at := saved, ds_devices := ds, ds_links := ls\<rparr>))"

definition deserialize_durable_state :: "bool \<Rightarrow> serialized \<Rightarrow> durable_state result" where
  "deserialize_durable_state ltr ser =
     (if ser_format_version ser \<noteq> durable_version
      then fail EC_INTEGRITY_FAILURE ''unsupported serialized version''
      else if length (ser_bytes ser) < 16 then fail EC_INTEGRITY_FAILURE ''frame too short''
      else let (mag, r) = run_state read_u32 (start_reader (ser_bytes ser));
               (version, r) = run_state read_u32 r;
               (payload_len, r) = run_state read_u32 r
      in if mag \<noteq> durable_magic then fail EC_INTEGRITY_FAILURE ''bad magic''
      else if version \<noteq> durable_version then fail EC_INTEGRITY_FAILURE ''unsupported version''
      else if \<not> remaining r (unat payload_len) then fail EC_INTEGRITY_FAILURE ''truncated payload''
      else if \<not> remaining r 4 then fail EC_INTEGRITY_FAILURE ''missing checksum''
      else read_payload ltr (ser_bytes ser) (unat payload_len) r)"

end
