(* ===== verification/Serialization_Properties.thy ===== *)
theory Serialization_Properties
  imports Serialization
begin

text \<open>
  The durable-state file is read back exactly as it was written, any change of a single byte of a
  valid file is rejected, and what happens at the limits of the format (strings that are too long
  to be read back, an argument evaluation order the code does not control).
\<close>

section \<open>Lists of records\<close>

lemma read_records_written:
  assumes "\<forall>v \<in> set vs. decodes dec (f v) (enc v)" "drop p bs = concat (map enc vs) @ rest" "p \<le> length bs"
  shows "read_records (length vs) dec (rdr bs p) = Some (map f vs, rdr bs (p + length (concat (map enc vs))))"
  using assms
proof (induction vs arbitrary: p)
  case (Cons v vs)
  have "decodes dec (f v) (enc v)" "drop p bs = enc v @ (concat (map enc vs) @ rest)"
    using Cons.prems(1,2) by simp_all
  note step = decodes_run [OF this Cons.prems(3)]
  show ?case
    using Cons.IH [OF _ step(2,3)] Cons.prems(1) by (simp add: step(1) add.assoc)
qed simp

context codec begin

lemma read_records_enc:
  assumes "list_all valid vs" "drop p bs = concat (map enc vs) @ rest" "p \<le> length bs"
  shows "read_records (length vs) dec (rdr bs p) = Some (vs, rdr bs (p + length (concat (map enc vs))))"
  using read_records_written [of vs dec "\<lambda>v. v" enc p bs rest] assms decodes_enc by (simp add: list_all_iff)

end

section \<open>The record codecs\<close>

definition str_fits :: "string \<Rightarrow> bool" where
  "str_fits s \<longleftrightarrow> length s \<le> kMaxString"

definition capability_canon :: "capability \<Rightarrow> bool" where
  "capability_canon c \<longleftrightarrow> interconnect_technology_canon (cap_interconnect c) \<and>
     measurement_support_canon (cap_measurement_support c)"

definition evidence_fits :: "evidence \<Rightarrow> bool" where
  "evidence_fits e \<longleftrightarrow> evidence_class_canon (ev_class e) \<and> str_fits (ev_source e) \<and> str_fits (ev_note e)"

definition device_fits :: "device_record \<Rightarrow> bool" where
  \<comment> \<open>every string has at most 4096 characters, every enumeration holds a value a cast can produce\<close>
  "device_fits d \<longleftrightarrow>
     list_all str_fits [dev_logical_name d, dev_backend d, dev_backend_instance d, dev_pci_identity d,
       dev_vendor d, dev_architecture d, dev_device_generation d] \<and>
     node_kind_canon (dev_kind d) \<and> capability_canon (dev_capability d) \<and>
     device_health_state_canon (dev_health d) \<and> evidence_fits (dev_evidence d)"

definition link_fits :: "link_record \<Rightarrow> bool" where
  "link_fits l \<longleftrightarrow>
     str_fits (lk_physical_identifier l) \<and> str_fits (lk_degradation_note l) \<and>
     link_operational_state_canon (lk_state l) \<and> interconnect_technology_canon (lk_technology l) \<and>
     capability_canon (lk_capability l) \<and> evidence_fits (lk_evidence l)"

interpretation strc: codec str_fits writer_str reader_str
  by unfold_locales (auto simp: str_fits_def writer_str_def reader_str_def kMaxString_def intro: decodes_str)

lemmas primitive_decodes =
  u8c.decodes_enc [OF TrueI] u32c.decodes_enc [OF TrueI] u64c.decodes_enc [OF TrueI]
  boolc.decodes_enc [OF TrueI] opt_u32c.decodes_enc [OF TrueI] opt_idc.decodes_enc [OF TrueI]
  strc.decodes_enc

interpretation capc: codec capability_canon write_capability read_capability
proof
  fix c assume fits: "capability_canon c"
  show "decodes read_capability c (write_capability c)"
    unfolding read_capability_def write_capability_def
    by (rule decodes_last decodes_bind primitive_decodes | simp add: fits [unfolded capability_canon_def] enum_simps)+
qed

interpretation evc: codec evidence_fits write_evidence read_evidence
proof
  fix e assume fits: "evidence_fits e"
  show "decodes read_evidence e (write_evidence e)"
    unfolding read_evidence_def write_evidence_def
    by (rule decodes_last decodes_bind primitive_decodes | simp add: fits [unfolded evidence_fits_def] enum_simps)+
qed

interpretation tsc: codec "\<lambda>_. True" write_timestamp "read_timestamp True"
proof
  fix t
  show "decodes (read_timestamp True) t (write_timestamp t)"
    unfolding read_timestamp_def write_timestamp_def if_True
    by (rule decodes_last decodes_bind primitive_decodes | simp)+
qed

lemma bit_low_byte:
  "bit (ucast (drop_bit k (x :: u64) AND 0xFF) :: u8) j \<longleftrightarrow> j < 8 \<and> bit x (k + j)"
proof -
  have m: "(0xFF :: u64) = mask 8" by (simp add: mask_eq_exp_minus_1)
  show ?thesis
    unfolding m by (simp only: bit_ucast_iff bit_and_iff bit_drop_bit_eq bit_mask_iff comp_def) auto
qed

lemma low_byte_zero: "(ucast ((x :: u64) AND 0xFF) :: u8) = 0 \<longleftrightarrow> x AND 0xFF = 0"
proof -
  have m: "(0xFF :: u64) = mask 8" by (simp add: mask_eq_exp_minus_1)
  have "bit (x AND 0xFF) j \<longleftrightarrow> j < 8 \<and> bit x j" for j
    unfolding m by (simp only: bit_and_iff bit_mask_iff) (auto dest: bit_imp_le_length)
  then show ?thesis
    using bit_low_byte [of 0 x] by (auto simp: bit_eq_iff [of "ucast (x AND 255)"] bit_eq_iff [of "x AND 255"])
qed

lemma shifted_bits:
  assumes n: "n < LENGTH(64)"
  shows "bit (le_value 0 (map (\<lambda>i. ucast (drop_bit (8 * i) x AND 0xFF)) [1..<8] @ [if v then 1 else 0]) :: u64) n \<longleftrightarrow>
    bit (drop_bit 8 (x :: u64) OR push_bit 56 (if v then 1 else 0)) n"
proof (cases "n div 8 < 7")
  case True
  have "n < 56" using True by simp
  moreover have "8 * Suc (n div 8) + n mod 8 = 8 + n" by simp
  ultimately show ?thesis
    using True n by (simp add: bit_le_value nth_append bit_low_byte bit_or_iff bit_drop_bit_eq
        bit_push_bit_iff add.commute)
next
  case False
  then have "n div 8 = 7" "56 \<le> n" using n by auto
  then have d: "n div 8 = 7" "56 \<le> n" "n mod 8 = n - 56"
    using minus_mult_div_eq_mod [of n 8] by simp_all
  have "\<not> bit x (8 + n)" using d(2) bit_imp_le_length [of x "8 + n"] by auto
  then show ?thesis
    using d n by (auto simp: bit_le_value nth_append bit_or_iff bit_drop_bit_eq bit_push_bit_iff bit_1_iff)
qed

text \<open>
  The argument order matters. If the two reads inside \<open>Timestamp(r.u64(), r.u8() != 0u)\<close> are
  evaluated right to left, which C++ allows, a timestamp is read back shifted: the low byte of the
  nanoseconds becomes the validity flag and the flag becomes the top byte.
\<close>

theorem timestamp_right_to_left:
  "decodes (read_timestamp False)
     \<lparr>unix_ns = drop_bit 8 (unix_ns t) OR push_bit 56 (if ts_valid t then 1 else 0),
      ts_valid = (unix_ns t AND 0xFF \<noteq> 0)\<rparr> (write_timestamp t)"
proof -
  let ?b = "\<lambda>i. ucast (drop_bit (8 * i) (unix_ns t) AND 0xFF) :: u8" and ?v = "if ts_valid t then 1 else 0 :: u8"
  let ?tail = "map ?b [1..<8] @ [?v]"
  have split: "write_timestamp t = put_u8 (?b 0) @ ?tail"
    by (simp add: write_timestamp_def put_u64_def put_u8_def put_bool_def upt_conv_Cons)
  have nonzero: "?b 0 \<noteq> 0 \<longleftrightarrow> unix_ns t AND 0xFF \<noteq> 0"
    using low_byte_zero [of "unix_ns t"] by simp
  have flag: "decodes read_bool (unix_ns t AND 0xFF \<noteq> 0) (put_u8 (?b 0))"
    using decodes_map [OF u8c.decodes_enc [OF TrueI], of "\<lambda>b. b \<noteq> 0" "?b 0"] nonzero
    by (simp add: read_bool_def)
  have "le_value 0 ?tail = drop_bit 8 (unix_ns t) OR push_bit 56 (if ts_valid t then 1 else 0)"
  proof (rule bit_word_eqI)
    fix n assume n: "n < LENGTH(64)"
    show "bit (le_value 0 ?tail :: u64) n \<longleftrightarrow>
        bit (drop_bit 8 (unix_ns t) OR push_bit 56 (if ts_valid t then 1 else 0)) n"
      by (rule shifted_bits [OF n])
  qed
  then have ns: "decodes read_u64 (drop_bit 8 (unix_ns t) OR push_bit 56 (if ts_valid t then 1 else 0)) ?tail"
    unfolding read_u64_def by (intro decodes_read_with) simp_all
  show ?thesis
    unfolding split read_timestamp_def if_False
    by (rule decodes_bind [OF flag], rule decodes_last [OF ns]) simp
qed

definition reread_timestamp :: "bool \<Rightarrow> timestamp \<Rightarrow> timestamp" where
  \<comment> \<open>what becomes of a timestamp that is written and read back, by the order of evaluation\<close>
  "reread_timestamp ltr t = (if ltr then t
     else \<lparr>unix_ns = drop_bit 8 (unix_ns t) OR push_bit 56 (if ts_valid t then 1 else 0),
           ts_valid = (unix_ns t AND 0xFF \<noteq> 0)\<rparr>)"

lemma timestamp_rereads: "decodes (read_timestamp ltr) (reread_timestamp ltr t) (write_timestamp t)"
  using tsc.decodes_enc timestamp_right_to_left by (simp add: reread_timestamp_def)

definition reread_link :: "bool \<Rightarrow> link_record \<Rightarrow> link_record" where
  "reread_link ltr l = l\<lparr>lk_last_observation := reread_timestamp ltr (lk_last_observation l)\<rparr>"

definition reread :: "bool \<Rightarrow> durable_state \<Rightarrow> durable_state" where
  "reread ltr st = st\<lparr>ds_links := map (reread_link ltr) (ds_links st), ds_saved_at := reread_timestamp ltr (ds_saved_at st)\<rparr>"

lemma reread_left_to_right [simp]:
  "reread_timestamp True t = t" "reread_link True l = l" "reread True st = st"
  by (simp_all add: reread_timestamp_def reread_link_def [abs_def] reread_def)

lemmas record_decodes = primitive_decodes capc.decodes_enc evc.decodes_enc timestamp_rereads

interpretation devc: codec device_fits write_device read_device
proof
  fix d assume fits: "device_fits d"
  show "decodes read_device d (write_device d)"
    unfolding read_device_def write_device_def
    by (rule decodes_last decodes_bind record_decodes | simp add: fits [unfolded device_fits_def list.pred_inject] enum_simps)+
qed

lemma link_rereads:
  assumes fits: "link_fits l"
  shows "decodes (read_link ltr) (reread_link ltr l) (write_link l)"
  unfolding read_link_def write_link_def reread_link_def
  by (rule decodes_last decodes_bind record_decodes | simp add: fits [unfolded link_fits_def] enum_simps)+

interpretation lnkc: codec link_fits write_link "read_link True"
  by unfold_locales (use link_rereads [where ltr = True] in simp)

section \<open>The frame\<close>

definition frame_prefix :: "durable_state \<Rightarrow> bytes" where
  "frame_prefix st = put_u32 durable_magic @ put_u32 durable_version @
     put_u32 (word_of_nat (length (write_durable st))) @ write_durable st"

lemma serialize_frame:
  "serialize_durable_state st =
     ok \<lparr>ser_format_version = durable_version, ser_bytes = frame_prefix st @ put_u32 (crc32 (frame_prefix st))\<rparr>"
  by (simp add: serialize_durable_state_def patch_u32_def frame_prefix_def Let_def)

lemma frame_prefix_length [simp]: "length (frame_prefix st) = 12 + length (write_durable st)"
  by (simp add: frame_prefix_def)

lemma read_header:
  assumes "bs = put_u32 a @ put_u32 b @ put_u32 c @ rest"
  shows "run_state read_u32 (rdr bs 0) = (a, rdr bs 4)" "run_state read_u32 (rdr bs 4) = (b, rdr bs 8)"
    "run_state read_u32 (rdr bs 8) = (c, rdr bs 12)"
proof -
  note d = u32c.decodes_enc [OF TrueI]
  show "run_state read_u32 (rdr bs 0) = (a, rdr bs 4)"
    using decodes_run(1) [OF d [of a], of 0 bs] assms by simp
  show "run_state read_u32 (rdr bs 4) = (b, rdr bs 8)"
    using decodes_run(1) [OF d [of b], of 4 bs] assms by simp
  show "run_state read_u32 (rdr bs 8) = (c, rdr bs 12)"
    using decodes_run(1) [OF d [of c], of 8 bs] assms by simp
qed

definition durable_fits :: "durable_state \<Rightarrow> bool" where
  \<comment> \<open>what the format can carry: the default format version, at most 256 devices and 1024 links,
     readable records and a payload whose length fits 32 bits\<close>
  "durable_fits st \<longleftrightarrow> ds_format_version st = ds_format_version default_durable_state \<and>
     length (ds_devices st) \<le> 256 \<and> length (ds_links st) \<le> 1024 \<and>
     list_all device_fits (ds_devices st) \<and> list_all link_fits (ds_links st) \<and>
     length (write_durable st) < 2 ^ 32"

lemma unat_of_nat_small: "n < 2 ^ 32 \<Longrightarrow> unat (word_of_nat n :: u32) = n"
  by (simp add: unsigned_of_nat take_bit_nat_eq_self)

lemma read_payload_written:
  assumes fits: "durable_fits st" and bs: "drop p bs = write_durable st @ rest" and p: "p \<le> length bs"
  shows "read_payload ltr bs plen (rdr bs p) =
    check_trailer bs plen (rdr bs (p + length (write_durable st))) (reread ltr st)"
proof -
  let ?nd = "word_of_nat (length (ds_devices st)) :: u32" and ?nl = "word_of_nat (length (ds_links st)) :: u32"
  note 1 = decodes_run [OF u64c.decodes_enc [OF TrueI] _ p, of "gen_value (ds_topology_generation st)"]
  have b1: "drop p bs = put_u64 (gen_value (ds_topology_generation st)) @ write_timestamp (ds_saved_at st) @
      put_u32 ?nd @ concat (map write_device (ds_devices st)) @ put_u32 ?nl @
      concat (map write_link (ds_links st)) @ rest"
    using bs by (simp add: write_durable_def)
  note r1 = 1 [OF b1]
  note r2 = decodes_run [OF timestamp_rereads [of ltr] r1(2,3)]
  note r3 = decodes_run [OF u32c.decodes_enc [OF TrueI] r2(2,3)]
  have n: "unat ?nd = length (ds_devices st)" "unat ?nl = length (ds_links st)"
    using fits by (auto simp: durable_fits_def intro!: unat_of_nat_small)
  have dev: "list_all device_fits (ds_devices st)" and lnk: "list_all link_fits (ds_links st)"
    using fits by (simp_all add: durable_fits_def)
  note r4 = devc.read_records_enc [OF dev r3(2,3)]
  have r4_next: "drop (p + length (put_u64 (gen_value (ds_topology_generation st))) +
        length (write_timestamp (ds_saved_at st)) + length (put_u32 ?nd) +
        length (concat (map write_device (ds_devices st)))) bs =
      put_u32 ?nl @ concat (map write_link (ds_links st)) @ rest"
    and r4_len: "p + length (put_u64 (gen_value (ds_topology_generation st))) +
        length (write_timestamp (ds_saved_at st)) + length (put_u32 ?nd) +
        length (concat (map write_device (ds_devices st))) \<le> length bs"
    using decodes_run(2,3) [OF devc.decodes_list [OF dev] r3(2,3)] by auto
  note r5 = decodes_run [OF u32c.decodes_enc [OF TrueI] r4_next r4_len]
  have "\<forall>l \<in> set (ds_links st). decodes (read_link ltr) (reread_link ltr l) (write_link l)"
    using lnk link_rereads by (simp add: list_all_iff)
  note r6 = read_records_written [OF this r5(2,3)]
  have st: "default_durable_state\<lparr>ds_topology_generation := Generation (gen_value (ds_topology_generation st)),
      ds_saved_at := reread_timestamp ltr (ds_saved_at st), ds_devices := ds_devices st,
      ds_links := map (reread_link ltr) (ds_links st)\<rparr> = reread ltr st"
    using fits by (simp add: durable_fits_def default_durable_state_def reread_def)
  show ?thesis
    unfolding read_payload_def r1(1) Let_def prod.case r2(1) r3(1) n r4 option.case r5(1) r6 st
    using fits by (simp add: default_limits_def durable_fits_def write_durable_def add.assoc)
qed

lemma roundtrip_frame:
  assumes "durable_fits st"
  shows "\<exists>ser. serialize_durable_state st = ok ser \<and> deserialize_durable_state ltr ser = ok (reread ltr st)"
proof -
  let ?p = "frame_prefix st" and ?len = "word_of_nat (length (write_durable st)) :: u32"
  define bs where "bs = ?p @ put_u32 (crc32 ?p)"
  have h: "bs = put_u32 durable_magic @ put_u32 durable_version @ put_u32 ?len @
      (write_durable st @ put_u32 (crc32 ?p))" by (simp add: bs_def frame_prefix_def)
  have n: "unat ?len = length (write_durable st)"
    using assms by (auto simp: durable_fits_def intro!: unat_of_nat_small)
  have len: "length bs = 16 + length (write_durable st)" by (simp add: h)
  have d: "drop 12 bs = write_durable st @ put_u32 (crc32 ?p)" by (simp add: h)
  have p: "length ?p = 12 + length (write_durable st)" by (simp add: frame_prefix_def)
  have "check_trailer bs (length (write_durable st)) (rdr bs (12 + length (write_durable st))) (reread ltr st) = ok (reread ltr st)"
    by (simp add: check_trailer_def Let_def len) (simp add: bs_def p)
  then have "deserialize_durable_state ltr \<lparr>ser_format_version = durable_version, ser_bytes = bs\<rparr> = ok (reread ltr st)"
    using read_payload_written [OF assms d, of ltr "length (write_durable st)"]
    by (simp add: deserialize_durable_state_def read_header [OF h] n len)
  then show ?thesis using serialize_frame [of st] by (simp add: bs_def)
qed

text \<open>
  C18: durable states round-trip. Any state the format can carry (at most 256 devices and 1024
  links, strings of at most 4096 characters, castable enumeration values) is serialised, and with
  left-to-right argument evaluation reading the bytes back gives exactly that state.
\<close>

theorem durable_roundtrip:
  assumes "durable_fits st"
  shows "\<exists>ser. serialize_durable_state st = ok ser \<and> deserialize_durable_state True ser = ok st"
  using roundtrip_frame [OF assms, of True] by simp

definition example_durable :: durable_state where
  "example_durable = default_durable_state\<lparr>ds_topology_generation := Generation 9,
     ds_saved_at := \<lparr>unix_ns = 5, ts_valid = True\<rparr>,
     ds_devices := [default_device\<lparr>dev_id := Ident 1, dev_logical_name := ''gpu'',
       dev_kind := NK_ACCELERATOR, dev_owner_worker := Some (Ident 3)\<rparr>]\<rparr>"

lemma example_durable_length: "length (write_durable example_durable) = 104"
  by (simp add: example_durable_def default_durable_state_def default_device_def default_capability_def
      default_evidence_def Evidence_def write_durable_def write_timestamp_def write_device_def
      writer_str_def write_capability_def write_evidence_def put_opt_u32_def put_opt_id_def
      put_bool_def put_chars_def)

lemma example_durable_fits: "durable_fits example_durable"
  using example_durable_length
  by (simp add: durable_fits_def example_durable_def default_durable_state_def default_device_def
      default_capability_def default_evidence_def Evidence_def device_fits_def str_fits_def
      kMaxString_def capability_canon_def evidence_fits_def node_kind_canon_def node_kind_of_u8_def
      interconnect_technology_canon_def interconnect_technology_of_u8_def
      measurement_support_canon_def measurement_support_of_u8_def device_health_state_canon_def
      device_health_state_of_u8_def evidence_class_canon_def evidence_class_of_u8_def)

theorem durable_roundtrip_witness:
  "\<exists>ser. serialize_durable_state example_durable = ok ser
     \<and> deserialize_durable_state True ser = ok example_durable \<and> length (ds_devices example_durable) = 1"
  using durable_roundtrip [OF example_durable_fits] by (simp add: example_durable_def)

section \<open>Corruption\<close>

definition stored_length :: "bytes \<Rightarrow> nat" where
  "stored_length bs = unat (le_value 0 (take 4 (drop 8 bs)) :: u32)"

definition frame_accepted :: "bytes \<Rightarrow> bool" where
  \<comment> \<open>the length field matches the size and the checksum matches the prefix\<close>
  "frame_accepted bs \<longleftrightarrow> length bs = 16 + stored_length bs \<and>
     (le_value 0 (drop (12 + stored_length bs) bs) :: u32) = crc32 (take (12 + stored_length bs) bs)"

lemma run_read_u32: "p + 4 \<le> length bs \<Longrightarrow> run_state read_u32 (rdr bs p) = (le_value 0 (take 4 (drop p bs)), rdr bs (p + 4))"
  by (simp add: read_u32_def read_with_def fetch_def rdr_def remaining_def)

lemma check_trailer_ok:
  "check_trailer bs plen r st = ok st' \<Longrightarrow>
   length bs = 16 + plen \<and> (le_value 0 (drop (12 + plen) bs) :: u32) = crc32 (take (12 + plen) bs)"
  by (auto simp: check_trailer_def Let_def fail_def split: if_splits)

lemma deserialize_ok:
  assumes "deserialize_durable_state ltr ser = ok st"
  shows "frame_accepted (ser_bytes ser)"
proof -
  let ?bs = "ser_bytes ser"
  have len: "16 \<le> length ?bs"
    using assms by (auto simp: deserialize_durable_state_def fail_def split: if_splits)
  then have "read_payload ltr ?bs (stored_length ?bs) (rdr ?bs 12) = ok st"
    using assms by (auto simp: deserialize_durable_state_def run_read_u32 stored_length_def fail_def
        Let_def split: if_splits)
  then obtain r st' where "check_trailer ?bs (stored_length ?bs) r st' = ok st"
    by (auto simp: read_payload_def Let_def fail_def split: if_splits prod.splits option.splits)
  then show ?thesis using check_trailer_ok by (auto simp: frame_accepted_def)
qed

lemma deserialize_error_code:
  assumes "deserialize_durable_state ltr ser = Inl e"
  shows "err_code e = EC_INTEGRITY_FAILURE"
  using assms
  by (auto simp: deserialize_durable_state_def read_payload_def check_trailer_def Let_def fail_def
      make_error_def split: if_splits prod.splits option.splits)

lemma one_byte_change_not_accepted:
  assumes acc: "frame_accepted bs" and i: "i < length bs" and b: "b \<noteq> bs ! i"
  shows "\<not> frame_accepted (bs[i := b])"
proof
  assume acc': "frame_accepted (bs[i := b])"
  let ?n = "stored_length bs"
  have n: "stored_length (bs[i := b]) = ?n"
    using acc acc' by (simp add: frame_accepted_def)
  have len: "length bs = 16 + ?n" using acc by (simp add: frame_accepted_def)
  show False
  proof (cases "i < 12 + ?n")
    case True
    have "crc32 ((take (12 + ?n) bs)[i := b]) \<noteq> crc32 (take (12 + ?n) bs)"
      using True b len by (intro crc32_list_update) simp_all
    moreover have "drop (12 + ?n) (bs[i := b]) = drop (12 + ?n) bs" using True by simp
    ultimately show False
      using acc acc' unfolding frame_accepted_def n by (simp add: take_update_swap)
  next
    case False
    then have "le_value 0 (drop (12 + ?n) (bs[i := b])) = (le_value 0 (drop (12 + ?n) bs) :: u32)"
      using acc acc' unfolding frame_accepted_def n by simp
    then have "drop (12 + ?n) (bs[i := b]) = drop (12 + ?n) bs"
      by (rule le_value_inj) (use len in simp_all)
    then have "drop (12 + ?n) (bs[i := b]) ! (i - (12 + ?n)) = drop (12 + ?n) bs ! (i - (12 + ?n))" by simp
    then show False using False i b by simp
  qed
qed

text \<open>
  C19: corruption is detected. If a serialised state is accepted, then changing any single byte of
  it, in the header, the payload or the checksum, makes \<open>deserialize_durable_state\<close> reject it
  with \<open>INTEGRITY_FAILURE\<close>.
\<close>

theorem durable_corruption_detected:
  assumes "deserialize_durable_state ltr ser = ok st"
    and "i < length (ser_bytes ser)" and "b \<noteq> ser_bytes ser ! i"
  shows "\<exists>e. deserialize_durable_state ltr' (ser\<lparr>ser_bytes := (ser_bytes ser)[i := b]\<rparr>) = Inl e
    \<and> err_code e = EC_INTEGRITY_FAILURE"
proof -
  have "\<not> frame_accepted ((ser_bytes ser)[i := b])"
    using one_byte_change_not_accepted [OF deserialize_ok [OF assms(1)] assms(2,3)] .
  then have "\<not> (\<exists>st'. deserialize_durable_state ltr' (ser\<lparr>ser_bytes := (ser_bytes ser)[i := b]\<rparr>) = ok st')"
    using deserialize_ok by fastforce
  then obtain e where "deserialize_durable_state ltr' (ser\<lparr>ser_bytes := (ser_bytes ser)[i := b]\<rparr>) = Inl e"
    by (cases "deserialize_durable_state ltr' (ser\<lparr>ser_bytes := (ser_bytes ser)[i := b]\<rparr>)") auto
  then show ?thesis using deserialize_error_code by blast
qed

theorem durable_corruption_detected_witness:
  "\<exists>ser e. serialize_durable_state example_durable = ok ser
     \<and> deserialize_durable_state True (ser\<lparr>ser_bytes := (ser_bytes ser)[20 := ser_bytes ser ! 20 + 1]\<rparr>) = Inl e
     \<and> err_code e = EC_INTEGRITY_FAILURE"
proof -
  obtain ser where ser: "serialize_durable_state example_durable = ok ser"
    and de: "deserialize_durable_state True ser = ok example_durable"
    using roundtrip_frame [OF example_durable_fits, of True] by auto
  have "20 < length (ser_bytes ser)"
    using ser by (auto simp: serialize_frame frame_prefix_def write_durable_def write_timestamp_def)
  from durable_corruption_detected [OF de this, of "ser_bytes ser ! 20 + 1" True] show ?thesis
    using ser by auto
qed

section \<open>The limits of the format\<close>

definition sticky :: "'a read \<Rightarrow> bool" where
  \<comment> \<open>the \<open>bad\<close> flag is never cleared\<close>
  "sticky m \<longleftrightarrow> (\<forall>r. rd_bad r \<longrightarrow> rd_bad (snd (run_state m r)))"

lemma sticky_bind [intro]: "sticky m \<Longrightarrow> (\<And>x. sticky (f x)) \<Longrightarrow> sticky (State_Monad.bind m f)"
  by (auto simp: sticky_def split: prod.splits)

lemma sticky_return [intro]: "sticky (State_Monad.return x)"
  by (simp add: sticky_def)

lemma sticky_read_with: "sticky (read_with n val dflt)"
  by (simp add: sticky_def read_with_def)

lemma sticky_str: "sticky (read_str_upto cap)"
  unfolding read_str_upto_def
  by (rule sticky_bind) (auto simp: sticky_def read_u16_def read_with_def)

lemma sticky_primitives:
  "sticky read_u8" "sticky read_u32" "sticky read_u64" "sticky read_bool" "sticky read_opt_u32"
  "sticky read_opt_id" "sticky reader_str"
  by (auto simp: read_u8_def read_u32_def read_u64_def read_bool_def read_opt_u32_def read_opt_id_def
      reader_str_def sticky_str intro!: sticky_read_with sticky_bind sticky_return)

lemma sticky_device_tail: "sticky (read_capability)" "sticky (read_evidence)"
  unfolding read_capability_def read_evidence_def
  by (intro sticky_bind sticky_return sticky_primitives)+

text \<open>A string of more than 4096 and less than 65536 characters is written but sets the flag when read.\<close>

lemma long_string_bad:
  assumes "kMaxString < length str" "length str < 2 ^ 16" "drop p bs = writer_str str @ rest" "p \<le> length bs"
  shows "rd_bad (snd (run_state reader_str (rdr bs p)))"
proof -
  have u: "unat (word_of_nat (length str) :: u16) = length str"
    using assms(2) by (simp add: unsigned_of_nat take_bit_nat_eq_self)
  have "drop p bs = put_u16 (word_of_nat (length str)) @ (put_chars str @ rest)"
    using assms(3) by (simp add: writer_str_def)
  from decodes_run(1) [OF decodes_u16 this assms(4)] show ?thesis
    using assms(1) by (simp add: reader_str_def read_str_upto_def u)
qed

lemma bind_bad:
  "run_state m r = (v, r') \<Longrightarrow> rd_bad (snd (run_state (f v) r')) \<Longrightarrow> rd_bad (snd (run_state (State_Monad.bind m f) r))"
  "rd_bad (snd (run_state m r)) \<Longrightarrow> (\<And>x. sticky (f x)) \<Longrightarrow> rd_bad (snd (run_state (State_Monad.bind m f) r))"
  by (auto simp: sticky_def split: prod.splits)

lemma long_name_device_bad:
  assumes "kMaxString < length (dev_logical_name d)" "length (dev_logical_name d) < 2 ^ 16"
    "drop p bs = write_device d @ rest" "p \<le> length bs"
  shows "rd_bad (snd (run_state read_device (rdr bs p)))"
proof -
  obtain tail where tail: "drop p bs = put_u64 (id_value (dev_id d)) @ (writer_str (dev_logical_name d) @ tail)"
    using assms(3) by (simp add: write_device_def)
  note r1 = decodes_run [OF u64c.decodes_enc [OF TrueI] tail assms(4)]
  note bad = long_string_bad [OF assms(1,2) r1(2,3)]
  show ?thesis
    unfolding read_device_def
    by (rule bind_bad(1) [OF r1(1)], rule bind_bad(2) [OF bad])
      (intro sticky_bind sticky_return sticky_primitives sticky_device_tail)
qed

text \<open>
  a durable state can be saved and never loaded. \<open>serialize_durable_state\<close> never fails, but
  when the first device has a name of more than 4096 characters (and less than 65536), reading the
  bytes it wrote fails with \<open>INTEGRITY_FAILURE\<close>.
\<close>

theorem durable_long_name_unreadable:
  assumes "ds_devices st = d # ds" "length (ds_devices st) < 2 ^ 32" "length (write_durable st) < 2 ^ 32"
    and "kMaxString < length (dev_logical_name d)" "length (dev_logical_name d) < 2 ^ 16"
  shows "\<exists>ser e. serialize_durable_state st = ok ser \<and> deserialize_durable_state True ser = Inl e
    \<and> err_code e = EC_INTEGRITY_FAILURE"
proof -
  let ?p = "frame_prefix st" and ?len = "word_of_nat (length (write_durable st)) :: u32"
  let ?nd = "word_of_nat (length (ds_devices st)) :: u32"
  define bs where "bs = ?p @ put_u32 (crc32 ?p)"
  have h: "bs = put_u32 durable_magic @ put_u32 durable_version @ put_u32 ?len @
      (write_durable st @ put_u32 (crc32 ?p))" by (simp add: bs_def frame_prefix_def)
  obtain tail where b1: "drop 12 bs = put_u64 (gen_value (ds_topology_generation st)) @
      (write_timestamp (ds_saved_at st) @ (put_u32 ?nd @ (write_device d @ tail)))"
    by (simp add: h write_durable_def assms(1))
  have "12 \<le> length bs" by (simp add: h)
  note r1 = decodes_run [OF u64c.decodes_enc [OF TrueI] b1 this]
  note r2 = decodes_run [OF tsc.decodes_enc [OF TrueI] r1(2,3)]
  note r3 = decodes_run [OF u32c.decodes_enc [OF TrueI] r2(2,3)]
  have n: "unat ?nd = Suc (length ds)"
    unfolding unat_of_nat_small [OF assms(2)] by (simp add: assms(1))
  have "read_records (Suc (length ds)) read_device (rdr bs (12 +
      length (put_u64 (gen_value (ds_topology_generation st))) + length (write_timestamp (ds_saved_at st)) +
      length (put_u32 ?nd))) = None"
    using long_name_device_bad [OF assms(4,5) r3(2,3)] by (auto split: prod.split)
  then have "read_payload True bs plen (rdr bs 12) \<noteq> ok st'" for plen st'
    unfolding read_payload_def r1(1) Let_def prod.case r2(1) r3(1) n by (simp add: fail_def)
  then have "\<nexists>st'. deserialize_durable_state True \<lparr>ser_format_version = durable_version, ser_bytes = bs\<rparr> = ok st'"
    by (simp add: deserialize_durable_state_def read_header [OF h] fail_def)
  then obtain e where "deserialize_durable_state True \<lparr>ser_format_version = durable_version, ser_bytes = bs\<rparr> = Inl e"
    by (metis obj_sumE)
  then show ?thesis
    using serialize_frame [of st] deserialize_error_code by (auto simp: bs_def)
qed

theorem durable_long_name_unreadable_witness:
  "\<exists>ser e. serialize_durable_state (default_durable_state\<lparr>ds_devices :=
        [default_device\<lparr>dev_id := Ident 1, dev_logical_name := replicate 5000 CHR ''x''\<rparr>]\<rparr>) = ok ser
     \<and> deserialize_durable_state True ser = Inl e"
proof -
  let ?st = "default_durable_state\<lparr>ds_devices :=
        [default_device\<lparr>dev_id := Ident 1, dev_logical_name := replicate 5000 CHR ''x''\<rparr>]\<rparr>"
  have "length (write_durable ?st) = 5093"
    by (simp add: default_durable_state_def default_device_def default_capability_def
        default_evidence_def Evidence_def write_durable_def write_timestamp_def write_device_def
        writer_str_def write_capability_def write_evidence_def put_opt_u32_def put_opt_id_def
        put_bool_def put_chars_def)
  then show ?thesis
    using durable_long_name_unreadable [of ?st] by (auto simp: kMaxString_def)
qed

end
