(* ===== verification/Persistence.thy ===== *)
theory Persistence
  imports Registry_Properties Serialization_Properties "HOL-Library.Sublist"
begin

text \<open>
  Durable-state persistence (\<open>persistence.hpp\<close>, \<open>src/core/persistence.cpp\<close>): the size bound, the
  temporary file, the atomic replace, and loading with its checks.

  A file system is a map from paths to contents. \<open>save_durable_state\<close> returns its result together
  with the sequence of file-system effects it issues, so that a crash is a prefix of that
  sequence. Which calls fail, and how many bytes a failing write has put out, is the environment
  \<open>io_env\<close>. The theorems: the state file is replaced atomically under every failure and every
  crash, a failed save leaves it alone, and a successful save is what the next load returns.
\<close>

section \<open>Files\<close>

type_synonym file_system = "string \<rightharpoonup> bytes"

datatype fs_op
  = Truncate string
  | Append string bytes
  | Rename string string
  | Remove string

fun apply_fs :: "fs_op \<Rightarrow> file_system \<Rightarrow> file_system" where
  "apply_fs (Truncate p) fs = fs(p \<mapsto> [])"
| "apply_fs (Append p bs) fs = (case fs p of None \<Rightarrow> fs | Some old \<Rightarrow> fs(p \<mapsto> old @ bs))"
| "apply_fs (Rename p q) fs = (case fs p of None \<Rightarrow> fs | Some bs \<Rightarrow> (fs(q \<mapsto> bs))(p := None))"
| "apply_fs (Remove p) fs = fs(p := None)"

definition run_fs :: "fs_op list \<Rightarrow> file_system \<Rightarrow> file_system" where
  "run_fs xs fs = fold apply_fs xs fs"

record io_env =
  env_open_out :: bool \<comment> \<open>\<open>ofs.is_open()\<close>\<close>
  env_write_fails :: "nat option" \<comment> \<open>the stream fails after this many bytes\<close>
  env_rename :: bool \<comment> \<open>the replace succeeds\<close>
  env_remove :: bool \<comment> \<open>\<open>std::remove\<close> succeeds\<close>
  env_open_in :: bool \<comment> \<open>\<open>ifs.is_open()\<close> for a file that exists\<close>
  env_tellg :: bool \<comment> \<open>\<open>tellg\<close> does not return \<open>-1\<close>\<close>
  env_read :: bool \<comment> \<open>\<open>read\<close> does not set the bad bit\<close>

section \<open>Operations\<close>

definition atomic_replace :: "io_env \<Rightarrow> string \<Rightarrow> string \<Rightarrow> bool \<times> fs_op list" where
  "atomic_replace env target tmp = (if env_rename env then (True, [Rename tmp target]) else (False, []))"

definition write_stream :: "io_env \<Rightarrow> string \<Rightarrow> bytes \<Rightarrow> bool \<times> fs_op list" where
  \<comment> \<open>\<open>write\<close> and \<open>flush\<close>; the bytes reach the file one after the other\<close>
  "write_stream env tmp bs =
     (case env_write_fails env of
        None \<Rightarrow> (True, map (\<lambda>b. Append tmp [b]) bs)
      | Some n \<Rightarrow> (False, map (\<lambda>b. Append tmp [b]) (take n bs)))"

definition save_durable_state ::
  "io_env \<Rightarrow> durable_state \<Rightarrow> string \<Rightarrow> limits \<Rightarrow> unit result \<times> fs_op list" where
  "save_durable_state env state path lms =
     (case serialize_durable_state state of
        Inl e \<Rightarrow> (Inl e, [])
      | Inr ser \<Rightarrow>
          if length (ser_bytes ser) > max_persisted_state_bytes lms
          then (fail EC_RESOURCE_LIMIT ''durable state exceeds size bound'', [])
          else let tmp = path @ ''.tmp''
          in if \<not> env_open_out env then (fail EC_BACKEND_ERROR ''cannot open temp state file'', [])
          else let (good, ws) = write_stream env tmp (ser_bytes ser); ops = Truncate tmp # ws
          in if \<not> good then (fail EC_BACKEND_ERROR ''failed writing temp state file'', ops)
          else let (replaced, rs) = atomic_replace env path tmp; ops = ops @ rs
          in if \<not> replaced
             then (fail EC_BACKEND_ERROR ''atomic replace of state file failed'',
                   if env_remove env then ops @ [Remove tmp] else ops)
             else (ok (), ops))"

definition load_durable_state ::
  "bool \<Rightarrow> io_env \<Rightarrow> file_system \<Rightarrow> string \<Rightarrow> limits \<Rightarrow> durable_state result" where
  "load_durable_state ltr env fs path lms =
     (case (if env_open_in env then fs path else None) of
        None \<Rightarrow> fail EC_NOT_FOUND ''state file not found''
      | Some bs \<Rightarrow>
          if \<not> env_tellg env then fail EC_BACKEND_ERROR ''cannot read state file size''
          else if length bs > max_persisted_state_bytes lms
          then fail EC_RESOURCE_LIMIT ''state file exceeds size bound''
          else if \<not> env_read env then fail EC_BACKEND_ERROR ''failed reading state file''
          else deserialize_durable_state ltr \<lparr>ser_format_version = durable_version, ser_bytes = bs\<rparr>)"

section \<open>Effects on one file\<close>

lemma run_fs_simps [simp]:
  "run_fs [] fs = fs" "run_fs (x # xs) fs = run_fs xs (apply_fs x fs)"
  "run_fs (xs @ ys) fs = run_fs ys (run_fs xs fs)"
  by (simp_all add: run_fs_def)

fun writes_path :: "string \<Rightarrow> fs_op \<Rightarrow> bool" where
  "writes_path p (Truncate q) \<longleftrightarrow> p = q"
| "writes_path p (Append q bs) \<longleftrightarrow> p = q"
| "writes_path p (Rename q r) \<longleftrightarrow> p = q \<or> p = r"
| "writes_path p (Remove q) \<longleftrightarrow> p = q"

lemma run_fs_other: "\<forall>x \<in> set xs. \<not> writes_path p x \<Longrightarrow> run_fs xs fs p = fs p"
proof (induction xs arbitrary: fs)
  case (Cons x xs)
  have "apply_fs x fs p = fs p" using Cons.prems by (cases x) (auto split: option.splits)
  then show ?case using Cons by simp
qed simp

lemma run_fs_appends:
  "fs p = Some old \<Longrightarrow> run_fs (map (\<lambda>b. Append p [b]) bs) fs = fs(p \<mapsto> old @ bs)"
  by (induction bs arbitrary: fs old) (auto simp: map_upd_triv)

lemma run_fs_written: "run_fs (Truncate p # map (\<lambda>b. Append p [b]) bs) fs = fs(p \<mapsto> bs)"
  by (simp add: run_fs_appends [where old = "[]"])

lemma tmp_differs [simp]: "path @ ''.tmp'' \<noteq> path" "path \<noteq> path @ ''.tmp''"
  by simp_all

section \<open>Saving\<close>

definition frame_of :: "durable_state \<Rightarrow> bytes" where
  "frame_of st = (case serialize_durable_state st of Inl e \<Rightarrow> [] | Inr ser \<Rightarrow> ser_bytes ser)"

lemma serialize_frame_of:
  "serialize_durable_state st = ok \<lparr>ser_format_version = durable_version, ser_bytes = frame_of st\<rparr>"
  by (simp add: frame_of_def serialize_durable_state_def Let_def)

definition temp_ops :: "string \<Rightarrow> bytes \<Rightarrow> fs_op list" where
  "temp_ops path bs = Truncate (path @ ''.tmp'') # map (\<lambda>b. Append (path @ ''.tmp'') [b]) bs"

lemma temp_ops_target: "x \<in> set (temp_ops path bs) \<Longrightarrow> writes_path p x \<Longrightarrow> p = path @ ''.tmp''"
  by (auto simp: temp_ops_def)

text \<open>The shapes a save can take: the rename is the only effect on the state file.\<close>

lemma save_cases:
  assumes "save_durable_state env st path lms = (r, ops)"
  obtains (success) "r = ok ()" "length (frame_of st) \<le> max_persisted_state_bytes lms"
      "ops = temp_ops path (frame_of st) @ [Rename (path @ ''.tmp'') path]"
  | (failure) e where "r = Inl e" "\<forall>x \<in> set ops. \<forall>p. writes_path p x \<longrightarrow> p = path @ ''.tmp''"
proof -
  have "(r = ok () \<and> length (frame_of st) \<le> max_persisted_state_bytes lms \<and>
         ops = temp_ops path (frame_of st) @ [Rename (path @ ''.tmp'') path]) \<or>
        (\<exists>e. r = Inl e) \<and> (\<forall>x \<in> set ops. \<forall>p. writes_path p x \<longrightarrow> p = path @ ''.tmp'')"
    using assms
    by (auto simp: save_durable_state_def serialize_frame_of atomic_replace_def write_stream_def
        Let_def temp_ops_def fail_def split: if_splits option.splits)
  then show ?thesis using success failure by blast
qed

lemma run_temp_ops: "run_fs (temp_ops path bs) fs = fs(path @ ''.tmp'' \<mapsto> bs)"
  unfolding temp_ops_def by (rule run_fs_written)

text \<open>
  C22: the state file is replaced atomically. Stop a save after any number of its file-system
  effects, for whatever combination of failing calls: the state file holds either what it held
  before or the complete new frame, and no file but it and its temporary has changed. If the save
  reports an error the state file is unchanged; if it reports success the state file holds the
  frame and the temporary file is gone.
\<close>

theorem save_durable_state_atomic:
  assumes run: "save_durable_state env st path lms = (r, ops)" and crash: "prefix done_ops ops"
  shows "run_fs done_ops fs path \<in> {fs path, Some (frame_of st)}
    \<and> (\<forall>p. p \<noteq> path \<longrightarrow> p \<noteq> path @ ''.tmp'' \<longrightarrow> run_fs done_ops fs p = fs p)
    \<and> (\<forall>e. r = Inl e \<longrightarrow> run_fs ops fs path = fs path)
    \<and> (r = ok () \<longrightarrow> run_fs ops fs = fs(path \<mapsto> frame_of st, path @ ''.tmp'' := None))"
  using run
proof (cases rule: save_cases)
  case success
  let ?tmp = "path @ ''.tmp''"
  have full: "run_fs ops fs = fs(path \<mapsto> frame_of st, ?tmp := None)"
    by (simp add: success(3) run_temp_ops fun_upd_twist)
  show ?thesis
  proof (cases "done_ops = ops")
    case True
    then show ?thesis using full success(1) by simp
  next
    case False
    then have "prefix done_ops (temp_ops path (frame_of st))" using crash success(3) by simp
    then have "\<forall>x \<in> set done_ops. \<forall>p. writes_path p x \<longrightarrow> p = ?tmp"
      using temp_ops_target set_mono_prefix by blast
    then have "run_fs done_ops fs p = fs p" if "p \<noteq> ?tmp" for p using that by (auto intro!: run_fs_other)
    then show ?thesis using full success(1) by simp
  qed
next
  case (failure e)
  have "\<forall>x \<in> set done_ops. \<forall>p. writes_path p x \<longrightarrow> p = path @ ''.tmp''"
    using failure(2) crash set_mono_prefix by blast
  then have "run_fs done_ops fs p = fs p" "run_fs ops fs p = fs p" if "p \<noteq> path @ ''.tmp''" for p
    using that failure(2) by (auto intro!: run_fs_other)
  then show ?thesis using failure(1) by simp
qed

definition fair_env :: io_env where
  "fair_env = \<lparr>env_open_out = True, env_write_fails = None, env_rename = True, env_remove = True,
     env_open_in = True, env_tellg = True, env_read = True\<rparr>"

lemma save_succeeds:
  assumes "env_open_out env" "env_write_fails env = None" "env_rename env"
    "length (frame_of st) \<le> max_persisted_state_bytes lms"
  shows "save_durable_state env st path lms = (ok (), temp_ops path (frame_of st) @ [Rename (path @ ''.tmp'') path])"
  using assms by (simp add: save_durable_state_def serialize_frame_of atomic_replace_def write_stream_def temp_ops_def Let_def)

lemma example_frame_small: "length (frame_of example_durable) \<le> max_persisted_state_bytes default_limits"
  by (simp add: frame_of_def serialize_frame example_durable_length default_limits_def)

theorem save_durable_state_atomic_witness:
  "run_fs (take 5 (snd (save_durable_state fair_env example_durable ''s'' default_limits))) [''s'' \<mapsto> [7]] ''s''
     \<in> {Some [7], Some (frame_of example_durable)}
   \<and> run_fs (snd (save_durable_state fair_env example_durable ''s'' default_limits)) [''s'' \<mapsto> [7]]
     = [''s'' \<mapsto> frame_of example_durable]"
proof -
  obtain r ops where run: "save_durable_state fair_env example_durable ''s'' default_limits = (r, ops)" by force
  have "r = ok ()" using run save_succeeds [of fair_env example_durable default_limits "''s''"]
    example_frame_small by (simp add: fair_env_def)
  then show ?thesis
    using save_durable_state_atomic [OF run take_is_prefix [of 5 ops], of "[''s'' \<mapsto> [7]]"]
    by (simp add: run fun_eq_iff)
qed

section \<open>Restart\<close>

lemma load_saved:
  assumes "save_durable_state env st path lms = (ok (), ops)" "durable_fits st"
    "env_open_in env'" "env_tellg env'" "env_read env'"
  shows "load_durable_state ltr env' (run_fs ops fs) path lms = ok (reread ltr st)"
proof -
  have "deserialize_durable_state ltr \<lparr>ser_format_version = durable_version, ser_bytes = frame_of st\<rparr> = ok (reread ltr st)"
    using roundtrip_frame [OF assms(2), of ltr] by (auto simp: serialize_frame_of)
  moreover have "run_fs ops fs path = Some (frame_of st)" "length (frame_of st) \<le> max_persisted_state_bytes lms"
    using assms(1) by (auto elim!: save_cases simp: run_temp_ops)
  ultimately show ?thesis using assms(3-5) by (simp add: load_durable_state_def)
qed

lemma reread_link_identity: "keeps_identity (reread_link ltr)"
  by (simp add: keeps_identity_def reread_link_def)

text \<open>
  C23: a restart loses no topology, in whatever order the compiler evaluates the two reads of a timestamp
  (\<open>ltr\<close>). Take a well-formed registry whose stored generations have not wrapped to 0 and whose durable
  state the format can carry and the size limit allows, and files on which no call fails. Capture it,
  save it, load the file in a later process and restore it into that process's registry: every step succeeds,
  every device and link is back with the links (and the worker-owned devices) marked for revalidation, no
  measurement survives, and the generation is past both the saved one and that of the new process.
  A link comes back as it was but for the topology stamp and, where the reads are evaluated right to left, its
  time of last observation.
\<close>

theorem restart_preserves_topology:
  assumes "wf_state lms s" "generations_valid s"
    and "capture_durable_state s w0 = (ok st, w1)" "durable_fits st"
    and "length (frame_of st) \<le> max_persisted_state_bytes lms"
    and "env_open_out env" "env_write_fails env = None" "env_rename env"
    and "env_open_in env'" "env_tellg env'" "env_read env'"
  shows "\<exists>ops st' w' t'. save_durable_state env st path lms = (ok (), ops)
    \<and> load_durable_state ltr env' (run_fs ops fs) path lms = ok st'
    \<and> restore_durable_state lms st' w t = (ok (), w', t')
    \<and> (\<forall>i. device t' i = map_option (\<lambda>d. if dev_owner_worker d \<noteq> None \<or> dev_owner_boot d \<noteq> None
          then d\<lparr>dev_health := DH_REVALIDATION_REQUIRED\<rparr> else d) (device s i))
    \<and> (\<forall>i. link t' i = map_option (\<lambda>l. (restored_link (reread_link ltr l))\<lparr>lk_topology_generation := topology_gen t'\<rparr>)
          (link s i))
    \<and> (\<forall>l. reread_link ltr l = l\<lparr>lk_last_observation := lk_last_observation (reread_link ltr l)\<rparr>)
    \<and> (ltr \<longrightarrow> (\<forall>l. reread_link ltr l = l))
    \<and> measurement_history t' = []
    \<and> topology_gen t' = gen_next (max (topology_gen s) (topology_gen t))"
proof -
  obtain r w' t' where run: "restore_durable_state lms (reread ltr st) w t = (r, w', t')" by (metis prod_cases3)
  note saved = save_succeeds [OF assms(6-8,5), of path]
  note restored = capture_restore_upto [OF assms(1,2) reread_link_identity assms(3) run [unfolded reread_def]]
  have "reread_link ltr l = l\<lparr>lk_last_observation := lk_last_observation (reread_link ltr l)\<rparr>" for l
    by (simp add: reread_link_def)
  moreover have "ltr \<longrightarrow> (\<forall>l. reread_link ltr l = l)" by simp
  ultimately show ?thesis using saved load_saved [OF saved assms(4,9-11)] run restored by blast
qed

definition example_capture :: durable_state where
  "example_capture = (case fst (capture_durable_state (snd example_state) (fst example_state)) of
     Inl e \<Rightarrow> default_durable_state | Inr st \<Rightarrow> st)"

lemma example_capture_run:
  "\<exists>w1. capture_durable_state (snd example_state) (fst example_state) = (ok example_capture, w1)"
  by (cases "now_timestamp (fst example_state)") (simp add: example_capture_def capture_durable_state_def)

lemma example_capture_shape:
  "example_capture = \<lparr>ds_format_version = ''nvlinkfabric-durable/1.0'',
     ds_topology_generation = Generation 4, ds_devices = [example_device 1 1, example_device 2 1],
     ds_links = [(example_link 7 1 2)\<lparr>lk_topology_generation := Generation 4\<rparr>],
     ds_saved_at = \<lparr>unix_ns = 3, ts_valid = True\<rparr>\<rparr>"
  by (simp add: example_capture_def capture_durable_state_def durable_format_def um_values_def
      less_eq_ident_def example_eval)

lemmas example_capture_eval = example_capture_shape example_device_def example_link_def default_device_def
  default_link_def default_capability_def default_evidence_def Evidence_def default_timestamp_def

lemma example_capture_length: "length (write_durable example_capture) = 258"
  by (simp add: example_capture_eval write_durable_def write_timestamp_def write_device_def write_link_def
      writer_str_def write_capability_def write_evidence_def put_opt_u32_def put_opt_id_def
      put_bool_def put_chars_def)

lemma example_capture_fits: "durable_fits example_capture"
  using example_capture_length
  by (simp add: durable_fits_def example_capture_eval default_durable_state_def device_fits_def
      link_fits_def str_fits_def kMaxString_def capability_canon_def evidence_fits_def
      node_kind_canon_def node_kind_of_u8_def interconnect_technology_canon_def
      interconnect_technology_of_u8_def measurement_support_canon_def measurement_support_of_u8_def
      device_health_state_canon_def device_health_state_of_u8_def evidence_class_canon_def
      evidence_class_of_u8_def link_operational_state_canon_def link_operational_state_of_u8_def)

theorem restart_preserves_topology_witness:
  "\<exists>ops st' w' t'. save_durable_state fair_env example_capture ''s'' default_limits = (ok (), ops)
     \<and> load_durable_state True fair_env (run_fs ops Map.empty) ''s'' default_limits = ok st'
     \<and> restore_durable_state default_limits st' example_world initial_state = (ok (), w', t')
     \<and> device t' (Ident 1) = Some (example_device 1 1)"
proof -
  obtain w1 where cap: "capture_durable_state (snd example_state) (fst example_state) = (ok example_capture, w1)"
    using example_capture_run by blast
  have "length (frame_of example_capture) \<le> max_persisted_state_bytes default_limits"
    by (simp add: frame_of_def serialize_frame example_capture_length default_limits_def)
  moreover have "device (snd example_state) (Ident 1) = Some (example_device 1 1)"
    by (simp add: device_def example_eval)
  ultimately show ?thesis
    using restart_preserves_topology [OF reachable_wf [OF example_reachable] example_generations cap
      example_capture_fits, where env = fair_env and env' = fair_env and path = "''s''" and fs = Map.empty and ltr = True
      and w = example_world and t = initial_state]
    by (fastforce simp: fair_env_def example_device_def default_device_def)
qed

end
