(* ===== verification/Protocol.thy ===== *)
theory Protocol
  imports Bytes_IO Checksum
begin

text \<open>
  The framed coordinator-worker protocol (\<open>protocol.hpp\<close>, \<open>src/core/protocol.cpp\<close>): payload
  strings, frames with magic, version, type, length and CRC, and their decoder with every
  rejection. The theorems say that decoding and encoding are inverse to each other in both
  directions (each accepted byte string is the encoding of the frame it decodes to) and that no
  single-byte change of a frame is accepted.
\<close>

section \<open>Definitions\<close>

definition frame_magic :: u32 where
  "frame_magic = 0x46564E4E"

definition frame_version :: u8 where
  "frame_version = 1"

definition kHeaderNoPayload :: nat where
  "kHeaderNoPayload = 10"

definition kCrcBytes :: nat where
  "kCrcBytes = 4"

datatype message_type
  = HELLO | REGISTER | PUBLISH_DEVICE | PUBLISH_LINK | PUBLISH_TOPOLOGY | PUBLISH_MEASUREMENT
  | READY | QUERY | ROUTE | HEARTBEAT | GOODBYE

fun message_type_to_u8 :: "message_type \<Rightarrow> u8" where
  "message_type_to_u8 HELLO = 1" | "message_type_to_u8 REGISTER = 2"
| "message_type_to_u8 PUBLISH_DEVICE = 3" | "message_type_to_u8 PUBLISH_LINK = 4"
| "message_type_to_u8 PUBLISH_TOPOLOGY = 5" | "message_type_to_u8 PUBLISH_MEASUREMENT = 6"
| "message_type_to_u8 READY = 7" | "message_type_to_u8 QUERY = 8"
| "message_type_to_u8 ROUTE = 9" | "message_type_to_u8 HEARTBEAT = 10"
| "message_type_to_u8 GOODBYE = 11"

definition message_type_of_u8 :: "u8 \<Rightarrow> message_type option" where
  \<comment> \<open>\<open>valid_type\<close> and the cast that follows it\<close>
  "message_type_of_u8 b =
     map_of (map (\<lambda>t. (message_type_to_u8 t, t)) [HELLO, REGISTER, PUBLISH_DEVICE, PUBLISH_LINK,
       PUBLISH_TOPOLOGY, PUBLISH_MEASUREMENT, READY, QUERY, ROUTE, HEARTBEAT, GOODBYE]) b"

definition valid_type :: "u8 \<Rightarrow> bool" where
  "valid_type t \<longleftrightarrow> message_type_to_u8 HELLO \<le> t \<and> t \<le> message_type_to_u8 GOODBYE \<and> t \<noteq> 0"

fun message_type_name :: "message_type \<Rightarrow> string" where
  "message_type_name HELLO = ''HELLO''" | "message_type_name REGISTER = ''REGISTER''"
| "message_type_name PUBLISH_DEVICE = ''PUBLISH_DEVICE''"
| "message_type_name PUBLISH_LINK = ''PUBLISH_LINK''"
| "message_type_name PUBLISH_TOPOLOGY = ''PUBLISH_TOPOLOGY''"
| "message_type_name PUBLISH_MEASUREMENT = ''PUBLISH_MEASUREMENT''"
| "message_type_name READY = ''READY''" | "message_type_name QUERY = ''QUERY''"
| "message_type_name ROUTE = ''ROUTE''" | "message_type_name HEARTBEAT = ''HEARTBEAT''"
| "message_type_name GOODBYE = ''GOODBYE''"

record frame =
  f_type :: message_type
  f_payload :: bytes

definition put_str :: "string \<Rightarrow> bytes" where
  \<comment> \<open>at most 65535 characters are written\<close>
  "put_str s = (let len = (if length s \<le> 65535 then length s else 65535)
                in put_u16 (word_of_nat len) @ put_chars (take len s))"

definition payload_str :: "string read" where
  \<comment> \<open>\<open>PayloadReader::str\<close>: the 16-bit length is the only bound\<close>
  "payload_str = read_str_upto 65535"

definition frame_body :: "frame \<Rightarrow> bytes" where
  \<comment> \<open>everything before the checksum\<close>
  "frame_body f = put_u32 frame_magic @ put_u8 frame_version @ put_u8 (message_type_to_u8 (f_type f)) @
     put_u32 (word_of_nat (length (f_payload f))) @ f_payload f"

definition encode_frame :: "frame \<Rightarrow> nat \<Rightarrow> bytes result" where
  "encode_frame f max_bytes =
     (if length (f_payload f) + kHeaderNoPayload + kCrcBytes > max_bytes
      then fail EC_RESOURCE_LIMIT ''frame payload exceeds bound''
      else let out = frame_body f in ok (out @ put_u32 (crc32 out)))"

definition payload_length :: "bytes \<Rightarrow> nat" where
  \<comment> \<open>the 32-bit length field of a frame\<close>
  "payload_length bs = unat (le_value 0 (take 4 (drop 6 bs)) :: u32)"

definition decode_frame :: "bytes \<Rightarrow> nat \<Rightarrow> frame result" where
  "decode_frame bs max_bytes =
     (if length bs < kHeaderNoPayload + kCrcBytes
      then fail EC_PROTOCOL_ERROR ''frame shorter than header+checksum''
      else if le_value 0 (take 4 bs) \<noteq> frame_magic then fail EC_PROTOCOL_ERROR ''bad magic''
      else if bs ! 4 \<noteq> frame_version then fail EC_PROTOCOL_ERROR ''unsupported protocol version''
      else if \<not> valid_type (bs ! 5) then fail EC_PROTOCOL_ERROR ''invalid message type''
      else let payload_len = payload_length bs;
               frame_size = kHeaderNoPayload + payload_len + kCrcBytes
      in if frame_size > max_bytes then fail EC_RESOURCE_LIMIT ''frame exceeds configured bound''
      else if length bs < frame_size then fail EC_PROTOCOL_ERROR ''truncated frame''
      else if length bs \<noteq> frame_size then fail EC_PROTOCOL_ERROR ''trailing bytes after frame''
      else let expected = crc32 (take (frame_size - kCrcBytes) bs);
               stored = (le_value 0 (take 4 (drop (frame_size - 4) bs)) :: u32)
      in if stored \<noteq> expected then fail EC_PROTOCOL_ERROR ''frame checksum mismatch''
      else case message_type_of_u8 (bs ! 5) of
        Some t \<Rightarrow> ok \<lparr>f_type = t, f_payload = take payload_len (drop kHeaderNoPayload bs)\<rparr>
      | None \<Rightarrow> fail EC_PROTOCOL_ERROR ''invalid message type'')"

section \<open>Encoding and decoding are inverse\<close>

lemma message_type_of_to [simp]: "message_type_of_u8 (message_type_to_u8 t) = Some t"
  by (cases t) (simp_all add: message_type_of_u8_def)

lemma message_type_to_of: "message_type_of_u8 b = Some t \<Longrightarrow> message_type_to_u8 t = b"
  by (auto simp: message_type_of_u8_def split: if_splits)

lemma valid_type_to [simp]: "valid_type (message_type_to_u8 t)"
  by (cases t) (simp_all add: valid_type_def)

text \<open>The last branch of \<open>decode_frame\<close> is unreachable: every valid type byte names a type.\<close>

lemma valid_type_names: "valid_type b \<Longrightarrow> \<exists>t. message_type_of_u8 b = Some t"
proof -
  assume "valid_type b"
  then have "1 \<le> unat b" "unat b \<le> 11" by (auto simp: valid_type_def word_le_nat_alt)
  then have "unat b = 1 \<or> unat b = 2 \<or> unat b = 3 \<or> unat b = 4 \<or> unat b = 5 \<or> unat b = 6 \<or>
      unat b = 7 \<or> unat b = 8 \<or> unat b = 9 \<or> unat b = 10 \<or> unat b = 11" by arith
  then have "b = 1 \<or> b = 2 \<or> b = 3 \<or> b = 4 \<or> b = 5 \<or> b = 6 \<or> b = 7 \<or> b = 8 \<or> b = 9 \<or> b = 10 \<or> b = 11"
    using word_unat_eq_iff [of b] by auto
  then show ?thesis by (auto simp: message_type_of_u8_def)
qed

definition well_framed :: "bytes \<Rightarrow> nat \<Rightarrow> bool" where
  \<comment> \<open>what the decoder accepts\<close>
  "well_framed bs max_bytes \<longleftrightarrow>
     length bs = 14 + payload_length bs \<and> length bs \<le> max_bytes \<and>
     le_value 0 (take 4 bs) = frame_magic \<and> bs ! 4 = frame_version \<and> valid_type (bs ! 5) \<and>
     (le_value 0 (drop (10 + payload_length bs) bs) :: u32) = crc32 (take (10 + payload_length bs) bs)"

lemma decode_frame_cases:
  "decode_frame bs mx =
     (if length bs < 14 then fail EC_PROTOCOL_ERROR ''frame shorter than header+checksum''
      else if le_value 0 (take 4 bs) \<noteq> frame_magic then fail EC_PROTOCOL_ERROR ''bad magic''
      else if bs ! 4 \<noteq> frame_version then fail EC_PROTOCOL_ERROR ''unsupported protocol version''
      else if \<not> valid_type (bs ! 5) then fail EC_PROTOCOL_ERROR ''invalid message type''
      else if 14 + payload_length bs > mx then fail EC_RESOURCE_LIMIT ''frame exceeds configured bound''
      else if length bs < 14 + payload_length bs then fail EC_PROTOCOL_ERROR ''truncated frame''
      else if length bs \<noteq> 14 + payload_length bs then fail EC_PROTOCOL_ERROR ''trailing bytes after frame''
      else if (le_value 0 (take 4 (drop (10 + payload_length bs) bs)) :: u32) \<noteq>
          crc32 (take (10 + payload_length bs) bs)
      then fail EC_PROTOCOL_ERROR ''frame checksum mismatch''
      else case message_type_of_u8 (bs ! 5) of
        Some t \<Rightarrow> ok \<lparr>f_type = t, f_payload = take (payload_length bs) (drop 10 bs)\<rparr>
      | None \<Rightarrow> fail EC_PROTOCOL_ERROR ''invalid message type'')"
  unfolding decode_frame_def Let_def kHeaderNoPayload_def kCrcBytes_def by (simp add: ac_simps)

lemma decode_frame_ok:
  "decode_frame bs mx = ok f \<longleftrightarrow> well_framed bs mx \<and> message_type_of_u8 (bs ! 5) = Some (f_type f) \<and>
     f_payload f = take (payload_length bs) (drop 10 bs)"
proof (cases "well_framed bs mx")
  case True
  then obtain t where t: "message_type_of_u8 (bs ! 5) = Some t" using valid_type_names by (auto simp: well_framed_def)
  have "take 4 (drop (10 + payload_length bs) bs) = drop (10 + payload_length bs) bs"
    using True by (simp add: well_framed_def)
  then have "decode_frame bs mx = ok \<lparr>f_type = t, f_payload = take (payload_length bs) (drop 10 bs)\<rparr>"
    using True t by (simp add: decode_frame_cases well_framed_def)
  with True t show ?thesis by (cases f) auto
next
  case False
  have "decode_frame bs mx \<noteq> ok f"
  proof
    assume "decode_frame bs mx = ok f"
    then have "length bs = 14 + payload_length bs \<and> 14 + payload_length bs \<le> mx \<and>
        le_value 0 (take 4 bs) = frame_magic \<and> bs ! 4 = frame_version \<and> valid_type (bs ! 5) \<and>
        (le_value 0 (take 4 (drop (10 + payload_length bs) bs)) :: u32) = crc32 (take (10 + payload_length bs) bs)"
      unfolding decode_frame_cases fail_def by (simp only: split: if_splits) (simp_all add: not_less)
    moreover from this have "take 4 (drop (10 + payload_length bs) bs) = drop (10 + payload_length bs) bs"
      by simp
    ultimately show False using False by (simp add: well_framed_def)
  qed
  then show ?thesis using False by simp
qed

lemma decode_frame_not_ok: "\<not> well_framed bs mx \<Longrightarrow> \<exists>e. decode_frame bs mx = Inl e"
  using decode_frame_ok [of bs mx] by (cases "decode_frame bs mx") auto

lemma five_parts:
  assumes "10 \<le> length bs"
  shows "bs = take 4 bs @ [bs ! 4] @ [bs ! 5] @ take 4 (drop 6 bs) @ drop 10 bs"
proof -
  have "drop 4 bs = bs ! 4 # drop 5 bs" "drop 5 bs = bs ! 5 # drop 6 bs"
    using assms Cons_nth_drop_Suc [of 4 bs] Cons_nth_drop_Suc [of 5 bs] by simp_all
  moreover have "drop 6 bs = take 4 (drop 6 bs) @ drop 10 bs"
    using append_take_drop_id [of 4 "drop 6 bs"] by simp
  ultimately show ?thesis using append_take_drop_id [of 4 bs] by simp
qed

lemma encode_decode:
  assumes "encode_frame f mx = ok bs" "length (f_payload f) < 2 ^ 32"
  shows "decode_frame bs mx = ok f"
proof -
  let ?n = "length (f_payload f)"
  have bs: "bs = put_u32 frame_magic @ [frame_version, message_type_to_u8 (f_type f)] @
      put_u32 (word_of_nat ?n) @ f_payload f @ put_u32 (crc32 (frame_body f))" and mx: "?n + 14 \<le> mx"
    using assms(1) by (auto simp: encode_frame_def frame_body_def put_u8_def Let_def fail_def
        kHeaderNoPayload_def kCrcBytes_def split: if_splits)
  have n: "payload_length bs = ?n"
    using assms(2) by (simp add: payload_length_def bs unsigned_of_nat take_bit_nat_eq_self)
  have "length (frame_body f) = 10 + ?n" "bs = frame_body f @ put_u32 (crc32 (frame_body f))"
    by (simp_all add: frame_body_def) (simp add: bs frame_body_def put_u8_def)
  then have body: "take (10 + ?n) bs = frame_body f"
    and tail: "drop (10 + ?n) bs = put_u32 (crc32 (frame_body f))" by simp_all
  have "well_framed bs mx"
    using mx tail unfolding well_framed_def n body by (simp add: bs nth_append)
  then show ?thesis by (simp add: decode_frame_ok n) (simp add: bs nth_append)
qed

lemma decode_encode:
  assumes "decode_frame bs mx = ok f"
  shows "encode_frame f mx = ok bs \<and> length (f_payload f) < 2 ^ 32"
proof -
  have wf: "well_framed bs mx" and t: "message_type_to_u8 (f_type f) = bs ! 5"
    and p: "f_payload f = take (payload_length bs) (drop 10 bs)"
    using assms message_type_to_of by (auto simp: decode_frame_ok)
  let ?n = "payload_length bs"
  have len: "length bs = 14 + ?n" "length (f_payload f) = ?n" using wf p by (auto simp: well_framed_def)
  have "le_value 0 (take 4 bs) = frame_magic" and v: "frame_version = bs ! 4"
    using wf unfolding well_framed_def by simp_all
  then have m: "put_u32 frame_magic = take 4 bs"
    using put_u32_le_value [of "take 4 bs"] len(1) by simp
  have l: "put_u32 (word_of_nat ?n) = take 4 (drop 6 bs)"
  proof -
    have "length (take 4 (drop 6 bs)) = 4" using len(1) by simp
    then show ?thesis by (simp only: payload_length_def of_nat_unat ucast_id put_u32_le_value)
  qed
  have "frame_body f = take 4 bs @ [bs ! 4] @ [bs ! 5] @ take 4 (drop 6 bs) @ take ?n (drop 10 bs)"
    unfolding frame_body_def len(2) unfolding m l t put_u8_def v p by simp
  moreover have "take (10 + ?n) bs = take 4 (take (10 + ?n) bs) @ [take (10 + ?n) bs ! 4] @
      [take (10 + ?n) bs ! 5] @ take 4 (drop 6 (take (10 + ?n) bs)) @ drop 10 (take (10 + ?n) bs)"
    by (rule five_parts) (simp add: len)
  ultimately have body: "frame_body f = take (10 + ?n) bs" by (simp add: drop_take)
  have "put_u32 (crc32 (frame_body f)) = drop (10 + ?n) bs"
    using wf put_u32_le_value [of "drop (10 + ?n) bs"] len by (simp add: body well_framed_def)
  then have "frame_body f @ put_u32 (crc32 (frame_body f)) = bs" by (simp add: body)
  moreover have "?n < 2 ^ 32"
    unfolding payload_length_def using unsigned_less [of "le_value 0 (take 4 (drop 6 bs)) :: u32", where 'a = nat] by simp
  ultimately show ?thesis
    using wf len by (simp add: encode_frame_def Let_def kHeaderNoPayload_def kCrcBytes_def well_framed_def)
qed

text \<open>
  C20: frames round-trip in both directions. A byte string decodes to a frame exactly when it is
  the encoding of that frame under the same bound (and the payload length fits its 32-bit field);
  in particular every accepted byte string is canonical.
\<close>

theorem frame_codec_inverse:
  "decode_frame bs mx = ok f \<longleftrightarrow> encode_frame f mx = ok bs \<and> length (f_payload f) < 2 ^ 32"
  using encode_decode decode_encode by blast

lemma well_framed_one_byte:
  assumes acc: "well_framed bs mx" and i: "i < length bs" and b: "b \<noteq> bs ! i"
  shows "\<not> well_framed (bs[i := b]) mx'"
proof
  assume acc': "well_framed (bs[i := b]) mx'"
  let ?n = "payload_length bs"
  have len: "length bs = 14 + ?n" and n: "payload_length (bs[i := b]) = ?n"
    using acc acc' by (simp_all add: well_framed_def)
  show False
  proof (cases "i < 10 + ?n")
    case True
    have "crc32 ((take (10 + ?n) bs)[i := b]) \<noteq> crc32 (take (10 + ?n) bs)"
      using True b len by (intro crc32_list_update) simp_all
    then show False
      using acc acc' True unfolding well_framed_def n by (simp add: take_update_swap)
  next
    case False
    then have "le_value 0 (drop (10 + ?n) (bs[i := b])) = (le_value 0 (drop (10 + ?n) bs) :: u32)"
      using acc acc' unfolding well_framed_def n by simp
    then have "drop (10 + ?n) (bs[i := b]) = drop (10 + ?n) bs"
      by (rule le_value_inj) (use len in simp_all)
    then have "drop (10 + ?n) (bs[i := b]) ! (i - (10 + ?n)) = drop (10 + ?n) bs ! (i - (10 + ?n))" by simp
    then show False using False i b by simp
  qed
qed

text \<open>
  C21: no frame survives a corrupted byte. Changing any single byte of an accepted frame, header,
  payload or checksum, makes the decoder reject it.
\<close>

theorem frame_corruption_detected:
  assumes "decode_frame bs mx = ok f" "i < length bs" "b \<noteq> bs ! i"
  shows "\<exists>e. decode_frame (bs[i := b]) mx' = Inl e"
  using assms well_framed_one_byte decode_frame_not_ok by (meson decode_frame_ok)

theorem frame_corruption_detected_witness:
  "\<exists>bs e. encode_frame \<lparr>f_type = HEARTBEAT, f_payload = [1, 2]\<rparr> 100 = ok bs
     \<and> decode_frame (bs[11 := bs ! 11 + 1]) 100 = Inl e"
proof -
  let ?f = "\<lparr>f_type = HEARTBEAT, f_payload = [1, 2]\<rparr>"
  obtain bs where bs: "encode_frame ?f 100 = ok bs" "length bs = 16"
    by (simp add: encode_frame_def frame_body_def Let_def kHeaderNoPayload_def kCrcBytes_def)
  have "decode_frame bs 100 = ok ?f" using bs(1) by (rule encode_decode) simp
  from frame_corruption_detected [OF this, of 11 "bs ! 11 + 1" 100] bs show ?thesis by auto
qed

end
