(* ===== verification/Transport.thy ===== *)
theory Transport
  imports Protocol "HOL-Library.Sublist"
begin

text \<open>
  Frames over stream sockets (\<open>src/core/runtime.cpp\<close>: \<open>send_all\<close>, \<open>recv_exact\<close>, \<open>recv_frame\<close>,
  \<open>send_frame\<close>).

  The receiving end of a socket is the list of segments that successive \<open>recv\<close> calls find; an
  empty segment and the end of the list are an end of file or an error. The sending end collects
  what has gone out and counts the calls; \<open>accept_bytes\<close> says how many bytes the \<open>n\<close>-th \<open>send\<close>
  takes, zero being a failure. The theorems relate \<open>recv_frame\<close> to a parser of the byte stream,
  whatever the segments are, and show what arrives of a sequence of frames.
\<close>

section \<open>Definitions\<close>

type_synonym segments = "bytes list"

fun sys_recv :: "nat \<Rightarrow> segments \<Rightarrow> bytes \<times> segments" where
  "sys_recv n [] = ([], [])"
| "sys_recv n (c # cs) = (take n c, if length c \<le> n then cs else drop n c # cs)"

function recv_exact :: "nat \<Rightarrow> segments \<Rightarrow> bytes option \<times> segments" where
  "recv_exact n segs =
     (if n = 0 then (Some [], segs)
      else let (r, segs) = sys_recv n segs
      in if r = [] then (None, segs)
      else let (rest, segs) = recv_exact (n - length r) segs
      in (map_option (\<lambda>bs. r @ bs) rest, segs))"
  by pat_completeness auto
termination
  by (relation "measure fst") auto

declare recv_exact.simps [simp del]

definition recv_frame :: "nat \<Rightarrow> segments \<Rightarrow> frame result \<times> segments" where
  \<comment> \<open>\<open>max_bytes - kHeaderNoPayload - kCrcBytes\<close> is computed in \<open>std::size_t\<close>\<close>
  "recv_frame max_bytes segs =
     (let (header, segs) = recv_exact kHeaderNoPayload segs
      in case header of
        None \<Rightarrow> (fail EC_PROTOCOL_ERROR ''connection closed during header'', segs)
      | Some header \<Rightarrow>
          let payload_len = payload_length header
          in if payload_len > unat (word_of_nat max_bytes - word_of_nat kHeaderNoPayload - word_of_nat kCrcBytes :: u64)
          then (fail EC_RESOURCE_LIMIT ''frame too large'', segs)
          else let (tail, segs) = recv_exact (payload_len + kCrcBytes) segs
          in case tail of
            None \<Rightarrow> (fail EC_PROTOCOL_ERROR ''connection closed during payload'', segs)
          | Some tail \<Rightarrow> (decode_frame (header @ tail) max_bytes, segs))"

record out_socket =
  out_bytes :: bytes
  out_calls :: nat

function send_all :: "(nat \<Rightarrow> nat) \<Rightarrow> bytes \<Rightarrow> out_socket \<Rightarrow> bool \<times> out_socket" where
  "send_all accept_bytes bs s =
     (if bs = [] then (True, s)
      else let sent = min (accept_bytes (out_calls s)) (length bs);
               s = s\<lparr>out_bytes := out_bytes s @ take sent bs, out_calls := Suc (out_calls s)\<rparr>
      in if sent = 0 then (False, s) else send_all accept_bytes (drop sent bs) s)"
  by pat_completeness auto
termination
  by (relation "measure (\<lambda>(_, bs, _). length bs)") auto

declare send_all.simps [simp del]

definition send_frame :: "(nat \<Rightarrow> nat) \<Rightarrow> frame \<Rightarrow> nat \<Rightarrow> out_socket \<Rightarrow> bool \<times> out_socket" where
  "send_frame accept_bytes f max_bytes s =
     (case encode_frame f max_bytes of
        Inl e \<Rightarrow> (False, s)
      | Inr enc \<Rightarrow> send_all accept_bytes enc s)"

section \<open>Sending\<close>

lemma send_all_spec:
  "send_all acc bs s = (good, s') \<Longrightarrow>
   \<exists>k \<le> length bs. out_bytes s' = out_bytes s @ take k bs \<and> (good \<longleftrightarrow> k = length bs)"
proof (induction acc bs s arbitrary: good s' rule: send_all.induct)
  case (1 acc bs s)
  define n where "n = min (acc (out_calls s)) (length bs)"
  consider "bs = []" | "bs \<noteq> []" "n = 0" | "bs \<noteq> []" "n \<noteq> 0" by blast
  then show ?case
  proof cases
    case 3
    then have rec: "send_all acc (drop n bs) (s\<lparr>out_bytes := out_bytes s @ take n bs, out_calls := Suc (out_calls s)\<rparr>) = (good, s')"
      using "1.prems" by (simp add: send_all.simps [of acc bs] Let_def flip: n_def)
    have "n \<le> length bs" by (simp add: n_def)
    moreover from 3 "1.IH" [of n, OF _ n_def refl _ rec] obtain k where "k \<le> length (drop n bs)"
      "out_bytes s' = out_bytes s @ take n bs @ take k (drop n bs)" "good \<longleftrightarrow> k = length (drop n bs)"
      by auto
    ultimately show ?thesis by (intro exI [of _ "n + k"]) (auto simp: take_add)
  qed (use "1.prems" in \<open>auto simp: send_all.simps n_def Let_def split: if_splits\<close>)
qed

lemma send_all_progress:
  "\<forall>n. 0 < acc n \<Longrightarrow> fst (send_all acc bs s)"
proof (induction acc bs s rule: send_all.induct)
  case (1 acc bs s)
  then show ?case by (subst send_all.simps) (auto simp: Let_def min_def dest: spec [of _ "out_calls s"])
qed

lemma send_frame_spec:
  assumes "send_frame acc f mx s = (good, s')"
  shows "if good then \<exists>bs. encode_frame f mx = ok bs \<and> out_bytes s' = out_bytes s @ bs
    else prefix (out_bytes s) (out_bytes s')"
  using assms by (auto simp: send_frame_def split: sum.splits dest!: send_all_spec)

section \<open>Receiving from a segmented stream\<close>

definition flowing :: "segments \<Rightarrow> bool" where
  \<comment> \<open>no call reports an end of file before the end\<close>
  "flowing segs \<longleftrightarrow> [] \<notin> set segs"

lemma flowing_simps [simp]: "flowing []" "flowing (c # cs) \<longleftrightarrow> c \<noteq> [] \<and> flowing cs"
  by (auto simp: flowing_def)

lemma flowing_concat: "flowing segs \<Longrightarrow> concat segs = [] \<longleftrightarrow> segs = []"
  by (cases segs) auto

lemma sys_recv_flowing:
  assumes "flowing segs" "0 < n" "sys_recv n segs = (r, segs')"
  shows "flowing segs'" "r @ concat segs' = concat segs" "length r \<le> n" "r = [] \<longleftrightarrow> concat segs = []"
  using assms by (cases segs; auto split: if_splits)+

lemma recv_exact_flowing:
  "flowing segs \<Longrightarrow> recv_exact n segs = (r, segs') \<Longrightarrow>
   flowing segs' \<and>
   (if n \<le> length (concat segs) then r = Some (take n (concat segs)) \<and> concat segs' = drop n (concat segs)
    else r = None \<and> concat segs' = [])"
proof (induction n segs arbitrary: r segs' rule: recv_exact.induct)
  case (1 n segs)
  show ?case
  proof (cases "n = 0")
    case True
    then show ?thesis using "1.prems" by (auto simp: recv_exact.simps)
  next
    case False
    obtain got segs1 where got: "sys_recv n segs = (got, segs1)" by force
    note part = sys_recv_flowing [OF "1.prems"(1) _ got]
    have n: "0 < n" using False by simp
    show ?thesis
    proof (cases "got = []")
      case True
      have fl: "flowing segs1" and e: "concat segs = []" using part n True by blast+
      then have e': "concat segs1 = []" using part(2) n True by simp
      have "r = None" "segs' = segs1" using "1.prems"(2) False got True by (auto simp: recv_exact.simps)
      then show ?thesis unfolding e using fl e' n by simp
    next
      case more: False
      obtain rest segs2 where rest: "recv_exact (n - length got) segs1 = (rest, segs2)" by force
      then have r: "r = map_option (\<lambda>bs. got @ bs) rest" "segs' = segs2"
        using "1.prems"(2) False got more by (auto simp: recv_exact.simps)
      have IH: "flowing segs2 \<and> (if n - length got \<le> length (concat segs1)
          then rest = Some (take (n - length got) (concat segs1)) \<and> concat segs2 = drop (n - length got) (concat segs1)
          else rest = None \<and> concat segs2 = [])"
        by (rule "1.IH" [OF False got [symmetric] refl more]) (use part n rest in simp_all)
      have whole: "concat segs = got @ concat segs1" "length got \<le> n" using part n by simp_all
      then show ?thesis using IH unfolding r by (auto split: if_splits)
    qed
  qed
qed

text \<open>The stream parser that \<open>recv_frame\<close> implements.\<close>

definition stream_frame :: "nat \<Rightarrow> bytes \<Rightarrow> frame result \<times> bytes" where
  "stream_frame mx bs =
     (if length bs < 10 then (fail EC_PROTOCOL_ERROR ''connection closed during header'', [])
      else if payload_length bs + 14 > mx then (fail EC_RESOURCE_LIMIT ''frame too large'', drop 10 bs)
      else if length bs < payload_length bs + 14
      then (fail EC_PROTOCOL_ERROR ''connection closed during payload'', [])
      else (decode_frame (take (payload_length bs + 14) bs) mx, drop (payload_length bs + 14) bs))"

lemma payload_length_take: "10 \<le> n \<Longrightarrow> payload_length (take n bs) = payload_length bs"
  by (simp add: payload_length_def drop_take min_def)

lemma frame_room:
  assumes "14 \<le> mx" "mx < 2 ^ 64"
  shows "unat (word_of_nat mx - word_of_nat kHeaderNoPayload - word_of_nat kCrcBytes :: u64) = mx - 14"
proof -
  have "(word_of_nat mx - word_of_nat kHeaderNoPayload - word_of_nat kCrcBytes :: u64) = word_of_nat (mx - 14)"
    using assms(1) by (simp add: kHeaderNoPayload_def kCrcBytes_def of_nat_diff)
  then show ?thesis using assms(2) by (simp add: unsigned_of_nat take_bit_nat_eq_self)
qed

lemma recv_frame_stream:
  assumes fl: "flowing segs" and mx: "14 \<le> mx" "mx < 2 ^ 64" and run: "recv_frame mx segs = (r, segs')"
  shows "flowing segs' \<and> (r, concat segs') = stream_frame mx (concat segs)"
proof -
  let ?bs = "concat segs" and ?n = "payload_length (concat segs)"
  obtain h segs1 where h: "recv_exact 10 segs = (h, segs1)" by force
  note head = recv_exact_flowing [OF fl h]
  show ?thesis
  proof (cases "10 \<le> length ?bs")
    case False
    then show ?thesis using run h head by (auto simp: recv_frame_def kHeaderNoPayload_def stream_frame_def)
  next
    case len: True
    then have hd: "h = Some (take 10 ?bs)" "concat segs1 = drop 10 ?bs" "flowing segs1" using head by simp_all
    have n: "payload_length (take 10 ?bs) = ?n" by (simp add: payload_length_take)
    obtain t segs2 where t: "recv_exact (?n + 4) segs1 = (t, segs2)" by force
    note tl = recv_exact_flowing [OF hd(3) t]
    have joined: "take 10 ?bs @ take (?n + 4) (drop 10 ?bs) = take (?n + 14) ?bs"
      using take_add [of 10 "?n + 4" ?bs] by (simp add: add.commute)
    have run': "(r, segs') = (if mx - 14 < ?n then (fail EC_RESOURCE_LIMIT ''frame too large'', segs1)
        else case t of None \<Rightarrow> (fail EC_PROTOCOL_ERROR ''connection closed during payload'', segs2)
          | Some tail \<Rightarrow> (decode_frame (take 10 ?bs @ tail) mx, segs2))"
      using run unfolding recv_frame_def Let_def frame_room [OF mx] unfolding kHeaderNoPayload_def h prod.case hd(1)
        option.case n kCrcBytes_def t by simp
    consider "mx < ?n + 14" | "?n + 14 \<le> mx" "length ?bs < ?n + 14" | "?n + 14 \<le> mx" "?n + 14 \<le> length ?bs"
      by linarith
    then show ?thesis
    proof cases
      case 1
      then have "mx - 14 < ?n" using mx by linarith
      then show ?thesis using 1 len hd run' by (simp add: stream_frame_def)
    next
      case 2
      then have "t = None" "concat segs2 = []" "flowing segs2" "\<not> mx - 14 < ?n" using tl len hd by auto
      then show ?thesis using 2 len run' by (simp add: stream_frame_def)
    next
      case 3
      then have "t = Some (take (?n + 4) (drop 10 ?bs))" "concat segs2 = drop (?n + 4) (drop 10 ?bs)"
        "flowing segs2" "\<not> mx - 14 < ?n" using tl hd by auto
      then show ?thesis using 3 len run' joined by (simp add: stream_frame_def add.commute)
    qed
  qed
qed

text \<open>
  C24: \<open>recv_frame\<close> implements the stream parser. However the bytes are cut into segments, its
  result and the bytes it leaves unread are those of \<open>stream_frame\<close> on the concatenation.
\<close>

theorem recv_frame_refines_stream:
  assumes "flowing segs" "14 \<le> mx" "mx < 2 ^ 64" "recv_frame mx segs = (r, segs')"
  shows "flowing segs' \<and> (r, concat segs') = stream_frame mx (concat segs)"
  using assms by (rule recv_frame_stream)

theorem recv_frame_refines_stream_witness:
  "\<exists>r segs'. recv_frame 100 [[1, 2, 3], [4]] = (r, segs')
     \<and> (r, concat segs') = stream_frame 100 [1, 2, 3, 4]"
proof -
  obtain r segs' where run: "recv_frame 100 [[1, 2, 3], [4]] = (r, segs')" by force
  show ?thesis using recv_frame_refines_stream [OF _ _ _ run] run by simp
qed

section \<open>Delivery\<close>

lemma stream_frame_encoded:
  assumes "encode_frame f mx = ok bs" "length (f_payload f) < 2 ^ 32"
  shows "stream_frame mx (bs @ rest) = (ok f, rest)"
proof -
  have d: "decode_frame bs mx = ok f" using assms by (rule encode_decode)
  then have wf: "well_framed bs mx" by (simp add: decode_frame_ok)
  then have len: "length bs = payload_length bs + 14" "payload_length bs + 14 \<le> mx"
    by (simp_all add: well_framed_def)
  moreover have "payload_length (bs @ rest) = payload_length bs"
    using payload_length_take [of "length bs" "bs @ rest"] len(1) by simp
  ultimately show ?thesis using d by (simp add: stream_frame_def)
qed

lemma recv_frame_encoded:
  assumes "flowing segs" "14 \<le> mx" "mx < 2 ^ 64" "concat segs = bs @ rest"
    "encode_frame f mx = ok bs" "length (f_payload f) < 2 ^ 32"
  shows "\<exists>segs'. recv_frame mx segs = (ok f, segs') \<and> flowing segs' \<and> concat segs' = rest"
proof -
  obtain r segs' where run: "recv_frame mx segs = (r, segs')" by force
  show ?thesis
    using recv_frame_stream [OF assms(1-3) run] stream_frame_encoded [OF assms(5,6), of rest] assms(4) run
    by simp
qed

text \<open>A frame that is returned has been taken off the input, end-of-file segments or not.\<close>

lemma sys_recv_bytes: "sys_recv n segs = (r, segs') \<Longrightarrow> r @ concat segs' = concat segs"
  by (cases segs) (auto split: if_splits)

lemma recv_exact_bytes:
  "recv_exact n segs = (Some bs, segs') \<Longrightarrow> bs @ concat segs' = concat segs \<and> n \<le> length bs"
proof (induction n segs arbitrary: bs segs' rule: recv_exact.induct)
  case (1 n segs)
  show ?case
  proof (cases "n = 0")
    case True
    then show ?thesis using "1.prems" by (simp add: recv_exact.simps)
  next
    case False
    obtain got segs1 where got: "sys_recv n segs = (got, segs1)" by force
    obtain rest segs2 where rest: "recv_exact (n - length got) segs1 = (rest, segs2)" by force
    have more: "got \<noteq> []" using "1.prems" False got by (auto simp: recv_exact.simps)
    then obtain tl where tl: "rest = Some tl" "bs = got @ tl" "segs' = segs2"
      using "1.prems" False got rest by (auto simp: recv_exact.simps)
    then show ?thesis
      using "1.IH" [OF False got [symmetric] refl more rest [unfolded tl(1)]] sys_recv_bytes [OF got] by auto
  qed
qed

lemma recv_frame_consumes:
  assumes "recv_frame mx segs = (ok f, segs')"
  shows "length (concat segs') < length (concat segs)"
proof -
  obtain h segs1 t where "recv_exact 10 segs = (Some h, segs1)"
    "recv_exact (payload_length h + 4) segs1 = (Some t, segs')"
    using assms by (auto simp: recv_frame_def kHeaderNoPayload_def kCrcBytes_def Let_def fail_def
        split: prod.splits option.splits if_splits)
  from this [THEN recv_exact_bytes] show ?thesis
    by (metis add_gr_0 le_add2 length_append less_add_same_cancel2 less_le_trans zero_less_numeral)
qed

lemma recv_exact_shrinks: "recv_exact n segs = (r, segs') \<Longrightarrow> length (concat segs') \<le> length (concat segs)"
proof (induction n segs arbitrary: r segs' rule: recv_exact.induct)
  case (1 n segs)
  obtain got segs1 where got: "sys_recv n segs = (got, segs1)" by force
  obtain rest segs2 where rest: "recv_exact (n - length got) segs1 = (rest, segs2)" by force
  have part: "length (concat segs1) \<le> length (concat segs)"
    using arg_cong [OF sys_recv_bytes [OF got], of length] by simp
  consider "n = 0" | "n \<noteq> 0" "got = []" | "n \<noteq> 0" "got \<noteq> []" by blast
  then show ?case
  proof cases
    case 3
    then have "segs' = segs2" using "1.prems" got rest by (simp add: recv_exact.simps [of n segs])
    then show ?thesis using "1.IH" [OF 3(1) got [symmetric] refl 3(2) rest] part by simp
  qed (use "1.prems" got part in \<open>auto simp: recv_exact.simps\<close>)
qed

lemma recv_frame_shrinks: "recv_frame mx segs = (r, segs') \<Longrightarrow> length (concat segs') \<le> length (concat segs)"
  by (auto simp: recv_frame_def Let_def split: prod.splits option.splits if_splits
      dest!: recv_exact_shrinks)

end
