(* ===== verification/Worker_Messages.thy ===== *)
theory Worker_Messages
  imports Transport
begin

text \<open>
  The payloads workers exchange with the coordinator (\<open>src/core/runtime.cpp\<close>: \<open>enc_device\<close>,
  \<open>dec_device\<close>, \<open>enc_link\<close>, \<open>dec_link\<close>, \<open>enc_meas\<close>, \<open>dec_meas\<close>, the hello, the reply to it, the route
  request and its answer). The compact payloads drop fields: \<open>received_device\<close>,
  \<open>received_link\<close> and \<open>received_measurement\<close> say what is left of a record on the other side, and
  every payload fits the 16 MiB frame bound.
\<close>

section \<open>Definitions\<close>

definition kMax :: nat where
  "kMax = 16 * 1024 * 1024"

definition f64_to_u64 :: "(f64 \<Rightarrow> u64) \<Rightarrow> f64 \<Rightarrow> u64" where
  \<comment> \<open>\<open>static_cast<std::uint64_t>\<close> of a \<open>double\<close> drops the fraction; \<open>ub\<close> is what it gives where
     the truncated value is not representable (undefined in C++)\<close>
  "f64_to_u64 ub x =
     (case x of
        F64 q \<Rightarrow> let t = (if 0 \<le> q then \<lfloor>q\<rfloor> else \<lceil>q\<rceil>) in if 0 \<le> t \<and> t < 2 ^ 64 then word_of_int t else ub x
      | _ \<Rightarrow> ub x)"

definition enc_device :: "device_record \<Rightarrow> bytes" where
  "enc_device d =
     put_u64 (id_value (dev_id d)) @ put_str (dev_logical_name d) @ put_str (dev_architecture d) @
     put_str (dev_device_generation d) @ put_u8 (node_kind_to_u8 (dev_kind d)) @
     put_u8 (device_health_state_to_u8 (dev_health d)) @
     put_u8 (evidence_class_to_u8 (ev_class (dev_evidence d))) @
     put_u32 (ev_provenance (dev_evidence d)) @ put_u64 (gen_value (dev_generation d)) @
     put_u64 (cap_nominal_bandwidth_bps (dev_capability d)) @
     put_bool (cap_peer_access_supported (dev_capability d)) @ put_str (dev_pci_identity d)"

definition dec_device :: "device_record read" where
  "dec_device = do {
     i \<leftarrow> read_u64; name \<leftarrow> payload_str; arch \<leftarrow> payload_str; dg \<leftarrow> payload_str; kind \<leftarrow> read_u8;
     health \<leftarrow> read_u8; ec \<leftarrow> read_u8; prov \<leftarrow> read_u32; g \<leftarrow> read_u64; bw \<leftarrow> read_u64;
     peer \<leftarrow> read_bool; pci \<leftarrow> payload_str;
     State_Monad.return (default_device\<lparr>dev_id := Ident i, dev_logical_name := name,
       dev_architecture := arch, dev_device_generation := dg, dev_kind := node_kind_of_u8 kind,
       dev_health := device_health_state_of_u8 health,
       dev_evidence := default_evidence\<lparr>ev_class := evidence_class_of_u8 ec, ev_provenance := prov,
         ev_source := ''worker''\<rparr>,
       dev_generation := Generation g,
       dev_capability := default_capability\<lparr>cap_nominal_bandwidth_bps := bw,
         cap_peer_access_supported := peer\<rparr>,
       dev_pci_identity := pci, dev_vendor := ''worker'', dev_backend := ''worker'',
       dev_backend_instance := ''worker''\<rparr>) }"

definition enc_link :: "link_record \<Rightarrow> bytes" where
  "enc_link l =
     put_u64 (id_value (lk_id l)) @ put_u64 (id_value (lk_source l)) @ put_u64 (id_value (lk_target l)) @
     put_bool (lk_directed l) @ put_u8 (link_operational_state_to_u8 (lk_state l)) @
     put_u8 (interconnect_technology_to_u8 (lk_technology l)) @
     put_u64 (cap_nominal_bandwidth_bps (lk_capability l)) @ put_u64 (gen_value (lk_generation l)) @
     put_str (lk_physical_identifier l)"

definition dec_link :: "timestamp \<Rightarrow> link_record read" where
  \<comment> \<open>\<open>now\<close> is the value of \<open>now_timestamp()\<close>\<close>
  "dec_link now = do {
     i \<leftarrow> read_u64; src \<leftarrow> read_u64; tgt \<leftarrow> read_u64; dir \<leftarrow> read_bool; st \<leftarrow> read_u8; te \<leftarrow> read_u8;
     bw \<leftarrow> read_u64; g \<leftarrow> read_u64; phys \<leftarrow> payload_str;
     State_Monad.return (default_link\<lparr>lk_id := Ident i, lk_source := Ident src, lk_target := Ident tgt,
       lk_directed := dir, lk_state := link_operational_state_of_u8 st,
       lk_technology := interconnect_technology_of_u8 te,
       lk_capability := default_capability\<lparr>cap_nominal_bandwidth_bps := bw\<rparr>,
       lk_generation := Generation g, lk_physical_identifier := phys,
       lk_evidence := Evidence EV_SYNTHETIC PROV_SYNTHETIC_FIXTURE ''worker'' ''worker-published'',
       lk_last_observation := now\<rparr>) }"

definition enc_meas :: "(f64 \<Rightarrow> u64) \<Rightarrow> measurement_record \<Rightarrow> bytes" where
  "enc_meas ub m =
     put_u64 (id_value (m_id m)) @ put_u64 (id_value (m_source m)) @ put_u64 (id_value (m_target m)) @
     put_u64 (f64_to_u64 ub (m_bandwidth_bps m)) @ put_bool (m_valid m) @
     put_u8 (evidence_class_to_u8 (ev_class (m_evidence m))) @ put_u64 (m_payload_bytes m)"

definition dec_meas :: "timestamp \<Rightarrow> measurement_record read" where
  "dec_meas now = do {
     i \<leftarrow> read_u64; src \<leftarrow> read_u64; tgt \<leftarrow> read_u64; bw \<leftarrow> read_u64; v \<leftarrow> read_bool; ec \<leftarrow> read_u8;
     pb \<leftarrow> read_u64;
     State_Monad.return (default_measurement\<lparr>m_id := Ident i, m_source := Ident src,
       m_target := Ident tgt, m_bandwidth_bps := f64_of_u64 bw, m_valid := v,
       m_evidence := default_evidence\<lparr>ev_class := evidence_class_of_u8 ec, ev_source := ''worker''\<rparr>,
       m_payload_bytes := pb, m_measured_at := now\<rparr>) }"

record worker_descriptor =
  wd_worker :: worker_id
  wd_boot :: worker_boot_id
  wd_epoch :: coordinator_epoch

definition hello_payload :: "worker_descriptor \<Rightarrow> bytes" where
  "hello_payload desc =
     put_u64 (id_value (wd_worker desc)) @ put_u64 (id_value (wd_boot desc)) @
     put_u64 (gen_value (wd_epoch desc))"

definition read_hello :: "worker_descriptor read" where
  "read_hello = do {
     wid \<leftarrow> read_u64; boot \<leftarrow> read_u64; ep \<leftarrow> read_u64;
     State_Monad.return \<lparr>wd_worker = Ident wid, wd_boot = Ident boot, wd_epoch = Generation ep\<rparr> }"

definition route_request :: "device_id \<Rightarrow> device_id \<Rightarrow> bytes" where
  "route_request src tgt = put_u64 (id_value src) @ put_u64 (id_value tgt)"

definition read_route_request :: "(device_id \<times> device_id) read" where
  "read_route_request = do {
     src \<leftarrow> read_u64; tgt \<leftarrow> read_u64; State_Monad.return (Ident src, Ident tgt) }"

definition route_reply :: "route_decision result \<Rightarrow> bytes" where
  "route_reply dec =
     (case dec of
        Inr d \<Rightarrow>
          put_u8 (route_decision_outcome_to_u8 (rd_outcome d)) @
          put_u64 (case rd_selected d of Some p \<Rightarrow> id_value p | None \<Rightarrow> 0) @ put_str (rd_explanation d)
      | Inl e \<Rightarrow>
          put_u8 (route_decision_outcome_to_u8 RD_NO_ROUTE) @ put_u64 0 @ put_str (error_to_string e))"

definition read_route_reply :: "route_decision read" where
  "read_route_reply = do {
     out \<leftarrow> read_u8; sel \<leftarrow> read_u64; expl \<leftarrow> payload_str;
     State_Monad.return (default_route_decision\<lparr>rd_outcome := route_decision_outcome_of_u8 out,
       rd_selected := (if sel \<noteq> 0 then Some (Ident sel) else None), rd_explanation := expl\<rparr>) }"

section \<open>What is received\<close>

definition received_device :: "device_record \<Rightarrow> device_record" where
  "received_device d = default_device\<lparr>dev_id := dev_id d, dev_logical_name := take 65535 (dev_logical_name d),
     dev_architecture := take 65535 (dev_architecture d),
     dev_device_generation := take 65535 (dev_device_generation d), dev_kind := dev_kind d,
     dev_health := dev_health d,
     dev_evidence := default_evidence\<lparr>ev_class := ev_class (dev_evidence d),
       ev_provenance := ev_provenance (dev_evidence d), ev_source := ''worker''\<rparr>,
     dev_generation := dev_generation d,
     dev_capability := default_capability\<lparr>
       cap_nominal_bandwidth_bps := cap_nominal_bandwidth_bps (dev_capability d),
       cap_peer_access_supported := cap_peer_access_supported (dev_capability d)\<rparr>,
     dev_pci_identity := take 65535 (dev_pci_identity d), dev_vendor := ''worker'',
     dev_backend := ''worker'', dev_backend_instance := ''worker''\<rparr>"

definition received_link :: "timestamp \<Rightarrow> link_record \<Rightarrow> link_record" where
  "received_link now l = default_link\<lparr>lk_id := lk_id l, lk_source := lk_source l, lk_target := lk_target l,
     lk_directed := lk_directed l, lk_state := lk_state l, lk_technology := lk_technology l,
     lk_capability := default_capability\<lparr>
       cap_nominal_bandwidth_bps := cap_nominal_bandwidth_bps (lk_capability l)\<rparr>,
     lk_generation := lk_generation l, lk_physical_identifier := take 65535 (lk_physical_identifier l),
     lk_evidence := Evidence EV_SYNTHETIC PROV_SYNTHETIC_FIXTURE ''worker'' ''worker-published'',
     lk_last_observation := now\<rparr>"

definition received_measurement :: "(f64 \<Rightarrow> u64) \<Rightarrow> timestamp \<Rightarrow> measurement_record \<Rightarrow> measurement_record" where
  "received_measurement ub now m = default_measurement\<lparr>m_id := m_id m, m_source := m_source m,
     m_target := m_target m, m_bandwidth_bps := f64_of_u64 (f64_to_u64 ub (m_bandwidth_bps m)),
     m_valid := m_valid m,
     m_evidence := default_evidence\<lparr>ev_class := ev_class (m_evidence m), ev_source := ''worker''\<rparr>,
     m_payload_bytes := m_payload_bytes m, m_measured_at := now\<rparr>"

definition device_castable :: "device_record \<Rightarrow> bool" where
  "device_castable d \<longleftrightarrow> node_kind_canon (dev_kind d) \<and> device_health_state_canon (dev_health d) \<and>
     evidence_class_canon (ev_class (dev_evidence d))"

definition link_castable :: "link_record \<Rightarrow> bool" where
  "link_castable l \<longleftrightarrow> link_operational_state_canon (lk_state l) \<and>
     interconnect_technology_canon (lk_technology l)"

lemma decodes_payload_str: "decodes payload_str (take 65535 s) (put_str s)"
proof -
  have "put_str s = put_u16 (word_of_nat (length (take 65535 s))) @ put_chars (take 65535 s)"
    by (simp add: put_str_def Let_def min_def)
  then show ?thesis using decodes_str [of "take 65535 s" 65535] by (simp add: payload_str_def)
qed

lemma put_str_length: "length (put_str s) \<le> 65537"
  by (simp add: put_str_def put_chars_def Let_def)

lemmas payload_decodes =
  u8c.decodes_enc [OF TrueI] u32c.decodes_enc [OF TrueI] u64c.decodes_enc [OF TrueI]
  boolc.decodes_enc [OF TrueI] decodes_payload_str

lemma decodes_device: "device_castable d \<Longrightarrow> decodes dec_device (received_device d) (enc_device d)"
  unfolding dec_device_def enc_device_def device_castable_def received_device_def
  by (rule decodes_last decodes_bind payload_decodes | simp add: enum_simps)+

lemma decodes_link: "link_castable l \<Longrightarrow> decodes (dec_link now) (received_link now l) (enc_link l)"
  unfolding dec_link_def enc_link_def link_castable_def received_link_def
  by (rule decodes_last decodes_bind payload_decodes | simp add: enum_simps)+

lemma decodes_meas:
  "evidence_class_canon (ev_class (m_evidence m)) \<Longrightarrow>
   decodes (dec_meas now) (received_measurement ub now m) (enc_meas ub m)"
  unfolding dec_meas_def enc_meas_def received_measurement_def
  by (rule decodes_last decodes_bind payload_decodes | simp add: enum_simps)+

lemma decodes_hello: "decodes read_hello desc (hello_payload desc)"
  unfolding read_hello_def hello_payload_def
  by (rule decodes_last decodes_bind payload_decodes | simp)+

lemma decodes_route_request: "decodes read_route_request (src, tgt) (route_request src tgt)"
  unfolding read_route_request_def route_request_def
  by (rule decodes_last decodes_bind payload_decodes | simp)+

text \<open>Running a payload reader on a whole payload.\<close>

definition read_payload_of :: "'a read \<Rightarrow> bytes \<Rightarrow> 'a \<times> bool" where
  "read_payload_of m bs = (let (v, r) = run_state m (start_reader bs) in (v, rd_bad r))"

lemma read_payload_decodes: "decodes m v bs \<Longrightarrow> read_payload_of m bs = (v, False)"
  using decodes_run(1) [of m v bs 0 bs "[]"] by (simp add: read_payload_of_def)

section \<open>Bounds\<close>

lemma payload_bounds:
  "length (enc_device d) \<le> 4 * 65537 + 32" "length (enc_link l) \<le> 65537 + 43" "length (enc_meas ub m) = 42"
  "length (hello_payload desc) = 24" "length (route_request src tgt) = 16" "length (route_reply dec) \<le> 65537 + 9"
proof -
  note [simp] = put_bool_def
  show "length (enc_device d) \<le> 4 * 65537 + 32"
    using put_str_length [of "dev_logical_name d"] put_str_length [of "dev_architecture d"]
      put_str_length [of "dev_device_generation d"] put_str_length [of "dev_pci_identity d"]
    by (simp add: enc_device_def)
  show "length (enc_link l) \<le> 65537 + 43"
    using put_str_length [of "lk_physical_identifier l"] by (simp add: enc_link_def)
  show "length (route_reply dec) \<le> 65537 + 9"
    using put_str_length by (auto simp: route_reply_def split: sum.split)
qed (simp_all add: enc_meas_def hello_payload_def route_request_def put_bool_def)

lemma encode_frame_fits:
  "length (f_payload f) + 14 \<le> mx \<Longrightarrow> \<exists>bs. encode_frame f mx = ok bs"
  by (simp add: encode_frame_def Let_def kHeaderNoPayload_def kCrcBytes_def)

end
