(* ===== verification/Coordinator.thy ===== *)
theory Coordinator
  imports Worker_Messages Route Registry_Properties
begin

text \<open>
  \<open>CoordinatorServer\<close> (\<open>runtime.hpp\<close>, \<open>src/core/runtime.cpp\<close>): the shared state, the handler of one
  connection and the server that runs many of them.

  \<open>handle_connection\<close> runs on a thread of its own. Its control points between two accesses to
  shared state are the \<open>phase\<close> of a \<open>connection\<close>, and \<open>conn_step\<close> executes the handler from one
  such point to the next: a section under \<open>impl_->mu\<close>, one registry call (each holds the registry
  lock) or one of the two state reads of \<open>decide_route\<close>. \<open>server_step\<close> interleaves the threads;
  \<open>handle_connection\<close> is one handler running alone to its end. The local variables \<open>wid\<close>, \<open>boot\<close>,
  \<open>reported_epoch\<close> and \<open>accepted\<close> are arguments of the phases.
\<close>

section \<open>Shared state and connections\<close>

record coordinator =
  co_limits :: limits
  co_epoch :: coordinator_epoch
  co_last_boot :: "worker_id \<rightharpoonup> worker_boot_id"
  co_live :: nat
  co_registry :: state
  co_world :: world

datatype ending
  = Bad_Hello
  | Reply_Failed worker_descriptor bool
  | Rejected worker_descriptor
  | Finished worker_descriptor

datatype phase
  = Awaiting_Hello
  | Replying worker_descriptor bool
  | Serving worker_descriptor
  | Routing worker_descriptor Fabric_Types.consistent_view route_decision
  | Disconnecting worker_descriptor
  | Departing worker_descriptor
  | Closed ending

record connection =
  cn_phase :: phase
  cn_in :: segments
  cn_out :: out_socket
  cn_accept :: "nat \<Rightarrow> nat"

definition new_coordinator :: "limits \<Rightarrow> world \<Rightarrow> coordinator" where
  "new_coordinator lms w =
     (let (e, w) = fresh_generation CoordinatorEpochTag w
      in \<lparr>co_limits = lms, co_epoch = e, co_last_boot = Map.empty, co_live = 0,
          co_registry = initial_state, co_world = w\<rparr>)"

definition new_connection :: "segments \<Rightarrow> (nat \<Rightarrow> nat) \<Rightarrow> connection" where
  "new_connection segs acc =
     \<lparr>cn_phase = Awaiting_Hello, cn_in = segs, cn_out = \<lparr>out_bytes = [], out_calls = 0\<rparr>, cn_accept = acc\<rparr>"

definition live_worker_count :: "coordinator \<Rightarrow> nat" where
  "live_worker_count c = co_live c"

section \<open>The handshake\<close>

definition authorise :: "coordinator \<Rightarrow> worker_descriptor \<Rightarrow> bool \<times> coordinator" where
  \<comment> \<open>the critical section that validates epoch and boot\<close>
  "authorise c desc =
     (if wd_epoch desc \<noteq> co_epoch c then (False, c)
      else let admit = (True, c\<lparr>co_last_boot := (co_last_boot c)(wd_worker desc \<mapsto> wd_boot desc),
                                co_live := co_live c + 1\<rparr>)
      in case co_last_boot c (wd_worker desc) of
           None \<Rightarrow> admit
         | Some b \<Rightarrow> if wd_boot desc > b then admit else (False, c))"

definition step_hello :: "coordinator \<Rightarrow> connection \<Rightarrow> coordinator \<times> connection" where
  "step_hello c cn =
     (let (hello, segs) = recv_frame kMax (cn_in cn); cn = cn\<lparr>cn_in := segs\<rparr>
      in case hello of
        Inl e \<Rightarrow> (c, cn\<lparr>cn_phase := Closed Bad_Hello\<rparr>)
      | Inr f \<Rightarrow>
          if f_type f \<noteq> HELLO then (c, cn\<lparr>cn_phase := Closed Bad_Hello\<rparr>)
          else let (desc, bad) = read_payload_of read_hello (f_payload f)
          in if bad then (c, cn\<lparr>cn_phase := Closed Bad_Hello\<rparr>)
          else let (accepted, c) = authorise c desc
          in (c, cn\<lparr>cn_phase := Replying desc accepted\<rparr>))"

definition rejection_note :: "coordinator \<Rightarrow> worker_descriptor \<Rightarrow> string" where
  "rejection_note c desc =
     (if wd_epoch desc \<noteq> co_epoch c then ''stale coordinator epoch'' else ''stale worker boot identity'')"

definition hello_reply :: "coordinator \<Rightarrow> worker_descriptor \<Rightarrow> bool \<Rightarrow> frame" where
  "hello_reply c desc accepted =
     (if accepted then \<lparr>f_type = READY, f_payload = put_u64 (gen_value (co_epoch c))\<rparr>
      else \<lparr>f_type = GOODBYE, f_payload = put_str (rejection_note c desc)\<rparr>)"

definition send_on :: "frame \<Rightarrow> connection \<Rightarrow> bool \<times> connection" where
  "send_on f cn = (let (good, out) = send_frame (cn_accept cn) f kMax (cn_out cn) in (good, cn\<lparr>cn_out := out\<rparr>))"

definition step_reply ::
  "worker_descriptor \<Rightarrow> bool \<Rightarrow> coordinator \<Rightarrow> connection \<Rightarrow> coordinator \<times> connection" where
  "step_reply desc accepted c cn =
     (let (good, cn) = send_on (hello_reply c desc accepted) cn
      in if \<not> good then (c, cn\<lparr>cn_phase := Closed (Reply_Failed desc accepted)\<rparr>)
      else if \<not> accepted then (c, cn\<lparr>cn_phase := Closed (Rejected desc)\<rparr>)
      else (c, cn\<lparr>cn_phase := Serving desc\<rparr>))"

section \<open>Serving\<close>

definition with_registry :: "coordinator \<Rightarrow> unit result \<times> world \<times> state \<Rightarrow> coordinator" where
  \<comment> \<open>the result of the registry call is discarded\<close>
  "with_registry c r = (case r of (_, w, s) \<Rightarrow> c\<lparr>co_world := w, co_registry := s\<rparr>)"

definition on_publish_device :: "worker_descriptor \<Rightarrow> bytes \<Rightarrow> coordinator \<Rightarrow> coordinator" where
  "on_publish_device desc payload c =
     (let d = fst (read_payload_of dec_device payload);
          d = d\<lparr>dev_owner_worker := Some (wd_worker desc), dev_owner_boot := Some (wd_boot desc)\<rparr>
      in with_registry c (upsert_device (co_limits c) d (co_world c) (co_registry c)))"

definition on_publish_link :: "bytes \<Rightarrow> coordinator \<Rightarrow> coordinator" where
  "on_publish_link payload c =
     (let (now, w) = now_timestamp (co_world c);
          l = fst (read_payload_of (dec_link now) payload)
      in with_registry c (upsert_link (co_limits c) l w (co_registry c)))"

definition on_publish_measurement :: "worker_descriptor \<Rightarrow> bytes \<Rightarrow> coordinator \<Rightarrow> coordinator" where
  "on_publish_measurement desc payload c =
     (let (now, w) = now_timestamp (co_world c);
          m = fst (read_payload_of (dec_meas now) payload);
          m = m\<lparr>m_owner_worker := Some (wd_worker desc), m_owner_boot := Some (wd_boot desc)\<rparr>
      in with_registry c (publish_measurement (co_limits c) m w (co_registry c)))"

definition on_route ::
  "worker_descriptor \<Rightarrow> bytes \<Rightarrow> coordinator \<Rightarrow> connection \<Rightarrow> coordinator \<times> connection" where
  \<comment> \<open>\<open>decide_route\<close> up to its first state read\<close>
  "on_route desc payload c cn =
     (let ((src, tgt), bad) = read_payload_of read_route_request payload
      in if bad then (c, cn)
      else let (d, w) = start_decision src tgt (pol_id default_policy) (co_world c);
               (view, w) = Registry.consistent_view (co_registry c) w
      in (c\<lparr>co_world := w\<rparr>, cn\<lparr>cn_phase := Routing desc view d\<rparr>))"

definition on_frame ::
  "worker_descriptor \<Rightarrow> frame \<Rightarrow> coordinator \<Rightarrow> connection \<Rightarrow> coordinator \<times> connection" where
  "on_frame desc f c cn =
     (case f_type f of
        PUBLISH_DEVICE \<Rightarrow> (on_publish_device desc (f_payload f) c, cn)
      | PUBLISH_LINK \<Rightarrow> (on_publish_link (f_payload f) c, cn)
      | PUBLISH_MEASUREMENT \<Rightarrow> (on_publish_measurement desc (f_payload f) c, cn)
      | ROUTE \<Rightarrow> on_route desc (f_payload f) c cn
      | _ \<Rightarrow> (c, cn))"

definition step_serve :: "worker_descriptor \<Rightarrow> coordinator \<Rightarrow> connection \<Rightarrow> coordinator \<times> connection" where
  "step_serve desc c cn =
     (let (fr, segs) = recv_frame kMax (cn_in cn); cn = cn\<lparr>cn_in := segs\<rparr>
      in case fr of
        Inl e \<Rightarrow> (c, cn\<lparr>cn_phase := Disconnecting desc\<rparr>)
      | Inr f \<Rightarrow> on_frame desc f c cn)"

definition step_route ::
  "worker_descriptor \<Rightarrow> Fabric_Types.consistent_view \<Rightarrow> route_decision \<Rightarrow> coordinator \<Rightarrow> connection \<Rightarrow>
   coordinator \<times> connection" where
  \<comment> \<open>\<open>decide_route\<close> from its second state read on, and the reply; a failed send is ignored\<close>
  "step_route desc view d c cn =
     (let dec = ok (decide_in_view (co_limits c) view (observations (co_registry c)) default_policy d);
          (_, cn) = send_on \<lparr>f_type = ROUTE, f_payload = route_reply dec\<rparr> cn
      in (c, cn\<lparr>cn_phase := Serving desc\<rparr>))"

definition step_disconnect :: "coordinator \<Rightarrow> coordinator" where
  "step_disconnect c =
     (let (w, s) = mark_dynamic_evidence_revalidation_required (co_limits c) (co_world c) (co_registry c)
      in c\<lparr>co_world := w, co_registry := s\<rparr>)"

definition step_depart :: "coordinator \<Rightarrow> coordinator" where
  "step_depart c = (if co_live c > 0 then c\<lparr>co_live := co_live c - 1\<rparr> else c)"

fun conn_step :: "coordinator \<Rightarrow> connection \<Rightarrow> coordinator \<times> connection" where
  "conn_step c cn =
     (case cn_phase cn of
        Awaiting_Hello \<Rightarrow> step_hello c cn
      | Replying desc accepted \<Rightarrow> step_reply desc accepted c cn
      | Serving desc \<Rightarrow> step_serve desc c cn
      | Routing desc view d \<Rightarrow> step_route desc view d c cn
      | Disconnecting desc \<Rightarrow> (step_disconnect c, cn\<lparr>cn_phase := Departing desc\<rparr>)
      | Departing desc \<Rightarrow> (step_depart c, cn\<lparr>cn_phase := Closed (Finished desc)\<rparr>)
      | Closed e \<Rightarrow> (c, cn))"

declare conn_step.simps [simp del]

section \<open>The server\<close>

record net_env =
  ne_socket :: bool
  ne_bind :: bool
  ne_listen :: bool
  ne_getsockname :: "u16 option" \<comment> \<open>the port bound\<close>
  ne_sock_error :: string \<comment> \<open>\<open>sock_error()\<close>\<close>

record server =
  sv_co :: coordinator
  sv_conns :: "connection list"
  sv_listener :: bool
  sv_running :: bool
  sv_accepting :: bool \<comment> \<open>the accept thread is alive\<close>
  sv_port :: u16

definition new_server :: "limits \<Rightarrow> world \<Rightarrow> server" where
  "new_server lms w = \<lparr>sv_co = new_coordinator lms w, sv_conns = [], sv_listener = False,
     sv_running = False, sv_accepting = False, sv_port = 0\<rparr>"

definition server_start :: "net_env \<Rightarrow> server \<Rightarrow> u16 result \<times> server" where
  "server_start env sv =
     (if \<not> ne_socket env then (fail EC_BACKEND_ERROR (''socket() failed: '' @ ne_sock_error env), sv\<lparr>sv_listener := False\<rparr>)
      else let sv = sv\<lparr>sv_listener := True\<rparr>
      in if \<not> ne_bind env then (fail EC_BACKEND_ERROR (''bind() failed: '' @ ne_sock_error env), sv)
      else if \<not> ne_listen env then (fail EC_BACKEND_ERROR (''listen() failed: '' @ ne_sock_error env), sv)
      else case ne_getsockname env of
        None \<Rightarrow> (fail EC_BACKEND_ERROR ''getsockname() failed'', sv)
      | Some p \<Rightarrow> (ok p, sv\<lparr>sv_port := p, sv_running := True, sv_accepting := True\<rparr>))"

definition stop_begin :: "server \<Rightarrow> server" where
  \<comment> \<open>\<open>stop\<close> before it joins the threads\<close>
  "stop_begin sv = sv\<lparr>sv_running := False, sv_listener := False\<rparr>"

fun phase_closed :: "phase \<Rightarrow> bool" where
  "phase_closed (Closed e) = True"
| "phase_closed p = False"

definition stop_returns :: "server \<Rightarrow> bool" where
  \<comment> \<open>every thread \<open>stop\<close> joins has ended\<close>
  "stop_returns sv \<longleftrightarrow> \<not> sv_accepting sv \<and> list_all (\<lambda>cn. phase_closed (cn_phase cn)) (sv_conns sv)"

inductive server_step :: "server \<Rightarrow> server \<Rightarrow> bool" where
  start: "\<not> sv_accepting sv \<Longrightarrow> server_step sv (snd (server_start env sv))"
| accept: "sv_accepting sv \<Longrightarrow> server_step sv (sv\<lparr>sv_conns := sv_conns sv @ [new_connection segs acc]\<rparr>)"
| accept_loop_ends: "\<not> sv_running sv \<Longrightarrow> server_step sv (sv\<lparr>sv_accepting := False\<rparr>)"
| stop: "server_step sv (stop_begin sv)"
| thread: "i < length (sv_conns sv) \<Longrightarrow> conn_step (sv_co sv) (sv_conns sv ! i) = (c', cn') \<Longrightarrow>
    server_step sv (sv\<lparr>sv_co := c', sv_conns := (sv_conns sv)[i := cn']\<rparr>)"

inductive server_reachable :: "limits \<Rightarrow> world \<Rightarrow> server \<Rightarrow> bool" for lms w where
  init: "server_reachable lms w (new_server lms w)"
| step: "server_reachable lms w sv \<Longrightarrow> server_step sv sv' \<Longrightarrow> server_reachable lms w sv'"

section \<open>One handler alone\<close>

fun phase_rank :: "phase \<Rightarrow> nat" where
  "phase_rank Awaiting_Hello = 6"
| "phase_rank (Replying _ _) = 5"
| "phase_rank (Routing _ _ _) = 4"
| "phase_rank (Serving _) = 3"
| "phase_rank (Disconnecting _) = 2"
| "phase_rank (Departing _) = 1"
| "phase_rank (Closed _) = 0"

lemma send_on_keeps: "send_on f cn = (good, cn') \<Longrightarrow> cn_in cn' = cn_in cn \<and> cn_phase cn' = cn_phase cn \<and> cn_accept cn' = cn_accept cn"
  by (auto simp: send_on_def split: prod.splits)

lemma on_frame_phase:
  "on_frame desc f c cn = (c', cn') \<Longrightarrow> cn_phase cn = Serving desc \<Longrightarrow>
   cn_in cn' = cn_in cn \<and> (cn_phase cn' = Serving desc \<or> (\<exists>view d. cn_phase cn' = Routing desc view d))"
  by (auto simp: on_frame_def on_route_def split: message_type.splits prod.splits if_splits)

definition conn_order :: "(connection \<times> connection) set" where
  \<comment> \<open>fewer bytes to read, or as many and a later phase\<close>
  "conn_order = measures [\<lambda>cn. length (concat (cn_in cn)), \<lambda>cn. phase_rank (cn_phase cn)]"

lemma wf_conn_order: "wf conn_order"
  by (simp add: conn_order_def)

lemma conn_order_iff:
  "(cn', cn) \<in> conn_order \<longleftrightarrow> length (concat (cn_in cn')) < length (concat (cn_in cn)) \<or>
     length (concat (cn_in cn')) = length (concat (cn_in cn)) \<and> phase_rank (cn_phase cn') < phase_rank (cn_phase cn)"
  by (simp add: conn_order_def)

lemma conn_step_progress:
  assumes "\<not> phase_closed (cn_phase cn)" "conn_step c cn = (c', cn')"
  shows "(cn', cn) \<in> conn_order"
proof (cases "cn_phase cn")
  case Awaiting_Hello
  then show ?thesis using assms recv_frame_shrinks [of kMax "cn_in cn"]
    by (auto simp: conn_order_iff conn_step.simps step_hello_def Let_def split: prod.splits sum.splits if_splits)
next
  case (Replying desc accepted)
  then show ?thesis using assms
    by (auto simp: conn_order_iff conn_step.simps step_reply_def Let_def dest!: send_on_keeps split: prod.splits if_splits)
next
  case (Serving desc)
  obtain fr segs where fr: "recv_frame kMax (cn_in cn) = (fr, segs)" by force
  show ?thesis
  proof (cases fr)
    case (Inl e)
    then show ?thesis using assms Serving fr recv_frame_shrinks [OF fr]
      by (auto simp: conn_order_iff conn_step.simps step_serve_def)
  next
    case (Inr f)
    then have "on_frame desc f c (cn\<lparr>cn_in := segs\<rparr>) = (c', cn')"
      using assms Serving fr by (simp add: conn_step.simps step_serve_def)
    from on_frame_phase [OF this] have "cn_in cn' = segs" using Serving by simp
    then show ?thesis using recv_frame_consumes [OF fr [unfolded Inr]] by (simp add: conn_order_iff)
  qed
next
  case (Routing desc view d)
  then show ?thesis using assms
    by (auto simp: conn_order_iff conn_step.simps step_route_def Let_def dest!: send_on_keeps split: prod.splits)
qed (use assms in \<open>auto simp: conn_order_iff conn_step.simps\<close>)

function handle_connection :: "coordinator \<Rightarrow> connection \<Rightarrow> coordinator \<times> connection" where
  "handle_connection c cn =
     (if phase_closed (cn_phase cn) then (c, cn)
      else let (c', cn') = conn_step c cn in handle_connection c' cn')"
  by pat_completeness auto
termination
  by (relation "inv_image conn_order snd") (simp_all add: wf_conn_order, metis conn_step_progress prod.collapse snd_conv)

declare handle_connection.simps [simp del]

end
