(* ===== verification/Coordinator_Properties.thy ===== *)
theory Coordinator_Properties
  imports Coordinator
begin

text \<open>
  What the coordinator guarantees whatever its connection threads do and however they interleave:
  which workers are admitted, what the live count counts, what the registry holds and what happens
  when a handler ends. The admission protocol refines the abstract fence \<open>fence_step\<close>.
\<close>

section \<open>What one step does\<close>

fun admitted :: "phase \<Rightarrow> worker_descriptor option" where
  \<comment> \<open>what a connection was accepted with\<close>
  "admitted (Replying desc acc) = (if acc then Some desc else None)"
| "admitted (Serving desc) = Some desc"
| "admitted (Routing desc _ _) = Some desc"
| "admitted (Disconnecting desc) = Some desc"
| "admitted (Departing desc) = Some desc"
| "admitted (Closed (Reply_Failed desc acc)) = (if acc then Some desc else None)"
| "admitted (Closed (Finished desc)) = Some desc"
| "admitted _ = None"

fun counted :: "phase \<Rightarrow> bool" where
  \<comment> \<open>admitted, and the handler has not taken itself off the live count\<close>
  "counted (Closed (Finished desc)) = False"
| "counted p \<longleftrightarrow> admitted p \<noteq> None"

definition owned_by :: "(worker_id \<rightharpoonup> worker_boot_id) \<Rightarrow> worker_id option \<Rightarrow> worker_boot_id option \<Rightarrow> bool" where
  \<comment> \<open>an admitted worker, at a boot not newer than the last one admitted\<close>
  "owned_by lb wo bo \<longleftrightarrow> (\<exists>w b b'. wo = Some w \<and> bo = Some b \<and> lb w = Some b' \<and> b \<le> b')"

definition registry_owned :: "(worker_id \<rightharpoonup> worker_boot_id) \<Rightarrow> state \<Rightarrow> bool" where
  "registry_owned lb s \<longleftrightarrow>
     um.all_entries (\<lambda>_ d. owned_by lb (dev_owner_worker d) (dev_owner_boot d)) (devices s) \<and>
     list_all (\<lambda>m. owned_by lb (m_owner_worker m) (m_owner_boot m)) (measurement_history s)"

definition coordinator_ok :: "coordinator \<Rightarrow> bool" where
  "coordinator_ok c \<longleftrightarrow> wf_state (co_limits c) (co_registry c) \<and> registry_owned (co_last_boot c) (co_registry c)"

text \<open>The effects a step can have, seen from outside the registry.\<close>

datatype effect = Stay | Admit worker_descriptor | Depart

fun effect_on :: "effect \<Rightarrow> coordinator \<Rightarrow> coordinator \<Rightarrow> bool" where
  "effect_on Stay c c' \<longleftrightarrow> co_last_boot c' = co_last_boot c \<and> co_live c' = co_live c"
| "effect_on (Admit desc) c c' \<longleftrightarrow>
     wd_epoch desc = co_epoch c \<and> (\<forall>b. co_last_boot c (wd_worker desc) = Some b \<longrightarrow> b < wd_boot desc) \<and>
     co_last_boot c' = (co_last_boot c)(wd_worker desc \<mapsto> wd_boot desc) \<and> co_live c' = co_live c + 1 \<and>
     co_registry c' = co_registry c"
| "effect_on Depart c c' \<longleftrightarrow> co_last_boot c' = co_last_boot c \<and> co_live c' = co_live c - 1 \<and>
     co_registry c' = co_registry c"

fun effect_of :: "phase \<Rightarrow> phase \<Rightarrow> effect" where
  "effect_of Awaiting_Hello (Replying desc True) = Admit desc"
| "effect_of (Departing desc) _ = Depart"
| "effect_of _ _ = Stay"

lemma authorise_cases:
  "authorise c desc = (acc, c') \<Longrightarrow>
   (if acc then effect_on (Admit desc) c c' else c' = c) \<and> co_limits c' = co_limits c \<and> co_epoch c' = co_epoch c"
  by (auto simp: authorise_def Let_def split: if_splits option.splits)

lemma with_registry_simps [simp]:
  "co_last_boot (with_registry c r) = co_last_boot c" "co_live (with_registry c r) = co_live c"
  "co_limits (with_registry c r) = co_limits c" "co_epoch (with_registry c r) = co_epoch c"
  by (auto simp: with_registry_def split: prod.splits)

lemma on_frame_shared:
  assumes "on_frame desc f c cn = (c', cn')"
  shows "co_last_boot c' = co_last_boot c" "co_live c' = co_live c" "co_limits c' = co_limits c"
    "co_epoch c' = co_epoch c"
  using assms
  by (auto simp: on_frame_def on_route_def on_publish_device_def on_publish_link_def
      on_publish_measurement_def Let_def split: message_type.splits prod.splits if_splits)

lemma step_disconnect_shared [simp]:
  "co_last_boot (step_disconnect c) = co_last_boot c" "co_live (step_disconnect c) = co_live c"
  "co_limits (step_disconnect c) = co_limits c" "co_epoch (step_disconnect c) = co_epoch c"
  by (auto simp: step_disconnect_def split: prod.splits)

lemma step_depart_shared [simp]:
  "co_last_boot (step_depart c) = co_last_boot c" "co_live (step_depart c) = co_live c - 1"
  "co_limits (step_depart c) = co_limits c" "co_epoch (step_depart c) = co_epoch c"
  "co_registry (step_depart c) = co_registry c"
  by (auto simp: step_depart_def)

lemma step_hello_cases:
  assumes "step_hello c cn = (c', cn')"
  obtains "c' = c" "cn_phase cn' = Closed Bad_Hello"
  | desc acc where "authorise c desc = (acc, c')" "cn_phase cn' = Replying desc acc"
  using assms by (auto simp: step_hello_def Let_def split: prod.splits sum.splits if_splits)

lemma conn_step_effect:
  assumes "conn_step c cn = (c', cn')"
  shows "effect_on (effect_of (cn_phase cn) (cn_phase cn')) c c' \<and>
    co_limits c' = co_limits c \<and> co_epoch c' = co_epoch c \<and>
    (case effect_of (cn_phase cn) (cn_phase cn') of
       Stay \<Rightarrow> admitted (cn_phase cn') = admitted (cn_phase cn) \<and> counted (cn_phase cn') = counted (cn_phase cn)
     | Admit desc \<Rightarrow> cn_phase cn = Awaiting_Hello \<and> cn_phase cn' = Replying desc True
     | Depart \<Rightarrow> \<exists>desc. cn_phase cn = Departing desc \<and> cn_phase cn' = Closed (Finished desc))"
proof (cases "cn_phase cn")
  case Awaiting_Hello
  then have "step_hello c cn = (c', cn')" using assms by (simp add: conn_step.simps)
  then show ?thesis
  proof (cases rule: step_hello_cases)
    case (2 desc acc)
    then show ?thesis using authorise_cases [OF 2(1)] Awaiting_Hello by (cases acc) auto
  qed (use Awaiting_Hello in auto)
next
  case (Replying desc acc)
  then show ?thesis using assms
    by (cases acc) (auto simp: conn_step.simps step_reply_def Let_def split: prod.splits if_splits)
next
  case (Serving desc)
  obtain fr segs where fr: "recv_frame kMax (cn_in cn) = (fr, segs)" by force
  show ?thesis
  proof (cases fr)
    case (Inl e)
    then show ?thesis using assms Serving fr by (auto simp: conn_step.simps step_serve_def)
  next
    case (Inr f)
    then have f: "on_frame desc f c (cn\<lparr>cn_in := segs\<rparr>) = (c', cn')"
      using assms Serving fr by (simp add: conn_step.simps step_serve_def)
    show ?thesis using on_frame_phase [OF f] on_frame_shared [OF f] Serving by auto
  qed
next
  case (Routing desc view d)
  then show ?thesis using assms
    by (auto simp: conn_step.simps step_route_def Let_def split: prod.splits)
qed (use assms in \<open>auto simp: conn_step.simps split: ending.splits\<close>)

section \<open>The registry behind the connections\<close>

lemma publish_measurement_history:
  assumes "publish_measurement lms m w s = (r, w', s')"
  shows "devices s' = devices s \<and> (\<forall>m' \<in> set (measurement_history s').
    m' \<in> set (measurement_history s) \<or> m_owner_worker m' = m_owner_worker m \<and> m_owner_boot m' = m_owner_boot m)"
  using assms
  by (auto simp: publish_measurement_def Let_def split: prod.splits dest!: subsetD [OF set_push_bounded])

lemma mark_keeps_owned:
  assumes "mark_dynamic_evidence_revalidation_required lms w s = (w', s')" "registry_owned lb s"
  shows "registry_owned lb s'"
  using assms
  by (auto simp: mark_dynamic_evidence_revalidation_required_def Let_def registry_owned_def advance_from_def
      stamp_links_def record_observation_def list_all_iff split: prod.splits
      intro!: um.all_entries_transform elim!: um.all_entries_mono)

definition covered :: "(worker_id \<rightharpoonup> worker_boot_id) \<Rightarrow> worker_descriptor \<Rightarrow> bool" where
  "covered lb desc \<longleftrightarrow> owned_by lb (Some (wd_worker desc)) (Some (wd_boot desc))"

lemma registry_owned_mono:
  assumes "registry_owned lb s" "\<And>w b. lb w = Some b \<Longrightarrow> \<exists>b' \<ge> b. lb' w = Some b'"
  shows "registry_owned lb' s"
proof -
  have "owned_by lb' wo bo" if "owned_by lb wo bo" for wo bo
    using that assms(2) unfolding owned_by_def by (metis order_trans)
  then show ?thesis using assms(1) by (auto simp: registry_owned_def list_all_iff elim!: um.all_entries_mono)
qed

lemma with_registry_ok:
  assumes "coordinator_ok c" "run = (r, w', s')" "wf_state (co_limits c) s'" "registry_owned (co_last_boot c) s'"
  shows "coordinator_ok (with_registry c run)"
  using assms by (simp add: coordinator_ok_def with_registry_def)

lemma on_publish_ok:
  assumes ok: "coordinator_ok c" and cov: "covered (co_last_boot c) desc"
  shows "coordinator_ok (on_publish_device desc payload c)" "coordinator_ok (on_publish_link payload c)"
    "coordinator_ok (on_publish_measurement desc payload c)"
proof -
  have wf: "wf_state (co_limits c) (co_registry c)" and own: "registry_owned (co_last_boot c) (co_registry c)"
    using ok by (simp_all add: coordinator_ok_def)
  let ?own = "\<lambda>_ d. owned_by (co_last_boot c) (dev_owner_worker d) (dev_owner_boot d)"
  define d where "d = (fst (read_payload_of dec_device payload))
    \<lparr>dev_owner_worker := Some (wd_worker desc), dev_owner_boot := Some (wd_boot desc)\<rparr>"
  obtain r w' s' where run: "upsert_device (co_limits c) d (co_world c) (co_registry c) = (r, w', s')"
    by (metis prod_cases3)
  have "registry_owned (co_last_boot c) s'"
    using all_devices_upsert [OF run, of ?own] own cov by (simp add: registry_owned_def d_def covered_def)
  then show "coordinator_ok (on_publish_device desc payload c)"
    unfolding on_publish_device_def Let_def d_def [symmetric] run
    by (rule with_registry_ok [OF ok refl ud.keeps_wf [OF wf run]])
  obtain now w where now: "now_timestamp (co_world c) = (now, w)" by force
  define l where "l = fst (read_payload_of (dec_link now) payload)"
  obtain r w' s' where run: "upsert_link (co_limits c) l w (co_registry c) = (r, w', s')" by (metis prod_cases3)
  have "registry_owned (co_last_boot c) s'"
    using upsert_link_keeps [OF run] own by (simp add: registry_owned_def)
  then show "coordinator_ok (on_publish_link payload c)"
    unfolding on_publish_link_def Let_def now prod.case l_def [symmetric] run
    by (rule with_registry_ok [OF ok refl ul.keeps_wf [OF wf run]])
  define m where "m = (fst (read_payload_of (dec_meas now) payload))
    \<lparr>m_owner_worker := Some (wd_worker desc), m_owner_boot := Some (wd_boot desc)\<rparr>"
  obtain r w' s' where run: "publish_measurement (co_limits c) m w (co_registry c) = (r, w', s')"
    by (metis prod_cases3)
  have "registry_owned (co_last_boot c) s'"
    using publish_measurement_history [OF run] own cov
    by (auto simp: registry_owned_def list_all_iff m_def covered_def)
  then show "coordinator_ok (on_publish_measurement desc payload c)"
    unfolding on_publish_measurement_def Let_def now prod.case m_def [symmetric] run
    by (rule with_registry_ok [OF ok refl pme.keeps_wf [OF wf run]])
qed

lemma on_frame_ok:
  assumes "on_frame desc f c cn = (c', cn')" "coordinator_ok c" "covered (co_last_boot c) desc"
  shows "coordinator_ok c'"
  using assms(1) on_publish_ok [OF assms(2,3)] assms(2)
  by (auto simp: on_frame_def on_route_def coordinator_ok_def Let_def split: message_type.splits prod.splits if_splits)

lemma step_disconnect_ok: "coordinator_ok c \<Longrightarrow> coordinator_ok (step_disconnect c)"
  using mdy.keeps_wf mark_keeps_owned by (auto simp: step_disconnect_def coordinator_ok_def split: prod.splits)

lemma effect_keeps_ok:
  assumes "effect_on e c c'" "coordinator_ok c" "co_registry c' = co_registry c" "co_limits c' = co_limits c"
  shows "coordinator_ok c'"
proof -
  have "\<exists>b' \<ge> b. co_last_boot c' w = Some b'" if "co_last_boot c w = Some b" for w b
    using assms(1) that by (cases e) (auto simp: less_imp_le)
  then show ?thesis using assms registry_owned_mono [of "co_last_boot c"] by (auto simp: coordinator_ok_def)
qed

lemma conn_step_ok:
  assumes step: "conn_step c cn = (c', cn')" and ok: "coordinator_ok c"
    and cov: "\<And>desc. admitted (cn_phase cn) = Some desc \<Longrightarrow> covered (co_last_boot c) desc"
  shows "coordinator_ok c'"
proof (cases "\<exists>desc. cn_phase cn = Serving desc \<or> cn_phase cn = Disconnecting desc")
  case False
  then have "co_registry c' = co_registry c"
    using step
    by (cases "cn_phase cn") (auto simp: conn_step.simps step_hello_def step_reply_def step_route_def
        authorise_def Let_def split: prod.splits sum.splits if_splits option.splits)
  then show ?thesis using effect_keeps_ok [OF _ ok] conn_step_effect [OF step] by blast
next
  case True
  then show ?thesis
  proof (elim exE disjE)
    fix desc assume p: "cn_phase cn = Serving desc"
    then show ?thesis
      using step ok cov on_frame_ok
      by (auto simp: conn_step.simps step_serve_def Let_def split: prod.splits sum.splits)
  qed (use step ok step_disconnect_ok in \<open>auto simp: conn_step.simps\<close>)
qed

section \<open>The server\<close>

definition conn_desc :: "connection list \<Rightarrow> nat \<Rightarrow> worker_descriptor option" where
  "conn_desc conns i = (if i < length conns then admitted (cn_phase (conns ! i)) else None)"

definition cred :: "worker_descriptor \<Rightarrow> worker_id \<times> worker_boot_id" where
  "cred desc = (wd_worker desc, wd_boot desc)"

definition server_inv :: "limits \<Rightarrow> server \<Rightarrow> bool" where
  "server_inv lms sv \<longleftrightarrow>
     co_limits (sv_co sv) = lms \<and> coordinator_ok (sv_co sv) \<and>
     co_live (sv_co sv) = length (filter (\<lambda>cn. counted (cn_phase cn)) (sv_conns sv)) \<and>
     (\<forall>i d. conn_desc (sv_conns sv) i = Some d \<longrightarrow>
        wd_epoch d = co_epoch (sv_co sv) \<and> covered (co_last_boot (sv_co sv)) d) \<and>
     (\<forall>i j d d'. conn_desc (sv_conns sv) i = Some d \<longrightarrow> conn_desc (sv_conns sv) j = Some d' \<longrightarrow>
        cred d = cred d' \<longrightarrow> i = j)"

lemma conn_desc_simps:
  "conn_desc [] i = None"
  "conn_desc (conns @ [new_connection segs acc]) i = conn_desc conns i"
  "k < length conns \<Longrightarrow> conn_desc (conns[k := cn]) i = (if i = k then admitted (cn_phase cn) else conn_desc conns i)"
  by (auto simp: conn_desc_def nth_append new_connection_def)

lemma conn_desc_update:
  "k < length conns \<Longrightarrow> conn_desc (conns[k := cn]) = (conn_desc conns)(k := admitted (cn_phase cn))"
  "conn_desc (conns @ [new_connection segs acc]) = conn_desc conns"
  by (auto simp: fun_eq_iff conn_desc_simps)

lemma length_filter_update:
  "i < length xs \<Longrightarrow> length (filter P (xs[i := y])) + (if P (xs ! i) then 1 else 0)
     = length (filter P xs) + (if P y then 1 else 0)"
proof (induction xs arbitrary: i)
  case (Cons x xs)
  show ?case using Cons.IH Cons.prems by (cases i) force+
qed simp

lemma server_inv_init: "server_inv lms (new_server lms w)"
  by (simp add: server_inv_def new_server_def new_coordinator_def coordinator_ok_def conn_desc_simps
      registry_owned_def um.all_entries_def um_find_def initial_state_def wf_initial [unfolded initial_state_def]
      split: prod.splits)

lemma covered_effect:
  assumes "effect_on e c c'" "covered (co_last_boot c) d"
  shows "covered (co_last_boot c') d"
  using assms by (cases e) (auto simp: covered_def owned_by_def less_imp_le intro: order_trans)

lemma thread_step_inv:
  assumes inv: "server_inv lms sv" and i: "i < length (sv_conns sv)"
    and step: "conn_step (sv_co sv) (sv_conns sv ! i) = (c', cn')"
  shows "server_inv lms (sv\<lparr>sv_co := c', sv_conns := (sv_conns sv)[i := cn']\<rparr>)"
proof -
  let ?c = "sv_co sv" and ?cn = "sv_conns sv ! i"
  let ?e = "effect_of (cn_phase ?cn) (cn_phase cn')"
  note eff = conn_step_effect [OF step]
  have old: "conn_desc (sv_conns sv) i = admitted (cn_phase ?cn)" using i by (simp add: conn_desc_def)
  have cov: "covered (co_last_boot ?c) d \<and> wd_epoch d = co_epoch ?c" if "conn_desc (sv_conns sv) k = Some d" for k d
    using inv that by (auto simp: server_inv_def)
  have ok: "coordinator_ok c'"
    by (rule conn_step_ok [OF step]) (use inv cov [of i] old in \<open>simp_all add: server_inv_def\<close>)
  have live: "co_live c' = length (filter (\<lambda>cn. counted (cn_phase cn)) ((sv_conns sv)[i := cn']))"
    using inv eff length_filter_update [OF i, of "\<lambda>cn. counted (cn_phase cn)" cn']
    by (cases ?e) (auto simp: server_inv_def)
  show ?thesis
  proof (cases ?e)
    case (Admit desc)
    then have a: "admitted (cn_phase ?cn) = None" "admitted (cn_phase cn') = Some desc" using eff by auto
    have new: "cred d \<noteq> cred desc" if "conn_desc (sv_conns sv) k = Some d" for k d
      using cov [OF that] eff Admit by (auto simp: cred_def covered_def owned_by_def)
    have "covered (co_last_boot c') desc" using eff Admit by (simp add: covered_def owned_by_def)
    then show ?thesis
      using inv ok live eff Admit a new old covered_effect [of ?e ?c c']
      unfolding server_inv_def by (auto simp: conn_desc_simps i) metis+
  next
    case Stay
    then have "conn_desc ((sv_conns sv)[i := cn']) = conn_desc (sv_conns sv)" "co_last_boot c' = co_last_boot ?c"
      using eff old i by (auto simp: conn_desc_simps)
    then show ?thesis using inv ok live eff by (auto simp: server_inv_def)
  next
    case Depart
    then have "conn_desc ((sv_conns sv)[i := cn']) = conn_desc (sv_conns sv)" "co_last_boot c' = co_last_boot ?c"
      using eff old i by (auto simp: conn_desc_simps)
    then show ?thesis using inv ok live eff by (auto simp: server_inv_def)
  qed
qed

lemma server_step_inv: "server_step sv sv' \<Longrightarrow> server_inv lms sv \<Longrightarrow> server_inv lms sv'"
proof (induction rule: server_step.induct)
  case (start sv env)
  then show ?case
    by (auto simp: server_inv_def server_start_def Let_def split: option.splits)
next
  case (accept sv segs acc)
  then show ?case by (simp add: server_inv_def conn_desc_simps) (simp add: new_connection_def)
next
  case (thread i sv c' cn')
  then show ?case by (blast intro: thread_step_inv)
qed (simp_all add: server_inv_def stop_begin_def)

lemma reachable_inv: "server_reachable lms w sv \<Longrightarrow> server_inv lms sv"
  by (induction rule: server_reachable.induct) (auto intro: server_inv_init server_step_inv)

section \<open>Scenarios\<close>

lemma kMax_simps [simp]: "14 \<le> kMax" "kMax < 2 ^ 64"
  by (simp_all add: kMax_def)

definition encoded :: "message_type \<Rightarrow> bytes \<Rightarrow> bytes" where
  "encoded t payload =
     frame_body \<lparr>f_type = t, f_payload = payload\<rparr> @ put_u32 (crc32 (frame_body \<lparr>f_type = t, f_payload = payload\<rparr>))"

lemma encode_encoded:
  "length payload + 14 \<le> kMax \<Longrightarrow> encode_frame \<lparr>f_type = t, f_payload = payload\<rparr> kMax = ok (encoded t payload)"
  by (simp add: encode_frame_def encoded_def Let_def kHeaderNoPayload_def kCrcBytes_def)

lemma recv_encoded:
  assumes "flowing segs" "concat segs = encoded t payload @ rest" "length payload + 14 \<le> kMax"
  shows "\<exists>segs'. recv_frame kMax segs = (ok \<lparr>f_type = t, f_payload = payload\<rparr>, segs') \<and> flowing segs' \<and> concat segs' = rest"
  by (rule recv_frame_encoded [OF assms(1) kMax_simps assms(2) encode_encoded [OF assms(3)]])
    (use assms(3) in \<open>simp add: kMax_def\<close>)

lemma encoded_not_empty [simp]: "encoded t payload \<noteq> []"
proof -
  have "length (encoded t payload) \<noteq> 0" by (simp add: encoded_def)
  then show ?thesis by auto
qed

text \<open>A connection whose input starts with a hello is decided by \<open>authorise\<close>.\<close>

lemma hello_step:
  assumes "cn_phase cn = Awaiting_Hello" "flowing (cn_in cn)" "concat (cn_in cn) = encoded HELLO (hello_payload desc) @ rest"
    and "authorise c desc = (acc, c')"
  shows "\<exists>segs. conn_step c cn = (c', cn\<lparr>cn_in := segs, cn_phase := Replying desc acc\<rparr>) \<and> flowing segs \<and> concat segs = rest"
proof -
  obtain segs where "recv_frame kMax (cn_in cn) = (ok \<lparr>f_type = HELLO, f_payload = hello_payload desc\<rparr>, segs)"
    "flowing segs" "concat segs = rest"
    using recv_encoded [OF assms(2,3)] payload_bounds(4) [of desc] by (auto simp: kMax_def)
  then show ?thesis
    using assms(1,4) read_payload_decodes [OF decodes_hello [of desc]]
    by (intro exI [of _ segs]) (simp add: conn_step.simps step_hello_def)
qed

definition example_desc :: worker_descriptor where
  "example_desc = \<lparr>wd_worker = Ident 3, wd_boot = Ident 8, wd_epoch = Generation 1\<rparr>"

lemma example_server:
  "\<exists>sv. server_reachable default_limits example_world sv \<and> conn_desc (sv_conns sv) 0 = Some example_desc
     \<and> co_live (sv_co sv) = 1 \<and> length (sv_conns sv) = 1"
proof -
  let ?env = "\<lparr>ne_socket = True, ne_bind = True, ne_listen = True, ne_getsockname = Some 4000, ne_sock_error = []\<rparr>"
  let ?segs = "[encoded HELLO (hello_payload example_desc)]"
  let ?cn = "new_connection ?segs (\<lambda>_. 1)"
  define sv1 where "sv1 = snd (server_start ?env (new_server default_limits example_world))"
  define sv2 where "sv2 = sv1\<lparr>sv_conns := sv_conns sv1 @ [?cn]\<rparr>"
  have sv1: "sv_conns sv1 = []" "sv_accepting sv1" "sv_co sv1 = new_coordinator default_limits example_world"
    by (simp_all add: sv1_def server_start_def new_server_def)
  have r1: "server_reachable default_limits example_world sv1"
    unfolding sv1_def by (rule server_reachable.step [OF server_reachable.init server_step.start]) (simp add: new_server_def)
  have r2: "server_reachable default_limits example_world sv2"
    unfolding sv2_def by (rule server_reachable.step [OF r1 server_step.accept]) (rule sv1(2))
  have co: "co_epoch (sv_co sv2) = Generation 1" "co_last_boot (sv_co sv2) = Map.empty" "co_live (sv_co sv2) = 0"
    by (simp_all add: sv2_def sv1 new_coordinator_def fresh_generation_def example_world_def initial_world_def)
  then obtain c' where auth: "authorise (sv_co sv2) example_desc = (True, c')" "co_live c' = 1"
    by (simp add: authorise_def example_desc_def)
  obtain segs where step: "conn_step (sv_co sv2) ?cn = (c', ?cn\<lparr>cn_in := segs, cn_phase := Replying example_desc True\<rparr>)"
    using hello_step [OF _ _ _ auth(1), of ?cn "[]"] by (auto simp: new_connection_def)
  have nth: "sv_conns sv2 ! 0 = ?cn" "length (sv_conns sv2) = 1" by (simp_all add: sv2_def sv1)
  let ?sv3 = "sv2\<lparr>sv_co := c', sv_conns := (sv_conns sv2)[0 := ?cn\<lparr>cn_in := segs, cn_phase := Replying example_desc True\<rparr>]\<rparr>"
  have "server_reachable default_limits example_world ?sv3"
    by (rule server_reachable.step [OF r2 server_step.thread]) (use step nth in simp_all)
  moreover have "conn_desc (sv_conns ?sv3) 0 = Some example_desc" "co_live (sv_co ?sv3) = 1" "length (sv_conns ?sv3) = 1"
    using auth(2) nth by (simp_all add: conn_desc_def)
  ultimately show ?thesis by blast
qed

section \<open>Invariants of the running server\<close>

text \<open>
  C25: whatever the threads of a running coordinator do, the registry stays well formed, every
  device in it is owned by a worker that was admitted, under a boot not newer than the last one
  admitted for that worker, every admitted connection reported the coordinator's epoch, no worker
  and boot is admitted on two connections, and the live count is the number of admitted
  connections whose handler has not finished normally.
\<close>

theorem server_reachable_ok:
  assumes "server_reachable lms w sv"
  shows "wf_state lms (co_registry (sv_co sv))
    \<and> (\<forall>i d. device (co_registry (sv_co sv)) i = Some d \<longrightarrow>
         (\<exists>wk b b'. dev_owner_worker d = Some wk \<and> dev_owner_boot d = Some b
           \<and> co_last_boot (sv_co sv) wk = Some b' \<and> b \<le> b'))
    \<and> (\<forall>i d. conn_desc (sv_conns sv) i = Some d \<longrightarrow> wd_epoch d = co_epoch (sv_co sv))
    \<and> (\<forall>i j d d'. conn_desc (sv_conns sv) i = Some d \<longrightarrow> conn_desc (sv_conns sv) j = Some d' \<longrightarrow>
         wd_worker d = wd_worker d' \<longrightarrow> wd_boot d = wd_boot d' \<longrightarrow> i = j)
    \<and> live_worker_count (sv_co sv) = length (filter (\<lambda>cn. counted (cn_phase cn)) (sv_conns sv))"
proof -
  have inv: "server_inv lms sv" using assms by (rule reachable_inv)
  have "owned_by (co_last_boot (sv_co sv)) (dev_owner_worker d) (dev_owner_boot d)"
    if "device (co_registry (sv_co sv)) i = Some d" for i d
    using inv that by (auto simp: server_inv_def coordinator_ok_def registry_owned_def device_def
        dest: um.all_entriesD)
  then show ?thesis
    using inv by (auto simp: server_inv_def coordinator_ok_def live_worker_count_def owned_by_def cred_def)
qed

theorem server_reachable_ok_witness:
  "\<exists>sv. server_reachable default_limits example_world sv
     \<and> conn_desc (sv_conns sv) 0 = Some example_desc \<and> co_epoch (sv_co sv) = Generation 1
     \<and> length (filter (\<lambda>cn. counted (cn_phase cn)) (sv_conns sv)) = 1"
proof -
  obtain sv where sv: "server_reachable default_limits example_world sv"
    "conn_desc (sv_conns sv) 0 = Some example_desc" "co_live (sv_co sv) = 1" using example_server by metis
  then have "wd_epoch example_desc = co_epoch (sv_co sv)"
    "length (filter (\<lambda>cn. counted (cn_phase cn)) (sv_conns sv)) = 1"
    using server_reachable_ok [OF sv(1)] unfolding live_worker_count_def by metis+
  then show ?thesis using sv by (intro exI [of _ sv]) (simp add: example_desc_def)
qed

section \<open>Refinement of the boot fence\<close>

record fence =
  fe_admitted :: "(worker_id \<times> worker_boot_id) set"
  fe_live :: nat

inductive fence_step :: "fence \<Rightarrow> fence \<Rightarrow> bool" where
  admit: "(\<And>b'. (w, b') \<in> fe_admitted f \<Longrightarrow> b' < b) \<Longrightarrow>
    fence_step f \<lparr>fe_admitted = insert (w, b) (fe_admitted f), fe_live = fe_live f + 1\<rparr>"
| leave: "0 < fe_live f \<Longrightarrow> fence_step f (f\<lparr>fe_live := fe_live f - 1\<rparr>)"

definition server_fence :: "server \<Rightarrow> fence" where
  "server_fence sv = \<lparr>fe_admitted = cred ` ran (conn_desc (sv_conns sv)), fe_live = co_live (sv_co sv)\<rparr>"

locale forward_simulation =
  fixes inv :: "'s \<Rightarrow> bool" and step :: "'s \<Rightarrow> 's \<Rightarrow> bool" and abs :: "'s \<Rightarrow> 'a" and astep :: "'a \<Rightarrow> 'a \<Rightarrow> bool"
  assumes step_inv: "inv s \<Longrightarrow> step s s' \<Longrightarrow> inv s'"
    and step_abs: "inv s \<Longrightarrow> step s s' \<Longrightarrow> astep\<^sup>=\<^sup>= (abs s) (abs s')"
begin

lemma runs:
  assumes "step\<^sup>*\<^sup>* s s'" "inv s"
  shows "inv s' \<and> astep\<^sup>*\<^sup>* (abs s) (abs s')"
  using assms
proof (induction rule: rtranclp_induct)
  case (step t u)
  then have "inv t" "astep\<^sup>*\<^sup>* (abs s) (abs t)" by auto
  moreover have "astep\<^sup>*\<^sup>* (abs t) (abs u)" using step_abs [OF calculation(1) step.hyps(2)] by auto
  ultimately show ?case using step_inv [OF _ step.hyps(2)] by auto
qed simp

end

lemma thread_step_fence:
  assumes inv: "server_inv lms sv" and i: "i < length (sv_conns sv)"
    and step: "conn_step (sv_co sv) (sv_conns sv ! i) = (c', cn')"
  shows "fence_step\<^sup>=\<^sup>= (server_fence sv) (server_fence (sv\<lparr>sv_co := c', sv_conns := (sv_conns sv)[i := cn']\<rparr>))"
proof -
  let ?e = "effect_of (cn_phase (sv_conns sv ! i)) (cn_phase cn')"
  note eff = conn_step_effect [OF step]
  have old: "conn_desc (sv_conns sv) i = admitted (cn_phase (sv_conns sv ! i))" using i by (simp add: conn_desc_def)
  show ?thesis
  proof (cases ?e)
    case Stay
    then have "conn_desc ((sv_conns sv)[i := cn']) = conn_desc (sv_conns sv)" "co_live c' = co_live (sv_co sv)"
      using eff old i by (auto simp: conn_desc_simps)
    then show ?thesis by (simp add: server_fence_def)
  next
    case (Admit desc)
    then have a: "conn_desc (sv_conns sv) i = None" "admitted (cn_phase cn') = Some desc" using eff old by auto
    then have "server_fence (sv\<lparr>sv_co := c', sv_conns := (sv_conns sv)[i := cn']\<rparr>) =
        \<lparr>fe_admitted = insert (cred desc) (fe_admitted (server_fence sv)), fe_live = fe_live (server_fence sv) + 1\<rparr>"
      using eff Admit i by (simp add: server_fence_def conn_desc_update ran_map_upd)
    moreover have "b' < wd_boot desc" if "(wd_worker desc, b') \<in> fe_admitted (server_fence sv)" for b'
    proof -
      from that obtain k d where "conn_desc (sv_conns sv) k = Some d" "wd_worker d = wd_worker desc" "wd_boot d = b'"
        by (auto simp: server_fence_def cred_def ran_def)
      moreover from this obtain b'' where "co_last_boot (sv_co sv) (wd_worker desc) = Some b''" "b' \<le> b''"
        using inv by (fastforce simp: server_inv_def covered_def owned_by_def)
      ultimately show ?thesis using eff Admit by (auto intro: order.strict_trans1)
    qed
    ultimately show ?thesis using fence_step.admit [of "wd_worker desc" "server_fence sv" "wd_boot desc"]
      by (simp add: cred_def)
  next
    case Depart
    then have same: "conn_desc ((sv_conns sv)[i := cn']) = conn_desc (sv_conns sv)" "co_live c' = co_live (sv_co sv) - 1"
      and "counted (cn_phase (sv_conns sv ! i))" using eff old i by (auto simp: conn_desc_simps)
    then have "sv_conns sv ! i \<in> set (filter (\<lambda>cn. counted (cn_phase cn)) (sv_conns sv))" using i by simp
    then have "0 < co_live (sv_co sv)" using inv length_pos_if_in_set unfolding server_inv_def by metis
    then show ?thesis using fence_step.leave [of "server_fence sv"] same by (simp add: server_fence_def)
  qed
qed

interpretation sf: forward_simulation "server_inv lms" server_step server_fence fence_step for lms
proof
  fix sv sv' assume inv: "server_inv lms sv" and "server_step sv sv'"
  from this(2,1) show "fence_step\<^sup>=\<^sup>= (server_fence sv) (server_fence sv')"
  proof (induction rule: server_step.induct)
    case (start sv env)
    then show ?case by (simp add: server_start_def server_fence_def Let_def split: option.splits)
  next
    case (thread i sv c' cn')
    then show ?case by (metis thread_step_fence)
  qed (simp_all add: server_fence_def conn_desc_update stop_begin_def)
qed (rule server_step_inv)

lemma reachable_rtranclp: "server_reachable lms w sv \<Longrightarrow> server_step\<^sup>*\<^sup>* (new_server lms w) sv"
  by (induction rule: server_reachable.induct) (auto intro: rtranclp.rtrancl_into_rtrancl)

text \<open>
  C26: admission refines the boot fence. The abstract fence lets a worker in only with a boot newer
  than every boot it was ever let in with, and counts who is inside. Every step of the server is a
  step of the fence or invisible to it, so every reachable server is reachable for the fence: no
  interleaving of connections lets a stale or replayed boot in, also after a disconnect.
\<close>

theorem server_refines_fence:
  assumes "server_reachable lms w sv" "server_step sv sv'"
  shows "fence_step\<^sup>=\<^sup>= (server_fence sv) (server_fence sv')
    \<and> fence_step\<^sup>*\<^sup>* \<lparr>fe_admitted = {}, fe_live = 0\<rparr> (server_fence sv')"
proof -
  have inv: "server_inv lms sv" using assms(1) by (rule reachable_inv)
  have "server_fence (new_server lms w) = \<lparr>fe_admitted = {}, fe_live = 0\<rparr>"
    by (simp add: server_fence_def new_server_def new_coordinator_def conn_desc_def ran_def split: prod.splits)
  moreover have "server_step\<^sup>*\<^sup>* (new_server lms w) sv'"
    using reachable_rtranclp [OF assms(1)] assms(2) by (rule rtranclp.rtrancl_into_rtrancl)
  ultimately show ?thesis
    using sf.step_abs [OF inv assms(2)] sf.runs [OF _ server_inv_init, of lms w sv'] by simp
qed

theorem server_refines_fence_witness:
  "\<exists>sv. fence_step\<^sup>*\<^sup>* \<lparr>fe_admitted = {}, fe_live = 0\<rparr> (server_fence sv) \<and> (Ident 3, Ident 8) \<in> fe_admitted (server_fence sv)"
proof -
  obtain sv where sv: "server_reachable default_limits example_world sv"
    "conn_desc (sv_conns sv) 0 = Some example_desc" using example_server by metis
  have "(Ident 3, Ident 8) \<in> fe_admitted (server_fence (stop_begin sv))"
    using imageI [OF ranI [of "conn_desc (sv_conns sv)", OF sv(2)], of cred] by (simp add: server_fence_def stop_begin_def cred_def example_desc_def)
  then show ?thesis using server_refines_fence [OF sv(1) server_step.stop] by blast
qed

section \<open>A handler from its start to its end\<close>

definition nothing_fresh :: "state \<Rightarrow> bool" where
  \<comment> \<open>no measurement, link or worker-owned device counts as current evidence\<close>
  "nothing_fresh s \<longleftrightarrow>
     (\<forall>m \<in> set (measurement_history s). m_stale m \<and> m_revalidation_required m) \<and>
     (\<forall>i l. link s i = Some l \<longrightarrow> lk_state l = LS_REVALIDATION_REQUIRED) \<and>
     (\<forall>i d. device s i = Some d \<longrightarrow> dev_owner_worker d \<noteq> None \<longrightarrow> dev_health d = DH_REVALIDATION_REQUIRED)"

lemma step_disconnect_nothing_fresh: "nothing_fresh (co_registry (step_disconnect c))"
proof -
  obtain w s where run: "mark_dynamic_evidence_revalidation_required (co_limits c) (co_world c) (co_registry c) = (w, s)"
    by force
  note facts = mark_dynamic_facts [OF run, THEN conjunct1]
    mark_dynamic_facts [OF run, THEN conjunct2, THEN conjunct2, THEN conjunct1]
    mark_dynamic_facts [OF run, THEN conjunct2, THEN conjunct2, THEN conjunct2, THEN conjunct1]
  have "co_registry (step_disconnect c) = s" by (simp add: step_disconnect_def run)
  moreover have "lk_state l = LS_REVALIDATION_REQUIRED" if "link s i = Some l" for i l
    using facts(2) that by (auto dest: spec [of _ i])
  moreover have "dev_health d = DH_REVALIDATION_REQUIRED" if dev: "device s i = Some d" "dev_owner_worker d \<noteq> None" for i d
  proof -
    obtain d0 where "d = (if dev_owner_worker d0 \<noteq> None then d0\<lparr>dev_health := DH_REVALIDATION_REQUIRED\<rparr> else d0)"
      using facts(3) dev(1) by (cases "device (co_registry c) i") (auto dest: spec [of _ i])
    then show ?thesis using dev(2) by (cases "dev_owner_worker d0 = None") simp_all
  qed
  ultimately show ?thesis using facts(1) unfolding nothing_fresh_def by metis
qed

definition joined :: "coordinator \<Rightarrow> worker_descriptor \<Rightarrow> coordinator \<Rightarrow> bool" where
  "joined c0 desc c \<longleftrightarrow> co_last_boot c = (co_last_boot c0)(wd_worker desc \<mapsto> wd_boot desc) \<and> co_live c = co_live c0 + 1"

fun handled :: "coordinator \<Rightarrow> coordinator \<Rightarrow> phase \<Rightarrow> bool" where
  \<comment> \<open>how the coordinator relates to the one the handler started from\<close>
  "handled c0 c Awaiting_Hello \<longleftrightarrow> c = c0"
| "handled c0 c (Replying desc acc) \<longleftrightarrow> (if acc then joined c0 desc c \<and> co_registry c = co_registry c0 else c = c0)"
| "handled c0 c (Serving desc) \<longleftrightarrow> joined c0 desc c"
| "handled c0 c (Routing desc _ _) \<longleftrightarrow> joined c0 desc c"
| "handled c0 c (Disconnecting desc) \<longleftrightarrow> joined c0 desc c"
| "handled c0 c (Departing desc) \<longleftrightarrow> joined c0 desc c \<and> nothing_fresh (co_registry c)"
| "handled c0 c (Closed Bad_Hello) \<longleftrightarrow> c = c0"
| "handled c0 c (Closed (Rejected desc)) \<longleftrightarrow> c = c0"
| "handled c0 c (Closed (Reply_Failed desc acc)) \<longleftrightarrow>
     (if acc then joined c0 desc c \<and> co_registry c = co_registry c0 else c = c0)"
| "handled c0 c (Closed (Finished desc)) \<longleftrightarrow>
     co_last_boot c = (co_last_boot c0)(wd_worker desc \<mapsto> wd_boot desc) \<and> co_live c = co_live c0 \<and>
     nothing_fresh (co_registry c)"

lemma conn_step_handled:
  assumes "conn_step c cn = (c', cn')" "handled c0 c (cn_phase cn)"
  shows "handled c0 c' (cn_phase cn')"
proof (cases "cn_phase cn")
  case Awaiting_Hello
  then have "step_hello c cn = (c', cn')" "c = c0" using assms by (simp_all add: conn_step.simps)
  from this(1) show ?thesis
  proof (cases rule: step_hello_cases)
    case (2 desc acc)
    then show ?thesis using authorise_cases [OF 2(1)] \<open>c = c0\<close> by (cases acc) (auto simp: joined_def)
  qed (use \<open>c = c0\<close> in auto)
next
  case (Replying desc acc)
  then show ?thesis using assms
    by (auto simp: conn_step.simps step_reply_def Let_def split: prod.splits if_splits)
next
  case (Serving desc)
  obtain fr segs where fr: "recv_frame kMax (cn_in cn) = (fr, segs)" by force
  show ?thesis
  proof (cases fr)
    case (Inl e)
    then show ?thesis using assms Serving fr by (auto simp: conn_step.simps step_serve_def)
  next
    case (Inr f)
    then have f: "on_frame desc f c (cn\<lparr>cn_in := segs\<rparr>) = (c', cn')"
      using assms Serving fr by (simp add: conn_step.simps step_serve_def)
    show ?thesis using on_frame_phase [OF f] on_frame_shared [OF f] Serving assms(2) by (auto simp: joined_def)
  qed
next
  case (Routing desc view d)
  then show ?thesis using assms
    by (auto simp: conn_step.simps step_route_def Let_def split: prod.splits)
qed (use assms step_disconnect_nothing_fresh in \<open>auto simp: conn_step.simps joined_def\<close>)

lemma handle_connection_step:
  "\<not> phase_closed (cn_phase cn) \<Longrightarrow> conn_step c cn = (c1, cn1) \<Longrightarrow> handle_connection c cn = handle_connection c1 cn1"
  "phase_closed (cn_phase cn) \<Longrightarrow> handle_connection c cn = (c, cn)"
  by (simp_all add: handle_connection.simps [of c cn])

lemma handle_connection_handled:
  "handle_connection c cn = (c', cn') \<Longrightarrow> handled c0 c (cn_phase cn) \<Longrightarrow>
   phase_closed (cn_phase cn') \<and> handled c0 c' (cn_phase cn')"
proof (induction c cn arbitrary: c' cn' rule: handle_connection.induct)
  case (1 c cn)
  show ?case
  proof (cases "phase_closed (cn_phase cn)")
    case True
    then show ?thesis using "1.prems" by (simp add: handle_connection_step)
  next
    case False
    obtain c1 cn1 where step: "conn_step c cn = (c1, cn1)" by force
    then have "handle_connection c1 cn1 = (c', cn')"
      using "1.prems"(1) handle_connection_step(1) [OF False] by simp
    then show ?thesis using "1.IH" [OF False step [symmetric] refl] conn_step_handled [OF step "1.prems"(2)] by blast
  qed
qed

text \<open>
  C27: a handler ends, and how. On every input (whatever the peer sends, in whatever segments, also
  when it goes away at any point) a handler running alone comes to its end. If the hello was bad
  or the worker refused, the coordinator is unchanged. If the worker was accepted and served, its
  boot is recorded, the live count is back where it was and nothing dynamic in the registry
  counts as fresh. If the worker was accepted and the reply could not be sent, the handler leaves
  the live count one too high for good.
\<close>

theorem handle_connection_ends:
  assumes "handle_connection c (new_connection segs acc) = (c', cn')"
  shows "\<exists>e. cn_phase cn' = Closed e \<and>
    (case e of
       Bad_Hello \<Rightarrow> c' = c
     | Rejected desc \<Rightarrow> c' = c
     | Reply_Failed desc accepted \<Rightarrow>
         if accepted then co_live c' = co_live c + 1 \<and> co_registry c' = co_registry c else c' = c
     | Finished desc \<Rightarrow>
         co_last_boot c' = (co_last_boot c)(wd_worker desc \<mapsto> wd_boot desc) \<and> co_live c' = co_live c \<and>
         nothing_fresh (co_registry c'))"
proof -
  have "phase_closed (cn_phase cn') \<and> handled c c' (cn_phase cn')"
    by (rule handle_connection_handled [OF assms]) (simp add: new_connection_def)
  then show ?thesis by (cases "cn_phase cn'") (auto simp: joined_def split: ending.splits if_splits)
qed

theorem handle_connection_ends_witness:
  "\<exists>c' cn'. handle_connection (new_coordinator default_limits example_world)
       (new_connection [encoded HELLO (hello_payload example_desc)] (\<lambda>_. 0)) = (c', cn')
     \<and> cn_phase cn' = Closed (Reply_Failed example_desc True) \<and> live_worker_count c' = 1"
proof -
  let ?c = "new_coordinator default_limits example_world"
  let ?cn = "new_connection [encoded HELLO (hello_payload example_desc)] (\<lambda>_. 0)"
  obtain c' cn' where run: "handle_connection ?c ?cn = (c', cn')" by force
  have "co_epoch ?c = Generation 1" "co_last_boot ?c = Map.empty" and live: "co_live ?c = 0"
    by (simp_all add: new_coordinator_def fresh_generation_def example_world_def initial_world_def)
  then obtain c1 where auth: "authorise ?c example_desc = (True, c1)"
    by (simp add: authorise_def example_desc_def)
  obtain segs where s1: "conn_step ?c ?cn = (c1, ?cn\<lparr>cn_in := segs, cn_phase := Replying example_desc True\<rparr>)"
    using hello_step [OF _ _ _ auth, of ?cn "[]"] by (auto simp: new_connection_def)
  have "encode_frame (hello_reply c1 example_desc True) kMax = ok (encoded READY (put_u64 (gen_value (co_epoch c1))))"
    unfolding hello_reply_def if_True by (rule encode_encoded) (simp add: kMax_def)
  then obtain cn2 where s2: "conn_step c1 (?cn\<lparr>cn_in := segs, cn_phase := Replying example_desc True\<rparr>) = (c1, cn2)"
    and ph2: "cn_phase cn2 = Closed (Reply_Failed example_desc True)"
    by (simp add: conn_step.simps step_reply_def send_on_def send_frame_def new_connection_def send_all.simps)
  have "handle_connection ?c ?cn = (c1, cn2)"
    using handle_connection_step(1) [OF _ s1] handle_connection_step(1) [OF _ s2] handle_connection_step(2) [of cn2 c1] ph2
    by (simp add: new_connection_def)
  then have ph: "cn_phase cn' = Closed (Reply_Failed example_desc True)" using run ph2 by simp
  show ?thesis using handle_connection_ends [OF run] run ph live by (simp add: live_worker_count_def)
qed

end
