(* ===== verification/Text_Format.thy ===== *)
theory Text_Format
  imports Fabric_Types
begin

text \<open>
  Numbers as text, as the C library functions that the programs call write and read them:
  \<open>strtoul\<close> and \<open>strtoull\<close>, the \<open>%0kx\<close> and \<open>%0kd\<close> conversions of \<open>snprintf\<close>, and that reading
  what was written gives the number back.
\<close>

section \<open>Reading decimal numbers\<close>

fun parse_digits :: "nat \<Rightarrow> string \<Rightarrow> nat" where
  "parse_digits acc [] = acc"
| "parse_digits acc (c # s) =
     (let v = of_char c :: nat in if 48 \<le> v \<and> v \<le> 57 then parse_digits (acc * 10 + (v - 48)) s else acc)"

definition c_isspace :: "char \<Rightarrow> bool" where
  "c_isspace c \<longleftrightarrow> (of_char c :: nat) \<in> {9, 10, 11, 12, 13, 32}"

definition c_strtou :: "string \<Rightarrow> 'w::len word" where
  \<comment> \<open>\<open>strtoul\<close> and \<open>strtoull\<close>, base 10, at their width: leading white space, an optional sign (a
     minus negates modulo the width), digits; the maximum on overflow\<close>
  "c_strtou s =
     (let s = dropWhile c_isspace s;
          neg = (s \<noteq> [] \<and> hd s = CHR ''-'');
          s = (if s \<noteq> [] \<and> (hd s = CHR ''-'' \<or> hd s = CHR ''+'') then tl s else s);
          n = parse_digits 0 s
      in if n \<ge> 2 ^ LENGTH('w) then - 1 else if neg then - word_of_nat n else word_of_nat n)"

definition is_digit :: "char \<Rightarrow> bool" where
  "is_digit c \<longleftrightarrow> 48 \<le> (of_char c :: nat) \<and> (of_char c :: nat) \<le> 57"

section \<open>Writing padded numbers\<close>

fun hex_digits :: "nat \<Rightarrow> string" where
  "hex_digits n =
     (let d = [char_of (if n mod 16 < 10 then 48 + n mod 16 else 87 + n mod 16)]
      in if n < 16 then d else hex_digits (n div 16) @ d)"

declare hex_digits.simps [simp del]

definition hex_pad :: "nat \<Rightarrow> nat \<Rightarrow> string" where
  \<comment> \<open>\<open>%0kx\<close>\<close>
  "hex_pad k n = replicate (k - length (hex_digits n)) CHR ''0'' @ hex_digits n"

definition dec_pad :: "nat \<Rightarrow> nat \<Rightarrow> string" where
  \<comment> \<open>\<open>%0kd\<close> of a value that is not negative\<close>
  "dec_pad k n = replicate (k - length (nat_to_string n)) CHR ''0'' @ nat_to_string n"

definition int_pad :: "nat \<Rightarrow> int \<Rightarrow> string" where
  \<comment> \<open>\<open>%0kd\<close>: the sign counts for the width\<close>
  "int_pad k i = (if i < 0 then ''-'' @ dec_pad (k - 1) (nat (- i)) else dec_pad k (nat i))"

section \<open>Reading back what was written\<close>

lemma nat_to_string_digits: "nat_to_string n \<noteq> [] \<and> list_all is_digit (nat_to_string n)"
proof (induction n rule: nat_to_string.induct)
  case (1 n)
  have "is_digit (char_of (48 + k))" if "k < 10" for k :: nat using that by (simp add: is_digit_def)
  then show ?case using 1 by (subst (1 2) nat_to_string.simps) simp
qed

lemma nat_to_string_zero: "hd (nat_to_string n) = CHR ''0'' \<Longrightarrow> n = 0"
proof (induction n rule: nat_to_string.induct)
  case (1 n)
  show ?case
  proof (cases "n < 10")
    case True
    then have "of_char (char_of (48 + n) :: char) = (48 :: nat)" using 1(2) by (simp add: nat_to_string.simps)
    then show ?thesis using True by simp
  next
    case False
    then have "hd (nat_to_string (n div 10)) = CHR ''0''"
      using 1(2) nat_to_string_digits [of "n div 10"] by (subst (asm) nat_to_string.simps) simp
    then show ?thesis using 1(1) False by simp
  qed
qed

lemma parse_digits_append: "list_all is_digit xs \<Longrightarrow> parse_digits acc (xs @ r) = parse_digits (parse_digits acc xs) r"
  by (induction xs arbitrary: acc) (auto simp: is_digit_def Let_def)

lemma parse_nat_to_string: "parse_digits 0 (nat_to_string n) = n"
proof (induction n rule: nat_to_string.induct)
  case (1 n)
  then show ?case
    using nat_to_string_digits [of "n div 10"]
    by (subst nat_to_string.simps) (auto simp: parse_digits_append)
qed

lemma nat_to_string_length:
  assumes "0 < k" "n < 10 ^ k"
  shows "length (nat_to_string n) \<le> k"
  using assms
proof (induction n arbitrary: k rule: nat_to_string.induct)
  case (1 n)
  show ?case
  proof (cases "n < 10")
    case True
    then show ?thesis using "1.prems" by (subst nat_to_string.simps) simp
  next
    case False
    then obtain j where j: "k = Suc j" "0 < j" using "1.prems" by (cases k; cases "k - 1") auto
    then have "n div 10 < 10 ^ j" using "1.prems"(2) by (simp add: div_less_iff_less_mult mult.commute)
    then have "length (nat_to_string (n div 10)) \<le> j" using "1.IH" False j(2) by simp
    then show ?thesis using False j by (subst nat_to_string.simps) simp
  qed
qed

lemma dec_pad_length: "0 < k \<Longrightarrow> n < 10 ^ k \<Longrightarrow> length (dec_pad k n) = k"
  using nat_to_string_length [of k n] by (simp add: dec_pad_def)

lemma parse_zeros: "parse_digits 0 (replicate m CHR ''0'' @ s) = parse_digits 0 s"
  by (induction m) (simp_all add: Let_def)

lemma parse_dec_pad: "parse_digits 0 (dec_pad k n) = n"
  by (simp add: dec_pad_def parse_zeros parse_nat_to_string)

end
