(* ===== verification/Worker_Client.thy ===== *)
theory Worker_Client
  imports Coordinator_Properties Text_Format
begin

text \<open>
  \<open>WorkerClient\<close>, the process helpers (\<open>runtime.hpp\<close>, \<open>src/core/runtime.cpp\<close>) and the worker
  executable (\<open>tools/nvlink_worker.cpp\<close>). What the operating system answers (handles, connection
  results, created processes) comes from an environment record; the bytes the coordinator sends
  are the input segments of the socket. The theorems put client and coordinator together: both
  ends agree on the outcome of the handshake, and what a worker publishes is what the coordinator
  enters into its registry.
\<close>

section \<open>WorkerClient\<close>

record client =
  wc_port :: u16
  wc_sock :: u64 \<comment> \<open>\<open>sock_\<close>; zero means not connected\<close>
  wc_in :: segments
  wc_out :: out_socket
  wc_accept :: "nat \<Rightarrow> nat"

record connect_env =
  ce_socket :: "u64 option" \<comment> \<open>the handle \<open>socket()\<close> returns; \<open>None\<close> is \<open>kInvalid\<close>\<close>
  ce_connect :: bool
  ce_sock_error :: string
  ce_in :: segments
  ce_accept :: "nat \<Rightarrow> nat"

definition new_client :: "u16 \<Rightarrow> client" where
  "new_client port = \<lparr>wc_port = port, wc_sock = 0, wc_in = [], wc_out = \<lparr>out_bytes = [], out_calls = 0\<rparr>,
     wc_accept = (\<lambda>_. 0)\<rparr>"

definition client_send :: "frame \<Rightarrow> client \<Rightarrow> bool \<times> client" where
  "client_send f wc = (let (good, out) = send_frame (wc_accept wc) f kMax (wc_out wc) in (good, wc\<lparr>wc_out := out\<rparr>))"

definition client_recv :: "client \<Rightarrow> frame result \<times> client" where
  "client_recv wc = (let (r, segs) = recv_frame kMax (wc_in wc) in (r, wc\<lparr>wc_in := segs\<rparr>))"

fun str_contains :: "string \<Rightarrow> string \<Rightarrow> bool" where
  \<comment> \<open>\<open>s.find(p) != std::string::npos\<close>\<close>
  "str_contains p [] \<longleftrightarrow> p = []"
| "str_contains p (c # s) \<longleftrightarrow> prefix p (c # s) \<or> str_contains p s"

definition hello_result :: "frame result \<Rightarrow> unit result" where
  \<comment> \<open>how \<open>connect\<close> reads the reply to its hello\<close>
  "hello_result reply =
     (case reply of
        Inl e \<Rightarrow> fail EC_PROTOCOL_ERROR ''worker got no HELLO reply''
      | Inr f \<Rightarrow>
          if f_type f = GOODBYE
          then let msg = fst (read_payload_of payload_str (f_payload f))
               in fail (if str_contains ''epoch'' msg then EC_STALE_EPOCH else EC_STALE_BOOT)
                    (if msg = [] then ''worker rejected'' else msg)
          else if f_type f \<noteq> READY then fail EC_PROTOCOL_ERROR ''unexpected HELLO reply''
          else ok ())"

definition connect :: "connect_env \<Rightarrow> worker_descriptor \<Rightarrow> client \<Rightarrow> unit result \<times> client" where
  "connect env desc wc =
     (case ce_socket env of
        None \<Rightarrow> (fail EC_BACKEND_ERROR (''worker socket() failed: '' @ ce_sock_error env), wc)
      | Some s \<Rightarrow>
          if \<not> ce_connect env then (fail EC_BACKEND_ERROR (''worker connect() failed: '' @ ce_sock_error env), wc)
          else let wc = wc\<lparr>wc_sock := s, wc_in := ce_in env, wc_out := \<lparr>out_bytes = [], out_calls = 0\<rparr>,
                           wc_accept := ce_accept env\<rparr>;
                   (good, wc) = client_send \<lparr>f_type = HELLO, f_payload = hello_payload desc\<rparr> wc
          in if \<not> good then (fail EC_PROTOCOL_ERROR ''worker failed to send HELLO'', wc)
          else let (reply, wc) = client_recv wc in (hello_result reply, wc))"

definition client_publish :: "message_type \<Rightarrow> bytes \<Rightarrow> string \<Rightarrow> client \<Rightarrow> unit result \<times> client" where
  \<comment> \<open>the body shared by the five operations that send one frame\<close>
  "client_publish t payload failure wc =
     (if wc_sock wc = 0 then (fail EC_NOT_FOUND ''not connected'', wc)
      else let (good, wc) = client_send \<lparr>f_type = t, f_payload = payload\<rparr> wc
      in if \<not> good then (fail EC_PROTOCOL_ERROR failure, wc) else (ok (), wc))"

definition client_publish_device :: "device_record \<Rightarrow> client \<Rightarrow> unit result \<times> client" where
  "client_publish_device d = client_publish PUBLISH_DEVICE (enc_device d) ''failed to publish device''"

definition client_publish_link :: "link_record \<Rightarrow> client \<Rightarrow> unit result \<times> client" where
  "client_publish_link l = client_publish PUBLISH_LINK (enc_link l) ''failed to publish link''"

definition client_publish_measurement :: "(f64 \<Rightarrow> u64) \<Rightarrow> measurement_record \<Rightarrow> client \<Rightarrow> unit result \<times> client" where
  "client_publish_measurement ub m =
     client_publish PUBLISH_MEASUREMENT (enc_meas ub m) ''failed to publish measurement''"

definition signal_ready :: "client \<Rightarrow> unit result \<times> client" where
  "signal_ready = client_publish READY [] ''failed to signal ready''"

definition heartbeat :: "client \<Rightarrow> unit result \<times> client" where
  "heartbeat = client_publish HEARTBEAT [] ''failed to send heartbeat''"

definition request_route :: "device_id \<Rightarrow> device_id \<Rightarrow> client \<Rightarrow> route_decision result \<times> client" where
  \<comment> \<open>the policy argument of the source is not used\<close>
  "request_route src tgt wc =
     (if wc_sock wc = 0 then (fail EC_NOT_FOUND ''not connected'', wc)
      else let (good, wc) = client_send \<lparr>f_type = ROUTE, f_payload = route_request src tgt\<rparr> wc
      in if \<not> good then (fail EC_PROTOCOL_ERROR ''failed to send route request'', wc)
      else let (reply, wc) = client_recv wc
      in case reply of
           Inl e \<Rightarrow> (fail EC_PROTOCOL_ERROR ''bad route reply'', wc)
         | Inr f \<Rightarrow>
             if f_type f \<noteq> ROUTE then (fail EC_PROTOCOL_ERROR ''bad route reply'', wc)
             else (ok (fst (read_payload_of read_route_reply (f_payload f))), wc))"

definition disconnect :: "client \<Rightarrow> client" where
  "disconnect wc = (if wc_sock wc \<noteq> 0 then wc\<lparr>wc_sock := 0\<rparr> else wc)"

section \<open>Process helpers\<close>

record worker_process_spec =
  ws_worker_exe :: string
  ws_port :: u16
  ws_worker_id :: worker_id
  ws_boot :: worker_boot_id
  ws_epoch :: coordinator_epoch

type_synonym process_handle = "u64 option" \<comment> \<open>\<open>WorkerProcessHandle\<close>; \<open>None\<close> is the null pointer\<close>

definition spawn_command :: "worker_process_spec \<Rightarrow> string" where
  "spawn_command spec =
     [CHR 0x22] @ ws_worker_exe spec @ [CHR 0x22] @ '' '' @
     nat_to_string (unat (ws_port spec)) @ '' '' @
     nat_to_string (unat (id_value (ws_worker_id spec))) @ '' '' @
     nat_to_string (unat (id_value (ws_boot spec))) @ '' '' @
     nat_to_string (unat (gen_value (ws_epoch spec)))"

definition spawn_worker :: "bool \<Rightarrow> (string \<Rightarrow> u64 option) \<Rightarrow> worker_process_spec \<Rightarrow> process_handle result" where
  \<comment> \<open>\<open>win\<close>: compiled for Windows; \<open>create\<close>: \<open>CreateProcessW\<close> on the command line\<close>
  "spawn_worker win create spec =
     (if win
      then (case create (spawn_command spec) of
              None \<Rightarrow> fail EC_BACKEND_ERROR ''CreateProcess failed''
            | Some h \<Rightarrow> ok (Some h))
      else fail EC_UNSUPPORTED ''process spawn unsupported here'')"

definition kill_worker :: "bool \<Rightarrow> process_handle \<Rightarrow> unit result \<times> process_handle" where
  "kill_worker win h =
     (if win then (case h of None \<Rightarrow> (fail EC_NOT_FOUND ''no worker process'', h) | Some _ \<Rightarrow> (ok (), None))
      else (fail EC_UNSUPPORTED ''process kill unsupported here'', h))"

definition wait_worker :: "bool \<Rightarrow> process_handle \<Rightarrow> unit result \<times> process_handle" where
  "wait_worker win h =
     (if win then (case h of None \<Rightarrow> (fail EC_NOT_FOUND ''no worker process'', h) | Some _ \<Rightarrow> (ok (), None))
      else (fail EC_UNSUPPORTED ''process wait unsupported here'', h))"

section \<open>The worker executable\<close>

definition parse_port :: "bool \<Rightarrow> string \<Rightarrow> u16" where
  \<comment> \<open>\<open>unsigned long\<close> has 32 bits on Windows and 64 elsewhere\<close>
  "parse_port win s = (if win then ucast (c_strtou s :: u32) else ucast (c_strtou s :: u64))"

definition worker_evidence :: "string \<Rightarrow> evidence" where
  "worker_evidence msg = Evidence EV_SYNTHETIC PROV_SYNTHETIC_FIXTURE ''worker'' msg"

definition worker_base :: "worker_boot_id \<Rightarrow> u64" where
  "worker_base boot = id_value boot * 1000000"

definition worker_device :: "u64 \<Rightarrow> string \<Rightarrow> u64 \<Rightarrow> device_record" where
  "worker_device i name g = default_device\<lparr>dev_id := Ident i, dev_logical_name := name,
     dev_kind := NK_ACCELERATOR, dev_architecture := ''SYNTHETIC'', dev_device_generation := ''SYNTHETIC'',
     dev_health := DH_PRESENT, dev_evidence := worker_evidence ''worker-synthetic device'',
     dev_generation := Generation g,
     dev_capability := default_capability\<lparr>cap_nominal_bandwidth_bps := 400000000000,
       cap_peer_access_supported := True\<rparr>\<rparr>"

definition worker_link :: "worker_boot_id \<Rightarrow> timestamp \<Rightarrow> link_record" where
  "worker_link boot now = default_link\<lparr>lk_id := Ident (worker_base boot + 1), lk_source := Ident 100,
     lk_target := Ident 101, lk_state := LS_UP, lk_technology := IT_NVLINK,
     lk_capability := default_capability\<lparr>cap_nominal_bandwidth_bps := 400000000000\<rparr>,
     lk_generation := Generation (worker_base boot + 1),
     lk_evidence := worker_evidence ''worker-synthetic link'', lk_measurement_supported := True,
     lk_last_observation := now\<rparr>"

definition worker_measurement :: "worker_boot_id \<Rightarrow> measurement_record" where
  "worker_measurement boot = default_measurement\<lparr>m_id := Ident (worker_base boot + 1), m_source := Ident 100,
     m_target := Ident 101, m_payload_bytes := 4 * 1024 * 1024, m_iterations := 8, m_warmup_iterations := 2,
     m_completed_transfers := 8, m_bandwidth_bps := f64_round 380000000000,
     m_latency_seconds := f64_round (8 / 1000000), m_integrity_verified := True, m_valid := True,
     m_evidence := worker_evidence ''worker-synthetic measurement''\<rparr>"

definition worker_publish :: "(f64 \<Rightarrow> u64) \<Rightarrow> timestamp \<Rightarrow> worker_boot_id \<Rightarrow> client \<Rightarrow> client" where
  \<comment> \<open>between the connection and the heartbeat loop; the results are not looked at\<close>
  "worker_publish ub now boot wc =
     (let (_, wc) = client_publish_device (worker_device 100 ''gpu0'' (worker_base boot + 1)) wc;
          (_, wc) = client_publish_device (worker_device 101 ''gpu1'' (worker_base boot + 2)) wc;
          (_, wc) = client_publish_link (worker_link boot now) wc;
          (_, wc) = client_publish_measurement ub (worker_measurement boot) wc;
          (_, wc) = signal_ready wc
      in wc)"

partial_function (option) heartbeat_loop :: "client \<Rightarrow> client option" where
  "heartbeat_loop wc =
     (let (hb, wc) = heartbeat wc in if has_value hb then heartbeat_loop wc else Some wc)"

definition worker_main ::
  "bool \<Rightarrow> connect_env \<Rightarrow> (f64 \<Rightarrow> u64) \<Rightarrow> timestamp \<Rightarrow> string list \<Rightarrow> nat option" where
  \<comment> \<open>the exit code, \<open>None\<close> while the heartbeats go on; \<open>args\<close> is \<open>argv\<close> with the program name\<close>
  "worker_main win env ub now args =
     (if length args < 5 then Some 2
      else let port = parse_port win (args ! 1);
               desc = \<lparr>wd_worker = Ident (c_strtou (args ! 2)), wd_boot = Ident (c_strtou (args ! 3)),
                       wd_epoch = Generation (c_strtou (args ! 4))\<rparr>;
               (c, wc) = connect env desc (new_client port)
      in if \<not> has_value c then Some 3
      else map_option (\<lambda>_. 4) (heartbeat_loop (worker_publish ub now (wd_boot desc) wc)))"

section \<open>Both ends together\<close>

lemma frame_eta [simp]: "\<lparr>f_type = f_type f, f_payload = f_payload f\<rparr> = f"
  by (cases f) simp

lemma send_frame_encoded:
  assumes "length payload + 14 \<le> kMax" "\<forall>n. 0 < acc n"
  shows "\<exists>k. send_frame acc \<lparr>f_type = t, f_payload = payload\<rparr> kMax s =
    (True, s\<lparr>out_bytes := out_bytes s @ encoded t payload, out_calls := k\<rparr>)"
proof -
  obtain good s' where run: "send_all acc (encoded t payload) s = (good, s')" by force
  then have "good" using send_all_progress [OF assms(2), of "encoded t payload" s] by simp
  then have "out_bytes s' = out_bytes s @ encoded t payload" using send_all_spec [OF run] by auto
  then have "\<exists>k. s' = s\<lparr>out_bytes := out_bytes s @ encoded t payload, out_calls := k\<rparr>"
    by (cases s; cases s') simp
  then show ?thesis
    using run \<open>good\<close> by (simp add: send_frame_def encode_encoded [OF assms(1)])
qed

lemma hello_fits: "length (hello_payload desc) + 14 \<le> kMax"
  by (simp add: payload_bounds kMax_def)

lemma connect_sends_hello:
  assumes "ce_socket env = Some s" "ce_connect env" "\<forall>n. 0 < ce_accept env n" "connect env desc wc = (r, wc')"
  shows "out_bytes (wc_out wc') = encoded HELLO (hello_payload desc)
    \<and> r = hello_result (fst (recv_frame kMax (ce_in env)))"
proof -
  obtain k where "send_frame (ce_accept env) \<lparr>f_type = HELLO, f_payload = hello_payload desc\<rparr> kMax
      \<lparr>out_bytes = [], out_calls = 0\<rparr> = (True, \<lparr>out_bytes = encoded HELLO (hello_payload desc), out_calls = k\<rparr>)"
    using send_frame_encoded [OF hello_fits assms(3), of HELLO desc "\<lparr>out_bytes = [], out_calls = 0\<rparr>"] by auto
  then show ?thesis
    using assms(1,2,4) by (auto simp: connect_def client_send_def client_recv_def split: prod.splits)
qed

lemma hello_reply_sent:
  assumes "cn_phase cn = Replying desc acc" "\<forall>n. 0 < cn_accept cn n" "conn_step c cn = (c', cn')"
  shows "c' = c" "cn_phase cn' = (if acc then Serving desc else Closed (Rejected desc))"
    "out_bytes (cn_out cn') = out_bytes (cn_out cn) @ encoded (f_type (hello_reply c desc acc)) (f_payload (hello_reply c desc acc))"
proof -
  have "length (f_payload (hello_reply c desc acc)) + 14 \<le> kMax"
    using put_str_length [of "rejection_note c desc"] by (simp add: hello_reply_def kMax_def)
  from send_frame_encoded [OF this assms(2), of "f_type (hello_reply c desc acc)" "cn_out cn"]
  obtain k where k: "send_on (hello_reply c desc acc) cn = (True, cn\<lparr>cn_out := (cn_out cn)\<lparr>out_bytes := out_bytes (cn_out cn) @
      encoded (f_type (hello_reply c desc acc)) (f_payload (hello_reply c desc acc)), out_calls := k\<rparr>\<rparr>)"
    by (auto simp: send_on_def)
  show "c' = c" "cn_phase cn' = (if acc then Serving desc else Closed (Rejected desc))"
    "out_bytes (cn_out cn') = out_bytes (cn_out cn) @ encoded (f_type (hello_reply c desc acc)) (f_payload (hello_reply c desc acc))"
    using assms(1,3) k by (auto simp: conn_step.simps step_reply_def split: if_splits)
qed

lemma payload_str_short: "length s \<le> 65535 \<Longrightarrow> fst (read_payload_of payload_str (put_str s)) = s"
  using read_payload_decodes [OF decodes_payload_str [of s]] by simp

lemma hello_result_reply:
  assumes "flowing segs" "concat segs = encoded (f_type (hello_reply c desc acc)) (f_payload (hello_reply c desc acc)) @ rest"
  shows "hello_result (fst (recv_frame kMax segs)) =
    (if acc then ok () else if wd_epoch desc \<noteq> co_epoch c then fail EC_STALE_EPOCH ''stale coordinator epoch''
     else fail EC_STALE_BOOT ''stale worker boot identity'')"
proof -
  have "length (f_payload (hello_reply c desc acc)) + 14 \<le> kMax"
    using put_str_length [of "rejection_note c desc"] by (simp add: hello_reply_def kMax_def)
  from recv_encoded [OF assms this] obtain segs' where "recv_frame kMax segs = (ok (hello_reply c desc acc), segs')"
    by auto
  then show ?thesis
    by (simp add: hello_result_def hello_reply_def rejection_note_def payload_str_short)
qed

text \<open>
  C28: client and coordinator agree on the handshake. When the network delivers what each side
  sends, in any segments, \<open>connect\<close> succeeds exactly when the coordinator admits the worker, and
  then the coordinator serves it; otherwise the coordinator is unchanged, the connection is
  closed, and the client reports \<open>STALE_EPOCH\<close> or \<open>STALE_BOOT\<close> for the reason the coordinator had.
\<close>

theorem handshake_agreement:
  assumes client: "ce_socket env = Some s" "ce_connect env" "\<forall>n. 0 < ce_accept env n" "connect env desc wc = (r, wc')"
    and server: "\<forall>n. 0 < acc n" "conn_step c (new_connection segs acc) = (c1, cn1)" "conn_step c1 cn1 = (c2, cn2)"
    and network: "flowing segs" "concat segs = out_bytes (wc_out wc') @ later"
      "flowing (ce_in env)" "concat (ce_in env) = out_bytes (cn_out cn2) @ rest"
  shows "(if wd_epoch desc \<noteq> co_epoch c
     then r = fail EC_STALE_EPOCH ''stale coordinator epoch'' \<and> c2 = c \<and> cn_phase cn2 = Closed (Rejected desc)
     else if \<exists>b. co_last_boot c (wd_worker desc) = Some b \<and> wd_boot desc \<le> b
     then r = fail EC_STALE_BOOT ''stale worker boot identity'' \<and> c2 = c \<and> cn_phase cn2 = Closed (Rejected desc)
     else r = ok () \<and> cn_phase cn2 = Serving desc \<and> co_live c2 = co_live c + 1 \<and>
       co_last_boot c2 = (co_last_boot c)(wd_worker desc \<mapsto> wd_boot desc))"
proof -
  note sent = connect_sends_hello [OF client]
  obtain a c1' where auth: "authorise c desc = (a, c1')" by force
  have "concat (cn_in (new_connection segs acc)) = encoded HELLO (hello_payload desc) @ later"
    using network(2) sent by (simp add: new_connection_def)
  from hello_step [OF _ _ this auth] network(1) obtain segs' where "c1 = c1'"
    "cn1 = (new_connection segs acc)\<lparr>cn_in := segs', cn_phase := Replying desc a\<rparr>"
    using server(2) by (auto simp: new_connection_def)
  then have "cn_phase cn1 = Replying desc a" "\<forall>n. 0 < cn_accept cn1 n" "out_bytes (cn_out cn1) = []"
    using server(1) by (simp_all add: new_connection_def)
  from hello_reply_sent [OF this(1,2) server(3)] this(3)
  have end2: "c2 = c1" "cn_phase cn2 = (if a then Serving desc else Closed (Rejected desc))"
    "out_bytes (cn_out cn2) = encoded (f_type (hello_reply c1 desc a)) (f_payload (hello_reply c1 desc a))" by simp_all
  have epoch: "co_epoch c1 = co_epoch c" using auth \<open>c1 = c1'\<close> authorise_cases by blast
  have r: "r = (if a then ok () else if wd_epoch desc \<noteq> co_epoch c then fail EC_STALE_EPOCH ''stale coordinator epoch''
      else fail EC_STALE_BOOT ''stale worker boot identity'')"
    using sent hello_result_reply [OF network(3)] network(4) end2(3) epoch by simp
  have "authorise c desc = (a, c2)" using auth end2(1) \<open>c1 = c1'\<close> by simp
  then show ?thesis
    using end2(2) unfolding r
    by (auto simp: authorise_def Let_def not_le split: if_splits option.splits)
qed

definition example_coordinator :: coordinator where
  "example_coordinator = new_coordinator default_limits example_world"

lemma example_coordinator_simps:
  "co_epoch example_coordinator = Generation 1" "co_last_boot example_coordinator = Map.empty"
  "co_live example_coordinator = 0" "co_registry example_coordinator = initial_state"
  "co_limits example_coordinator = default_limits"
  by (simp_all add: example_coordinator_def new_coordinator_def fresh_generation_def example_world_def initial_world_def)

theorem handshake_agreement_witness:
  "\<exists>env wc' c1 cn1 c2 cn2. connect env example_desc (new_client 4000) = (ok (), wc')
     \<and> conn_step example_coordinator (new_connection [out_bytes (wc_out wc')] (\<lambda>_. 1)) = (c1, cn1)
     \<and> conn_step c1 cn1 = (c2, cn2) \<and> cn_phase cn2 = Serving example_desc \<and> live_worker_count c2 = 1"
proof -
  let ?hello = "encoded HELLO (hello_payload example_desc)"
  let ?cn = "new_connection [?hello] (\<lambda>_. 1)"
  obtain c1 cn1 where s1: "conn_step example_coordinator ?cn = (c1, cn1)" by force
  obtain c2 cn2 where s2: "conn_step c1 cn1 = (c2, cn2)" by force
  obtain a c1' where auth: "authorise example_coordinator example_desc = (a, c1')" by force
  have "cn_phase cn1 = Replying example_desc a" "\<forall>n. 0 < cn_accept cn1 n"
    using hello_step [OF _ _ _ auth, of ?cn "[]"] s1 by (auto simp: new_connection_def)
  from hello_reply_sent(3) [OF this s2] have ne: "out_bytes (cn_out cn2) \<noteq> []" by simp
  define env where "env = \<lparr>ce_socket = Some 7, ce_connect = True, ce_sock_error = [], ce_in = [out_bytes (cn_out cn2)],
    ce_accept = \<lambda>_. 3\<rparr>"
  obtain r wc' where con: "connect env example_desc (new_client 4000) = (r, wc')" by force
  have hello: "out_bytes (wc_out wc') = ?hello" using connect_sends_hello [OF _ _ _ con] by (simp add: env_def)
  have "r = ok () \<and> cn_phase cn2 = Serving example_desc \<and> co_live c2 = 1"
    using handshake_agreement [OF _ _ _ con _ s1 s2, of 7 "[]" "[]"] ne
    by (simp add: env_def hello example_coordinator_simps example_desc_def)
  then show ?thesis
    using con s1 s2
    by (intro exI [of _ env] exI [of _ wc'] exI [of _ c1] exI [of _ cn1] exI [of _ c2] exI [of _ cn2])
      (simp add: hello live_worker_count_def)
qed

section \<open>What a worker publishes\<close>

lemma client_publish_sends:
  assumes "wc_sock wc \<noteq> 0" "\<forall>n. 0 < wc_accept wc n" "length payload + 14 \<le> kMax"
    "client_publish t payload msg wc = (r, wc')"
  shows "r = ok () \<and> out_bytes (wc_out wc') = out_bytes (wc_out wc) @ encoded t payload \<and>
    wc_sock wc' = wc_sock wc \<and> wc_accept wc' = wc_accept wc \<and> wc_in wc' = wc_in wc"
proof -
  obtain k where "send_frame (wc_accept wc) \<lparr>f_type = t, f_payload = payload\<rparr> kMax (wc_out wc) =
      (True, (wc_out wc)\<lparr>out_bytes := out_bytes (wc_out wc) @ encoded t payload, out_calls := k\<rparr>)"
    using send_frame_encoded [OF assms(3,2), of t "wc_out wc"] by blast
  then show ?thesis using assms(1,4) by (auto simp: client_publish_def client_send_def)
qed

lemma serve_encoded:
  assumes "cn_phase cn = Serving desc" "flowing (cn_in cn)" "concat (cn_in cn) = encoded t payload @ later"
    "length payload + 14 \<le> kMax"
  shows "\<exists>segs. conn_step c cn = on_frame desc \<lparr>f_type = t, f_payload = payload\<rparr> c (cn\<lparr>cn_in := segs\<rparr>)
    \<and> flowing segs \<and> concat segs = later"
  using recv_encoded [OF assms(2-4)] assms(1) by (auto simp: conn_step.simps step_serve_def)

definition accepts_device :: "coordinator \<Rightarrow> device_record \<Rightarrow> bool" where
  "accepts_device c d \<longleftrightarrow> \<not> is_nil (dev_id d) \<and> gen_valid (dev_generation d) \<and>
     (case device (co_registry c) (dev_id d) of
        None \<Rightarrow> device_count (co_registry c) < max_devices (co_limits c)
      | Some cur \<Rightarrow> dev_generation cur < dev_generation d \<or> d = cur)"

lemma upsert_device_effect:
  assumes "upsert_device (co_limits c) d w (co_registry c) = (r, w', s')"
  shows "if accepts_device c d then device s' = (device (co_registry c))(dev_id d \<mapsto> d) else s' = co_registry c"
  using upsert_device_cases [OF assms] ud.error_keeps [of "co_limits c" d w "co_registry c"] assms
  by (cases r) (auto simp: accepts_device_def)

text \<open>
  The boot of the connection is compared only at the hello, so a connection keeps publishing after a
  newer boot of its worker was admitted: nothing below asks for the latest boot.
\<close>

lemma published_device_entered:
  assumes client: "wc_sock wc \<noteq> 0" "\<forall>n. 0 < wc_accept wc n" "client_publish_device d wc = (r, wc')"
    and castable: "device_castable d"
    and server: "cn_phase cn = Serving desc" "flowing (cn_in cn)" "conn_step c cn = (c', cn')"
    and network: "out_bytes (wc_out wc) @ concat (cn_in cn) = out_bytes (wc_out wc') @ later"
    and entry: "entry = (received_device d)\<lparr>dev_owner_worker := Some (wd_worker desc), dev_owner_boot := Some (wd_boot desc)\<rparr>"
  shows "r = ok () \<and> cn_phase cn' = Serving desc \<and> concat (cn_in cn') = later
    \<and> (if accepts_device c entry then device (co_registry c') = (device (co_registry c))(dev_id d \<mapsto> entry)
       else co_registry c' = co_registry c)"
proof -
  have fits: "length (enc_device d) + 14 \<le> kMax" using payload_bounds(1) [of d] by (simp add: kMax_def)
  note sent = client_publish_sends [OF client(1,2) fits client(3) [unfolded client_publish_device_def]]
  then have input: "concat (cn_in cn) = encoded PUBLISH_DEVICE (enc_device d) @ later" using network by simp
  obtain segs where step: "(c', cn') = (on_publish_device desc (enc_device d) c, cn\<lparr>cn_in := segs\<rparr>)" "concat segs = later"
    using serve_encoded [OF server(1,2) input fits, of c] server(3) by (auto simp: on_frame_def)
  obtain ur w' s' where run: "upsert_device (co_limits c) entry (co_world c) (co_registry c) = (ur, w', s')"
    by (metis prod_cases3)
  have "on_publish_device desc (enc_device d) c = with_registry c (ur, w', s')"
    using run entry by (simp add: on_publish_device_def read_payload_decodes [OF decodes_device [OF castable]])
  then have "co_registry c' = s'" using step by (simp add: with_registry_def)
  moreover have "dev_id entry = dev_id d" by (simp add: entry received_device_def)
  ultimately show ?thesis using sent step upsert_device_effect [OF run] server(1) by simp
qed

text \<open>
  C29: what becomes of a published device. Let a worker whose connection is served under the latest boot
  admitted for it publish a device with named enumeration values over a socket that accepts bytes, and let
  these bytes be the next input of the handler. Then the client is told success and the handler takes exactly this
  frame. If the registry accepts the received form of the device, owned by the worker and boot of the
  connection (it has an id and a valid generation and is new within the bound, newer than the stored one or
  identical to it), this form is stored and every other device is as before; otherwise the registry
  is unchanged, although the client was told success.
\<close>

theorem published_device_registered:
  assumes client: "wc_sock wc \<noteq> 0" "\<forall>n. 0 < wc_accept wc n" "client_publish_device d wc = (r, wc')"
    and castable: "device_castable d"
    and server: "cn_phase cn = Serving desc" "flowing (cn_in cn)" "conn_step c cn = (c', cn')"
    and latest: "co_last_boot c (wd_worker desc) = Some (wd_boot desc)"
    and network: "out_bytes (wc_out wc) @ concat (cn_in cn) = out_bytes (wc_out wc') @ later"
    and entry: "entry = (received_device d)\<lparr>dev_owner_worker := Some (wd_worker desc), dev_owner_boot := Some (wd_boot desc)\<rparr>"
  shows "r = ok () \<and> cn_phase cn' = Serving desc \<and> concat (cn_in cn') = later
    \<and> (if accepts_device c entry then device (co_registry c') = (device (co_registry c))(dev_id d \<mapsto> entry)
       else co_registry c' = co_registry c)"
  by (rule published_device_entered [OF client castable server network entry])

theorem published_device_registered_witness:
  "\<exists>wc' c' cn' d. client_publish_device (worker_device 100 ''gpu0'' 5) ((new_client 1)\<lparr>wc_sock := 7, wc_accept := \<lambda>_. 2\<rparr>) = (ok (), wc')
     \<and> conn_step (example_coordinator\<lparr>co_last_boot := [wd_worker example_desc \<mapsto> wd_boot example_desc]\<rparr>) ((new_connection [out_bytes (wc_out wc')] (\<lambda>_. 1))\<lparr>cn_phase := Serving example_desc\<rparr>) = (c', cn')
     \<and> device (co_registry c') (Ident 100) = Some d \<and> dev_owner_boot d = Some (Ident 8)"
proof -
  let ?c = "example_coordinator\<lparr>co_last_boot := [wd_worker example_desc \<mapsto> wd_boot example_desc]\<rparr>"
  let ?d = "worker_device 100 ''gpu0'' 5"
  let ?wc = "(new_client 1)\<lparr>wc_sock := 7, wc_accept := \<lambda>_. 2\<rparr>"
  obtain r wc' where pub: "client_publish_device ?d ?wc = (r, wc')" by force
  let ?cn = "(new_connection [out_bytes (wc_out wc')] (\<lambda>_. 1))\<lparr>cn_phase := Serving example_desc\<rparr>"
  obtain c' cn' where step: "conn_step ?c ?cn = (c', cn')" by force
  have "length (enc_device ?d) + 14 \<le> kMax" using payload_bounds(1) [of ?d] by (simp add: kMax_def)
  then have ne: "out_bytes (wc_out wc') \<noteq> []"
    using client_publish_sends [OF _ _ _ pub [unfolded client_publish_device_def]] by simp
  have cast: "device_castable ?d"
    by (simp add: device_castable_def worker_device_def worker_evidence_def Evidence_def node_kind_canon_def
        node_kind_of_u8_def device_health_state_canon_def device_health_state_of_u8_def
        evidence_class_canon_def evidence_class_of_u8_def)
  define entry where "entry = (received_device ?d)\<lparr>dev_owner_worker := Some (wd_worker example_desc),
    dev_owner_boot := Some (wd_boot example_desc)\<rparr>"
  have acc: "accepts_device ?c entry"
    by (simp add: accepts_device_def entry_def received_device_def worker_device_def example_coordinator_simps
        initial_state_def device_def um_find_def device_count_def default_limits_def is_nil_def gen_valid_def)
  have "r = ok () \<and> device (co_registry c') (Ident 100) = Some entry"
    using published_device_registered [OF _ _ pub cast _ _ step _ _ entry_def, of "[]"] ne acc
    by (simp add: new_client_def new_connection_def worker_device_def)
  then show ?thesis using pub step by (auto simp: entry_def example_desc_def)
qed

section \<open>What a worker is told about routes\<close>

lemma named_outcomes_castable:
  "route_decision_outcome_canon (route_outcome q)" "route_decision_outcome_canon RD_NO_ROUTE"
  "route_decision_outcome_canon (no_candidate_outcome c)"
  by (cases q) (simp_all add: no_candidate_outcome_def route_decision_outcome_canon_def route_decision_outcome_of_u8_def)

lemma decide_in_view_castable:
  "route_decision_outcome_canon (rd_outcome (decide_in_view lms view obs policy d))"
  by (auto simp: decide_in_view_def select_route_def Let_def named_outcomes_castable split: option.splits list.splits)

definition told :: "route_decision \<Rightarrow> route_decision" where
  \<comment> \<open>what is left of a decision in the reply\<close>
  "told d = default_route_decision\<lparr>rd_outcome := rd_outcome d,
     rd_selected := (if rd_selected d = Some (Ident 0) then None else rd_selected d),
     rd_explanation := take 65535 (rd_explanation d)\<rparr>"

lemma decodes_route_reply:
  assumes "route_decision_outcome_canon (rd_outcome d)"
  shows "decodes read_route_reply (told d) (route_reply (ok d))"
  unfolding read_route_reply_def route_reply_def sum.case told_def
  by (rule decodes_last decodes_bind payload_decodes | simp add: enum_simps assms ident.expand split: option.splits)+

lemma route_request_step:
  assumes "cn_phase cn = Serving desc" "flowing (cn_in cn)" "concat (cn_in cn) = encoded ROUTE (route_request src tgt) @ later"
    "conn_step c cn = (c1, cn1)" "start_decision src tgt (pol_id default_policy) (co_world c) = (d0, w1)"
    "Registry.consistent_view (co_registry c) w1 = (view, w2)"
  shows "cn_phase cn1 = Routing desc view d0 \<and> cn_accept cn1 = cn_accept cn \<and> cn_out cn1 = cn_out cn"
proof -
  have "length (route_request src tgt) + 14 \<le> kMax" by (simp add: payload_bounds kMax_def)
  then show ?thesis
    using serve_encoded [OF assms(1-3), of c] assms(4-6)
    by (auto simp: on_frame_def on_route_def read_payload_decodes [OF decodes_route_request])
qed

lemma route_step_replies:
  assumes "cn_phase cn = Routing desc view d" "\<forall>n. 0 < cn_accept cn n" "conn_step c cn = (c', cn')"
    and dec: "dec = decide_in_view (co_limits c) view (observations (co_registry c)) default_policy d"
  shows "c' = c" "cn_phase cn' = Serving desc"
    "out_bytes (cn_out cn') = out_bytes (cn_out cn) @ encoded ROUTE (route_reply (ok dec))"
proof -
  have "length (route_reply (ok dec)) + 14 \<le> kMax" using payload_bounds(6) [of "ok dec"] by (simp add: kMax_def)
  from send_frame_encoded [OF this assms(2), of ROUTE "cn_out cn"]
  obtain k where "send_on \<lparr>f_type = ROUTE, f_payload = route_reply (ok dec)\<rparr> cn =
      (True, cn\<lparr>cn_out := (cn_out cn)\<lparr>out_bytes := out_bytes (cn_out cn) @ encoded ROUTE (route_reply (ok dec)), out_calls := k\<rparr>\<rparr>)"
    by (auto simp: send_on_def)
  then show "c' = c" "cn_phase cn' = Serving desc"
    "out_bytes (cn_out cn') = out_bytes (cn_out cn) @ encoded ROUTE (route_reply (ok dec))"
    using assms(1,3) dec by (auto simp: conn_step.simps step_route_def)
qed

lemma request_route_runs:
  assumes "wc_sock wc \<noteq> 0" "\<forall>n. 0 < wc_accept wc n" "request_route src tgt wc = (r, wc')"
  shows "out_bytes (wc_out wc') = out_bytes (wc_out wc) @ encoded ROUTE (route_request src tgt)"
    "recv_frame kMax (wc_in wc) = (ok \<lparr>f_type = ROUTE, f_payload = p\<rparr>, segs) \<Longrightarrow>
      r = ok (fst (read_payload_of read_route_reply p))"
proof -
  have "length (route_request src tgt) + 14 \<le> kMax" by (simp add: payload_bounds kMax_def)
  from send_frame_encoded [OF this assms(2), of ROUTE "wc_out wc"]
  obtain k where "send_frame (wc_accept wc) \<lparr>f_type = ROUTE, f_payload = route_request src tgt\<rparr> kMax (wc_out wc) =
      (True, (wc_out wc)\<lparr>out_bytes := out_bytes (wc_out wc) @ encoded ROUTE (route_request src tgt), out_calls := k\<rparr>)" by blast
  then show "out_bytes (wc_out wc') = out_bytes (wc_out wc) @ encoded ROUTE (route_request src tgt)"
    "recv_frame kMax (wc_in wc) = (ok \<lparr>f_type = ROUTE, f_payload = p\<rparr>, segs) \<Longrightarrow>
      r = ok (fst (read_payload_of read_route_reply p))"
    using assms(1,3) by (auto simp: request_route_def client_send_def client_recv_def split: prod.splits sum.splits if_splits)
qed

text \<open>
  C30: a route request is answered with the coordinator's decision. When the network delivers
  request and reply, the client gets the outcome, the selected path and the explanation of
  \<open>decide_route\<close> under the default policy, taken on the registry the coordinator had at the two
  points where the handler read it (other threads may have changed it in between).
\<close>

theorem route_request_answered:
  assumes client: "wc_sock wc \<noteq> 0" "\<forall>n. 0 < wc_accept wc n" "request_route src tgt wc = (r, wc')"
    and server: "cn_phase cn = Serving desc" "flowing (cn_in cn)" "\<forall>n. 0 < cn_accept cn n"
      "conn_step c cn = (c1, cn1)" "co_limits c2 = co_limits c" "conn_step c2 cn1 = (c3, cn3)"
    and network: "out_bytes (wc_out wc) @ concat (cn_in cn) = out_bytes (wc_out wc') @ later"
      "flowing (wc_in wc)" "out_bytes (cn_out cn) @ concat (wc_in wc) = out_bytes (cn_out cn3) @ rest"
  shows "\<exists>d w'. decide_route (co_limits c) (co_registry c) (co_registry c2) src tgt default_policy (co_world c) = (ok d, w')
    \<and> r = ok (told d) \<and> cn_phase cn3 = Serving desc \<and> co_registry c3 = co_registry c2"
proof -
  note req = request_route_runs [OF client]
  have input: "concat (cn_in cn) = encoded ROUTE (route_request src tgt) @ later" using network(1) req(1) by simp
  obtain d0 w1 view w2 where start: "start_decision src tgt (pol_id default_policy) (co_world c) = (d0, w1)"
    "Registry.consistent_view (co_registry c) w1 = (view, w2)" by (metis prod.collapse)
  note cn1 = route_request_step [OF server(1,2) input server(4) start]
  define d where "d = decide_in_view (co_limits c) view (observations (co_registry c2)) default_policy d0"
  have step: "c3 = c2" "cn_phase cn3 = Serving desc"
    "out_bytes (cn_out cn3) = out_bytes (cn_out cn) @ encoded ROUTE (route_reply (ok d))"
    using route_step_replies [OF _ _ server(6)] server(3,5) cn1 by (auto simp: d_def)
  have "concat (wc_in wc) = encoded ROUTE (route_reply (ok d)) @ rest" using network(3) step(3) by simp
  moreover have "length (route_reply (ok d)) + 14 \<le> kMax" using payload_bounds(6) [of "ok d"] by (simp add: kMax_def)
  ultimately obtain segs' where "recv_frame kMax (wc_in wc) = (ok \<lparr>f_type = ROUTE, f_payload = route_reply (ok d)\<rparr>, segs')"
    using recv_encoded [OF network(2)] by blast
  then have "r = ok (told d)"
    using req(2) read_payload_decodes [OF decodes_route_reply [of d]] decide_in_view_castable by (simp add: d_def)
  moreover have "decide_route (co_limits c) (co_registry c) (co_registry c2) src tgt default_policy (co_world c) = (ok d, w2)"
    by (simp add: decide_route_def start d_def)
  ultimately show ?thesis using step by blast
qed

lemma example_no_route:
  assumes "decide_route default_limits initial_state s2 (Ident 1) (Ident 2) default_policy w = (ok d, w')"
  shows "rd_outcome d = RD_NO_ROUTE"
  using assms
  by (auto simp: decide_route_def decide_in_view_def Registry.consistent_view_def build_snapshot_def initial_state_def
      find_device_def um_values_def split: prod.splits)

theorem route_request_answered_witness:
  "\<exists>wc wc' d. request_route (Ident 1) (Ident 2) wc = (ok d, wc') \<and> rd_outcome d = RD_NO_ROUTE"
proof -
  let ?req = "route_request (Ident 1) (Ident 2)"
  let ?cn = "(new_connection [encoded ROUTE ?req] (\<lambda>_. 1))\<lparr>cn_phase := Serving example_desc\<rparr>"
  obtain c1 cn1 where s1: "conn_step example_coordinator ?cn = (c1, cn1)" by force
  obtain c3 cn3 where s3: "conn_step example_coordinator cn1 = (c3, cn3)" by force
  obtain d0 w1 view w2 where "start_decision (Ident 1) (Ident 2) (pol_id default_policy) (co_world example_coordinator) = (d0, w1)"
    "Registry.consistent_view (co_registry example_coordinator) w1 = (view, w2)" by (metis prod.collapse)
  from route_request_step [OF _ _ _ s1 this, of example_desc "[]"]
  have "cn_phase cn1 = Routing example_desc view d0" "\<forall>n. 0 < cn_accept cn1 n" by (simp_all add: new_connection_def)
  from route_step_replies(3) [OF this s3 refl] have ne: "out_bytes (cn_out cn3) \<noteq> []" by simp
  let ?wc = "(new_client 1)\<lparr>wc_sock := 7, wc_accept := \<lambda>_. 2, wc_in := [out_bytes (cn_out cn3)]\<rparr>"
  obtain r wc' where rq: "request_route (Ident 1) (Ident 2) ?wc = (r, wc')" by force
  have sent: "out_bytes (wc_out wc') = encoded ROUTE ?req"
    using request_route_runs(1) [OF _ _ rq] by (simp add: new_client_def)
  obtain d w' where "decide_route default_limits initial_state initial_state (Ident 1) (Ident 2) default_policy
      (co_world example_coordinator) = (ok d, w')" "r = ok (told d)"
    using route_request_answered [OF _ _ rq _ _ _ s1 refl s3, of example_desc "[]" "[]"] ne sent
    by (auto simp: new_client_def new_connection_def example_coordinator_simps)
  then show ?thesis using rq example_no_route by (fastforce simp: told_def)
qed

end
