(* ===== verification/Backends.thy ===== *)
theory Backends
  imports Registry_Properties Text_Format
begin

text \<open>
  The vendor-neutral backend interface (\<open>backend.hpp\<close>) and its implementations: the synthetic
  fixture (\<open>src/backend/synthetic_backend.cpp\<close>), the no-op backend (\<open>nop_backend.cpp\<close>) and the
  NVIDIA backend (\<open>nvidia_backend.cpp\<close>), whose CUDA and NVML calls are the parameter \<open>nvidia_env\<close>.
  The locale \<open>backend\<close> is the contract of the header: what a backend returns carries the evidence
  class it announces, and a backend without measurement says so. The theorem: a synthetic
  topology that is well formed and within the limits is loaded completely.
\<close>

section \<open>The interface\<close>

record backend_capabilities =
  bc_backend_name :: string
  bc_device_discovery :: bool
  bc_link_discovery :: bool
  bc_measurement :: bool
  bc_nvlink_discovery :: bool
  bc_measurement_support :: measurement_support
  bc_evidence :: evidence
  bc_note :: string

record measurement_request =
  mr_source :: device_id
  mr_target :: device_id
  mr_payload_bytes :: u64
  mr_iterations :: u32
  mr_warmup_iterations :: u32
  mr_verify_integrity :: bool

section \<open>The synthetic backend\<close>

record synthetic_device_spec =
  sd_id :: device_id
  sd_name :: string
  sd_kind :: node_kind
  sd_generation :: string
  sd_nominal_bandwidth_bps :: u64
  sd_link_count :: u32
  sd_peer_access_supported :: bool

record synthetic_link_spec =
  sl_source :: device_id
  sl_target :: device_id
  sl_directed :: bool
  sl_state :: link_operational_state
  sl_nominal_bandwidth_bps :: u64
  sl_lane_width :: u32
  sl_physical_identifier :: string
  sl_degraded :: bool
  sl_degradation_note :: string

record synthetic_topology_spec =
  sp_devices :: "synthetic_device_spec list"
  sp_links :: "synthetic_link_spec list"
  sp_synth_bandwidth_bps :: f64
  sp_synth_latency_seconds :: f64

definition synthetic_evidence :: "string \<Rightarrow> evidence" where
  "synthetic_evidence msg = Evidence EV_SYNTHETIC PROV_SYNTHETIC_FIXTURE ''synthetic'' msg"

definition synthetic_capabilities :: backend_capabilities where
  "synthetic_capabilities = \<lparr>bc_backend_name = ''synthetic'', bc_device_discovery = True, bc_link_discovery = True,
     bc_measurement = True, bc_nvlink_discovery = False, bc_measurement_support = MS_SYNTHETIC_ONLY,
     bc_evidence = synthetic_evidence ''synthetic fixture backend'',
     bc_note = ''synthetic fixture backend; never represents real hardware''\<rparr>"

definition synthetic_device :: "synthetic_device_spec \<Rightarrow> world \<Rightarrow> device_record \<times> world" where
  "synthetic_device d w =
     (let (i, w) = (if is_nil (sd_id d) then fresh_id DeviceTag w else (sd_id d, w));
          (g, w) = fresh_generation DeviceGenerationTag w
      in (default_device\<lparr>dev_id := i, dev_logical_name := sd_name d, dev_kind := sd_kind d,
            dev_backend := ''synthetic'', dev_backend_instance := sd_name d, dev_vendor := ''synthetic'',
            dev_architecture := ''synthetic'', dev_device_generation := sd_generation d,
            dev_capability := default_capability\<lparr>cap_interconnect := IT_NVLINK,
              cap_nominal_bandwidth_bps := sd_nominal_bandwidth_bps d, cap_link_count := sd_link_count d,
              cap_peer_access_supported := sd_peer_access_supported d,
              cap_measurement_support := MS_SYNTHETIC_ONLY\<rparr>,
            dev_health := DH_PRESENT, dev_evidence := synthetic_evidence ''synthetic fixture device'',
            dev_generation := g\<rparr>, w))"

definition synthetic_link :: "synthetic_link_spec \<Rightarrow> world \<Rightarrow> link_record \<times> world" where
  "synthetic_link l w =
     (let (i, w) = fresh_id LinkTag w;
          (g, w) = fresh_generation LinkGenerationTag w;
          (now, w) = now_timestamp w
      in (default_link\<lparr>lk_id := i, lk_source := sl_source l, lk_target := sl_target l, lk_directed := sl_directed l,
            lk_physical_identifier := sl_physical_identifier l, lk_state := sl_state l,
            lk_technology := IT_NVLINK,
            lk_capability := default_capability\<lparr>cap_nominal_bandwidth_bps := sl_nominal_bandwidth_bps l,
              cap_nominal_lane_width := sl_lane_width l, cap_measurement_support := MS_SYNTHETIC_ONLY\<rparr>,
            lk_generation := g, lk_evidence := synthetic_evidence ''synthetic fixture link'',
            lk_last_observation := now, lk_measurement_supported := True, lk_degraded := sl_degraded l,
            lk_degradation_note := sl_degradation_note l\<rparr>, w))"

fun make_all :: "('a \<Rightarrow> world \<Rightarrow> 'b \<times> world) \<Rightarrow> 'a list \<Rightarrow> world \<Rightarrow> 'b list \<times> world" where
  \<comment> \<open>the loops that push one record per entry of the specification\<close>
  "make_all f [] w = ([], w)"
| "make_all f (x # xs) w = (let (y, w) = f x w; (ys, w) = make_all f xs w in (y # ys, w))"

definition synthetic_discover_devices ::
  "synthetic_topology_spec \<Rightarrow> world \<Rightarrow> device_record list result \<times> world" where
  "synthetic_discover_devices spec w = (let (ds, w) = make_all synthetic_device (sp_devices spec) w in (ok ds, w))"

definition synthetic_discover_links ::
  "synthetic_topology_spec \<Rightarrow> device_record list \<Rightarrow> world \<Rightarrow> link_record list result \<times> world" where
  "synthetic_discover_links spec devs w = (let (ls, w) = make_all synthetic_link (sp_links spec) w in (ok ls, w))"

definition default_bandwidth :: "synthetic_topology_spec \<Rightarrow> measurement_request \<Rightarrow> f64" where
  "default_bandwidth spec req =
     (case find (\<lambda>l. sl_nominal_bandwidth_bps l > 0 \<and>
          (sl_source l = mr_source req \<and> sl_target l = mr_target req \<or>
           \<not> sl_directed l \<and> sl_source l = mr_target req \<and> sl_target l = mr_source req)) (sp_links spec) of
        Some l \<Rightarrow> f64_of_u64 (sl_nominal_bandwidth_bps l)
      | None \<Rightarrow> F64 100000000000)"

definition synthetic_measure ::
  "synthetic_topology_spec \<Rightarrow> measurement_request \<Rightarrow> world \<Rightarrow> measurement_record result \<times> world" where
  "synthetic_measure spec req w =
     (let (i, w) = fresh_id MeasurementTag w;
          (now, w) = now_timestamp w
      in (ok (default_measurement\<lparr>m_id := i, m_source := mr_source req, m_target := mr_target req,
            m_payload_bytes := mr_payload_bytes req, m_iterations := mr_iterations req,
            m_warmup_iterations := mr_warmup_iterations req,
            m_completed_transfers := ucast (mr_iterations req),
            m_warmup_separated := (mr_warmup_iterations req > 0),
            m_integrity_verified := mr_verify_integrity req, m_method := ''synthetic'',
            m_bandwidth_bps := (if f64_lt (F64 0) (sp_synth_bandwidth_bps spec) then sp_synth_bandwidth_bps spec
              else default_bandwidth spec req),
            m_latency_seconds := sp_synth_latency_seconds spec,
            m_bytes_verified := mr_payload_bytes req * ucast (mr_iterations req),
            m_evidence := synthetic_evidence ''synthetic measurement; not evidence of real NVLink'',
            m_measured_at := now, m_valid := True\<rparr>), w))"

section \<open>The no-op backend\<close>

definition nop_capabilities :: backend_capabilities where
  "nop_capabilities = \<lparr>bc_backend_name = ''nop'', bc_device_discovery = False, bc_link_discovery = False,
     bc_measurement = False, bc_nvlink_discovery = False, bc_measurement_support = MS_UNSUPPORTED,
     bc_evidence = Evidence EV_UNSUPPORTED PROV_NONE ''nop'' ''no-op backend exposes no connectivity'',
     bc_note = ''portability no-op backend''\<rparr>"

definition nop_discover_devices :: "world \<Rightarrow> device_record list result \<times> world" where
  "nop_discover_devices w = (ok [], w)"

definition nop_discover_links :: "device_record list \<Rightarrow> world \<Rightarrow> link_record list result \<times> world" where
  "nop_discover_links devs w = (ok [], w)"

definition nop_measure :: "measurement_request \<Rightarrow> world \<Rightarrow> measurement_record result \<times> world" where
  "nop_measure req w = (fail EC_UNSUPPORTED ''no-op backend has no measurement'', w)"

section \<open>The NVIDIA backend\<close>

record cuda_prop =
  cp_name :: string
  cp_major :: nat
  cp_minor :: nat
  cp_pci_bus_id :: nat
  cp_pci_device_id :: nat

record nvidia_env =
  \<comment> \<open>what CUDA and NVML answer\<close>
  nv_device_count :: "string + nat" \<comment> \<open>\<open>cudaGetDeviceCount\<close>: the error name or the count\<close>
  nv_properties :: "nat \<Rightarrow> cuda_prop option"
  nv_windows :: bool \<comment> \<open>the NVML loader is compiled for Windows only\<close>
  nv_nvml_module :: bool
  nv_nvml_symbol :: "string \<Rightarrow> bool"
  nv_nvml_init :: bool
  nv_nvml_handle :: "nat \<Rightarrow> bool"
  nv_nvml_pci :: "nat \<Rightarrow> (nat \<times> nat \<times> nat) option" \<comment> \<open>domain, bus, device\<close>
  nv_nvml_count :: "nat option"
  nv_nvml_links :: "nat \<Rightarrow> nat option"

definition nvml_symbol :: "nvidia_env \<Rightarrow> string \<Rightarrow> bool" where
  \<comment> \<open>whether the function pointer is set after \<open>NvmlApi::load\<close>\<close>
  "nvml_symbol env name \<longleftrightarrow> nv_windows env \<and> nv_nvml_module env \<and> nv_nvml_symbol env name"

definition nvml_loaded :: "nvidia_env \<Rightarrow> bool" where
  "nvml_loaded env \<longleftrightarrow> nvml_symbol env ''nvmlInit_v2'' \<and> nvml_symbol env ''nvmlShutdown'' \<and>
     nvml_symbol env ''nvmlDeviceGetCount_v2'' \<and> nvml_symbol env ''nvmlDeviceGetHandleByIndex_v2''"

definition ensure_nvml :: "nvidia_env \<Rightarrow> bool \<Rightarrow> bool \<times> bool" where
  \<comment> \<open>result and \<open>g_nvml_inited\<close>\<close>
  "ensure_nvml env inited =
     (if \<not> nvml_loaded env then (False, inited)
      else if inited then (True, True)
      else if \<not> nv_nvml_init env then (False, False) else (True, True))"

definition shutdown_nvml :: "nvidia_env \<Rightarrow> bool \<Rightarrow> bool" where
  \<comment> \<open>\<open>g_nvml_inited\<close> afterwards\<close>
  "shutdown_nvml env inited = (if inited \<and> nvml_symbol env ''nvmlShutdown'' then False else inited)"

definition arch_name :: "nat \<Rightarrow> string" where
  "arch_name major =
     (if major \<ge> 12 then ''Blackwell'' else if major \<ge> 9 then ''Hopper'' else if major \<ge> 8 then ''Ampere''
      else if major \<ge> 7 then ''Volta'' else if major \<ge> 6 then ''Pascal'' else if major \<ge> 5 then ''Maxwell''
      else ''Other'')"

definition cuda_pci_identity :: "nvidia_env \<Rightarrow> cuda_prop \<Rightarrow> nat \<Rightarrow> bool \<Rightarrow> string \<times> bool" where
  "cuda_pci_identity env prop ordinal inited =
     (let (have_nvml, inited) = ensure_nvml env inited;
          fallback = hex_pad 2 (cp_pci_bus_id prop) @ '':'' @ hex_pad 2 (cp_pci_device_id prop)
      in (if have_nvml \<and> nv_nvml_handle env ordinal
          then (case if nvml_symbol env ''nvmlDeviceGetPciInfo_v2'' then nv_nvml_pci env ordinal else None of
                  Some (domn, bus, dev) \<Rightarrow> hex_pad 4 domn @ '':'' @ hex_pad 2 bus @ '':'' @ hex_pad 2 dev
                | None \<Rightarrow> fallback)
          else fallback, inited))"

definition nvidia_device :: "nvidia_env \<Rightarrow> nat \<Rightarrow> cuda_prop \<Rightarrow> bool \<Rightarrow> world \<Rightarrow> device_record \<times> bool \<times> world" where
  "nvidia_device env i prop inited w =
     (let (di, w) = fresh_id DeviceTag w;
          (pci, inited) = cuda_pci_identity env prop i inited;
          (g, w) = fresh_generation DeviceGenerationTag w
      in (default_device\<lparr>dev_id := di, dev_logical_name := cp_name prop, dev_kind := NK_ACCELERATOR,
            dev_backend := ''nvidia'', dev_backend_instance := ''cuda:'' @ nat_to_string i,
            dev_cuda_ordinal := Some (word_of_nat i), dev_vendor := ''NVIDIA'',
            dev_architecture := arch_name (cp_major prop),
            dev_device_generation := nat_to_string (cp_major prop) @ ''.'' @ nat_to_string (cp_minor prop),
            dev_pci_identity := pci,
            dev_capability := default_capability\<lparr>cap_interconnect := IT_UNKNOWN, cap_measurement_support := MS_UNKNOWN\<rparr>,
            dev_health := DH_PRESENT,
            dev_evidence := Evidence EV_REAL (PROV_CUDA_RUNTIME OR PROV_CUDA_DRIVER) ''nvidia'' ''CUDA device discovery'',
            dev_generation := g\<rparr>, inited, w))"

fun nvidia_devices :: "nvidia_env \<Rightarrow> nat list \<Rightarrow> bool \<Rightarrow> world \<Rightarrow> device_record list result \<times> bool \<times> world" where
  "nvidia_devices env [] inited w = (ok [], inited, w)"
| "nvidia_devices env (i # is) inited w =
     (case nv_properties env i of
        None \<Rightarrow> (fail EC_BACKEND_ERROR ''cudaGetDeviceProperties failed'', inited, w)
      | Some prop \<Rightarrow>
          let (d, inited, w) = nvidia_device env i prop inited w;
              (ds, inited, w) = nvidia_devices env is inited w
          in (case ds of Inl e \<Rightarrow> Inl e | Inr ds \<Rightarrow> ok (d # ds), inited, w))"

definition nvidia_discover_devices :: "nvidia_env \<Rightarrow> bool \<Rightarrow> world \<Rightarrow> device_record list result \<times> bool \<times> world" where
  "nvidia_discover_devices env inited w =
     (case nv_device_count env of
        Inl e \<Rightarrow> (fail EC_BACKEND_UNAVAILABLE (''CUDA runtime unavailable: '' @ e), inited, w)
      | Inr n \<Rightarrow> nvidia_devices env [0..<n] inited w)"

definition nvidia_total_links :: "nvidia_env \<Rightarrow> nat \<Rightarrow> nat" where
  \<comment> \<open>counted and then not used\<close>
  "nvidia_total_links env n =
     sum_list (map (\<lambda>i. if nv_nvml_handle env i \<and> nvml_symbol env ''nvmlDeviceGetNvLinkCount''
       then (case nv_nvml_links env i of Some k \<Rightarrow> k | None \<Rightarrow> 0) else 0) [0..<n])"

definition nvidia_discover_links :: "nvidia_env \<Rightarrow> bool \<Rightarrow> link_record list result \<times> bool" where
  "nvidia_discover_links env inited =
     (let (have_nvml, inited) = ensure_nvml env inited
      in if \<not> have_nvml then (ok [], inited)
      else case nv_nvml_count env of
        None \<Rightarrow> (ok [], inited)
      | Some n \<Rightarrow> let total_links = nvidia_total_links env n in (ok [], inited))"

definition nvidia_capabilities :: backend_capabilities where
  "nvidia_capabilities = \<lparr>bc_backend_name = ''nvidia'', bc_device_discovery = True, bc_link_discovery = True,
     bc_measurement = False, bc_nvlink_discovery = True, bc_measurement_support = MS_UNSUPPORTED,
     bc_evidence = Evidence EV_REAL (PROV_NVML OR PROV_CUDA_RUNTIME) ''nvidia'' ''NVIDIA/CUDA/NVML backend'',
     bc_note = ''NVLink connectivity depends on installed hardware; consumer GPUs report none''\<rparr>"

definition nvidia_measure :: "measurement_request \<Rightarrow> world \<Rightarrow> measurement_record result \<times> world" where
  "nvidia_measure req w = (fail EC_UNSUPPORTED
     (''no supported peer-access NVLink path on installed hardware; '' @
      ''measurement requires at least two real NVLink-connected devices''), w)"

definition make_nvidia_backend :: "nvidia_env \<Rightarrow> unit result" where
  "make_nvidia_backend env =
     (case nv_device_count env of
        Inl e \<Rightarrow> fail EC_BACKEND_UNAVAILABLE ''CUDA runtime unavailable'' | Inr n \<Rightarrow> ok ())"

section \<open>Loading what a backend discovered\<close>

fun load_devices :: "limits \<Rightarrow> device_record list \<Rightarrow> world \<Rightarrow> state \<Rightarrow> world \<times> state" where
  "load_devices lms [] w s = (w, s)"
| "load_devices lms (d # ds) w s = (let (_, w, s) = upsert_device lms d w s in load_devices lms ds w s)"

fun load_links :: "limits \<Rightarrow> link_record list \<Rightarrow> world \<Rightarrow> state \<Rightarrow> world \<times> state" where
  "load_links lms [] w s = (w, s)"
| "load_links lms (l # ls) w s = (let (_, w, s) = upsert_link lms l w s in load_links lms ls w s)"

definition load_synthetic :: "limits \<Rightarrow> synthetic_topology_spec \<Rightarrow> world \<Rightarrow> (world \<times> state) option" where
  \<comment> \<open>\<open>None\<close>: \<open>Result::value\<close> throws\<close>
  "load_synthetic lms spec w =
     (case synthetic_discover_devices spec w of
        (Inl _, _) \<Rightarrow> None
      | (Inr devs, w) \<Rightarrow>
          (case synthetic_discover_links spec devs w of
             (Inl _, _) \<Rightarrow> None
           | (Inr lks, w) \<Rightarrow> (let (w, s) = load_devices lms devs w initial_state in Some (load_links lms lks w s))))"

definition inspect_spec :: synthetic_topology_spec where
  \<comment> \<open>the topology \<open>nvlink_fabric_inspect\<close> shows for \<open>--backend synthetic\<close>\<close>
  "inspect_spec =
     (let d0 = Ident 1000; d1 = Ident 1001; d2 = Ident 1002; sw = Ident 2000;
          gpu = (\<lambda>i n. \<lparr>sd_id = i, sd_name = n, sd_kind = NK_ACCELERATOR, sd_generation = ''SYNTHETIC'',
            sd_nominal_bandwidth_bps = 400000000000, sd_link_count = 1, sd_peer_access_supported = True\<rparr>);
          up = (\<lambda>a b n. \<lparr>sl_source = a, sl_target = b, sl_directed = False, sl_state = LS_UP,
            sl_nominal_bandwidth_bps = 400000000000, sl_lane_width = 8, sl_physical_identifier = n,
            sl_degraded = False, sl_degradation_note = []\<rparr>)
      in \<lparr>sp_devices = [gpu d0 ''gpu0'', gpu d1 ''gpu1'', gpu d2 ''gpu2'',
            \<lparr>sd_id = sw, sd_name = ''switch0'', sd_kind = NK_SWITCH, sd_generation = ''SYNTHETIC'',
             sd_nominal_bandwidth_bps = 800000000000, sd_link_count = 2, sd_peer_access_supported = True\<rparr>],
          sp_links = [up d0 d1 ''NVLink 0'', up d0 sw ''NVLink 1'', up sw d2 ''NVLink 2'',
            \<lparr>sl_source = d1, sl_target = d2, sl_directed = False, sl_state = LS_DEGRADED,
             sl_nominal_bandwidth_bps = 200000000000, sl_lane_width = 8, sl_physical_identifier = ''NVLink 3'',
             sl_degraded = True, sl_degradation_note = ''degraded link''\<rparr>],
          sp_synth_bandwidth_bps = F64 0, sp_synth_latency_seconds = F64 0\<rparr>)"

section \<open>The contract\<close>

locale backend =
  fixes capabilities :: backend_capabilities
    and discover_devices :: "world \<Rightarrow> device_record list result \<times> world"
    and discover_links :: "device_record list \<Rightarrow> world \<Rightarrow> link_record list result \<times> world"
    and measure :: "measurement_request \<Rightarrow> world \<Rightarrow> measurement_record result \<times> world"
    and supports_measurement :: bool
  assumes devices_class: "discover_devices w = (ok ds, w') \<Longrightarrow> d \<in> set ds \<Longrightarrow>
      ev_class (dev_evidence d) = ev_class (bc_evidence capabilities)"
    and links_class: "discover_links ds w = (ok ls, w') \<Longrightarrow> l \<in> set ls \<Longrightarrow>
      ev_class (lk_evidence l) = ev_class (bc_evidence capabilities)"
    and measure_class: "measure req w = (ok m, w') \<Longrightarrow>
      supports_measurement \<and> ev_class (m_evidence m) = ev_class (bc_evidence capabilities)"
    and no_measurement: "\<not> supports_measurement \<Longrightarrow> measure req w = (r, w') \<Longrightarrow> \<exists>e. r = Inl e \<and> err_code e = EC_UNSUPPORTED"
begin

text \<open>Loading only adds devices of the announced class.\<close>

lemma loaded_class:
  assumes "um.all_entries (\<lambda>_ d. ev_class (dev_evidence d) = ev_class (bc_evidence capabilities)) (devices s)"
    and "set ds \<subseteq> set found" "discover_devices w0 = (ok found, w1)" "load_devices lms ds w s = (w', s')"
  shows "um.all_entries (\<lambda>_ d. ev_class (dev_evidence d) = ev_class (bc_evidence capabilities)) (devices s')"
  using assms(1,2,4)
proof (induction ds arbitrary: w s)
  case (Cons d ds)
  obtain r w2 s2 where up: "upsert_device lms d w s = (r, w2, s2)" by (metis prod_cases3)
  have "ev_class (dev_evidence d) = ev_class (bc_evidence capabilities)"
    using devices_class [OF assms(3)] Cons.prems(2) by simp
  then show ?case
    using Cons.IH [of s2 w2] all_devices_upsert [OF up Cons.prems(1)] Cons.prems(2,3) up by simp
qed simp

end

lemma make_all_props: "make_all f xs w = (ys, w') \<Longrightarrow> (\<And>x w y w'. x \<in> set xs \<Longrightarrow> f x w = (y, w') \<Longrightarrow> P y) \<Longrightarrow> y \<in> set ys \<Longrightarrow> P y"
proof (induction xs arbitrary: w ys)
  case (Cons x xs)
  obtain y1 w1 where "f x w = (y1, w1)" by force
  with Cons show ?case by (fastforce split: prod.splits)
qed simp

interpretation syn: backend synthetic_capabilities "synthetic_discover_devices spec" "synthetic_discover_links spec"
  "synthetic_measure spec" True for spec
proof unfold_locales
  fix w ds w' d assume "synthetic_discover_devices spec w = (ok ds, w')" "d \<in> set ds"
  then show "ev_class (dev_evidence d) = ev_class (bc_evidence synthetic_capabilities)"
    by (auto simp: synthetic_discover_devices_def synthetic_capabilities_def split: prod.splits
        elim!: make_all_props) (auto simp: synthetic_device_def synthetic_evidence_def Evidence_def split: prod.splits)
next
  fix devs w ls w' l assume "synthetic_discover_links spec devs w = (ok ls, w')" "l \<in> set ls"
  then show "ev_class (lk_evidence l) = ev_class (bc_evidence synthetic_capabilities)"
    by (auto simp: synthetic_discover_links_def synthetic_capabilities_def split: prod.splits
        elim!: make_all_props) (auto simp: synthetic_link_def synthetic_evidence_def Evidence_def split: prod.splits)
qed (auto simp: synthetic_measure_def synthetic_capabilities_def synthetic_evidence_def Evidence_def split: prod.splits)

interpretation nop: backend nop_capabilities nop_discover_devices nop_discover_links nop_measure False
  by unfold_locales (auto simp: nop_discover_devices_def nop_discover_links_def nop_measure_def fail_def make_error_def)

lemma nvidia_devices_class:
  "nvidia_devices env is inited w = (ok ds, inited', w') \<Longrightarrow> d \<in> set ds \<Longrightarrow> ev_class (dev_evidence d) = EV_REAL"
proof (induction "is" arbitrary: inited w ds)
  case (Cons i "is")
  then show ?case
    by (auto simp: nvidia_device_def Evidence_def fail_def Let_def split: option.splits prod.splits sum.splits)
qed simp

interpretation nvb: backend nvidia_capabilities
  "\<lambda>w. let (r, _, w) = nvidia_discover_devices env inited w in (r, w)"
  "\<lambda>_ w. (fst (nvidia_discover_links env inited), w)" nvidia_measure False for env inited
proof unfold_locales
  fix w ds w' d
  assume "(let (r, _, w) = nvidia_discover_devices env inited w in (r, w)) = (ok ds, w')" "d \<in> set ds"
  then show "ev_class (dev_evidence d) = ev_class (bc_evidence nvidia_capabilities)"
    by (auto simp: nvidia_discover_devices_def nvidia_capabilities_def Evidence_def fail_def
        dest: nvidia_devices_class split: prod.splits sum.splits)
qed (auto simp: nvidia_discover_links_def nvidia_measure_def fail_def make_error_def Let_def
      split: prod.splits if_splits option.splits)

section \<open>A synthetic topology is loaded completely\<close>

lemma upsert_new_device:
  assumes "\<not> is_nil (dev_id d)" "gen_valid (dev_generation d)" "um_find (devices s) (dev_id d) = None"
    "length (devices s) < max_devices lms" "upsert_device lms d w s = (r, w', s')"
  shows "devices s' = devices s @ [(dev_id d, d)] \<and> (links s = [] \<longrightarrow> links s' = [])"
  using assms
  by (auto simp: upsert_device_def commit_device_def um_emplace_def advance_from_def stamp_links_def
      record_observation_def um_transform_def split: prod.splits)

lemma um_find_listed: "um_find (xs @ map (\<lambda>d. (k d, d)) ys) i = None \<longleftrightarrow> um_find xs i = None \<and> i \<notin> k ` set ys"
  by (auto simp: um_find_def map_of_eq_None_iff image_iff)

lemma load_new_devices:
  assumes "load_devices lms ds w s = (w', s')" "distinct (map dev_id ds)"
    "\<forall>d \<in> set ds. \<not> is_nil (dev_id d) \<and> gen_valid (dev_generation d) \<and> um_find (devices s) (dev_id d) = None"
    "length (devices s) + length ds \<le> max_devices lms" "links s = []"
  shows "devices s' = devices s @ map (\<lambda>d. (dev_id d, d)) ds \<and> links s' = []"
  using assms
proof (induction ds arbitrary: w s)
  case (Cons d ds)
  obtain r w1 s1 where up: "upsert_device lms d w s = (r, w1, s1)" by (metis prod_cases3)
  have s1: "devices s1 = devices s @ [(dev_id d, d)]" "links s1 = []"
    using upsert_new_device [OF _ _ _ _ up] Cons.prems by auto
  have "um_find (devices s1) (dev_id x) = None" if "x \<in> set ds" for x
    using um_find_listed [of "devices s" dev_id "[d]"] s1 Cons.prems(2,3) that by (auto simp: image_iff)
  then have "devices s' = devices s1 @ map (\<lambda>d. (dev_id d, d)) ds \<and> links s' = []"
    using Cons.prems s1 up by (intro Cons.IH [of w1 s1]) auto
  then show ?case using s1 by simp
qed simp

definition pair_count :: "link_record \<Rightarrow> link_record list \<Rightarrow> nat" where
  "pair_count l ls = length (filter (\<lambda>k. same_unordered k l) ls)"

lemma pair_count_unstamp: "map unstamp xs = map unstamp ys \<Longrightarrow> pair_count l xs = pair_count l ys"
proof -
  have "pair_count l zs = pair_count l (map unstamp zs)" for zs
    by (simp add: pair_count_def filter_map comp_def same_unordered_def unstamp_def)
  then show "map unstamp xs = map unstamp ys \<Longrightarrow> pair_count l xs = pair_count l ys" by metis
qed

lemma parallel_links_count: "parallel_links s l = pair_count l (map snd (links s))"
  by (simp add: parallel_links_def pair_count_def filter_map comp_def)

lemma upsert_new_link:
  assumes "\<not> is_nil (lk_id l)" "gen_valid (lk_generation l)" "lk_source l \<noteq> lk_target l"
    "um_find (devices s) (lk_source l) \<noteq> None" "um_find (devices s) (lk_target l) \<noteq> None"
    "length (links s) < max_links lms" "parallel_links s l < max_parallel_links_per_pair lms"
    "um_find (links s) (lk_id l) = None" "upsert_link lms l w s = (r, w', s')"
  shows "devices s' = devices s \<and> map (apsnd unstamp) (links s') = map (apsnd unstamp) (links s) @ [(lk_id l, unstamp l)]"
  using assms
  by (auto simp: upsert_link_def commit_link_def um_emplace_def advance_from_def stamp_links_def
      record_observation_def um_transform_def unstamp_def split: prod.splits)

lemma apsnd_links:
  assumes "map (apsnd unstamp) xs = map (apsnd unstamp) ys @ map (\<lambda>l. (lk_id l, unstamp l)) ls"
  shows "length xs = length ys + length ls" "map unstamp (map snd xs) = map unstamp (map snd ys @ ls)"
    "um_find xs i = None \<longleftrightarrow> um_find ys i = None \<and> i \<notin> lk_id ` set ls"
proof -
  show "length xs = length ys + length ls" using arg_cong [OF assms, of length] by simp
  show "map unstamp (map snd xs) = map unstamp (map snd ys @ ls)"
    using arg_cong [OF assms, of "map snd"] by (simp add: comp_def)
  have "map fst xs = map fst ys @ map lk_id ls"
    using arg_cong [OF assms, of "map fst"] by (simp add: comp_def)
  then have "fst ` set xs = fst ` set ys \<union> lk_id ` set ls" by (metis image_Un list.set_map set_append)
  then show "um_find xs i = None \<longleftrightarrow> um_find ys i = None \<and> i \<notin> lk_id ` set ls"
    by (simp add: um_find_def map_of_eq_None_iff)
qed

definition link_loadable :: "state \<Rightarrow> link_record \<Rightarrow> bool" where
  "link_loadable s l \<longleftrightarrow> \<not> is_nil (lk_id l) \<and> gen_valid (lk_generation l) \<and> lk_source l \<noteq> lk_target l \<and>
     um_find (devices s) (lk_source l) \<noteq> None \<and> um_find (devices s) (lk_target l) \<noteq> None \<and>
     um_find (links s) (lk_id l) = None"

lemma load_new_links:
  assumes "load_links lms ls w s = (w', s')" "distinct (map lk_id ls)" "\<forall>l \<in> set ls. link_loadable s l"
    "length (links s) + length ls \<le> max_links lms"
    "\<forall>l \<in> set ls. pair_count l (map snd (links s) @ ls) \<le> max_parallel_links_per_pair lms"
  shows "devices s' = devices s \<and>
    map (apsnd unstamp) (links s') = map (apsnd unstamp) (links s) @ map (\<lambda>l. (lk_id l, unstamp l)) ls"
  using assms
proof (induction ls arbitrary: w s)
  case (Cons l ls)
  obtain r w1 s1 where up: "upsert_link lms l w s = (r, w1, s1)" by (metis prod_cases3)
  have "pair_count l (map snd (links s)) < pair_count l (map snd (links s) @ l # ls)"
    by (simp add: pair_count_def same_unordered_def)
  moreover have "pair_count l (map snd (links s) @ l # ls) \<le> max_parallel_links_per_pair lms"
    using Cons.prems(5) by simp
  ultimately have "parallel_links s l < max_parallel_links_per_pair lms" by (simp add: parallel_links_count)
  then have s1: "devices s1 = devices s" "map (apsnd unstamp) (links s1) = map (apsnd unstamp) (links s) @ map (\<lambda>l. (lk_id l, unstamp l)) [l]"
    using upsert_new_link [OF _ _ _ _ _ _ _ _ up] Cons.prems(3,4) by (auto simp: link_loadable_def)
  note shape = apsnd_links [OF s1(2)]
  have "\<forall>x \<in> set ls. link_loadable s1 x"
    using Cons.prems(2,3) by (auto simp: link_loadable_def s1(1) shape(3) image_iff)
  moreover have "\<forall>x \<in> set ls. pair_count x (map snd (links s1) @ ls) \<le> max_parallel_links_per_pair lms"
    using Cons.prems(5) pair_count_unstamp [of "map snd (links s1) @ ls" "map snd (links s) @ l # ls"] shape(2) by simp
  ultimately have "devices s' = devices s1 \<and>
      map (apsnd unstamp) (links s') = map (apsnd unstamp) (links s1) @ map (\<lambda>l. (lk_id l, unstamp l)) ls"
    using Cons.prems(1,2,4) up shape(1) by (intro Cons.IH [of w1 s1]) auto
  then show ?case using s1 by simp
qed simp

text \<open>A loaded registry is a reachable one.\<close>

lemma load_devices_reachable: "reachable lms w s \<Longrightarrow> load_devices lms ds w s = (w', s') \<Longrightarrow> reachable lms w' s'"
proof (induction ds arbitrary: w s)
  case (Cons d ds)
  obtain r w1 s1 where up: "upsert_device lms d w s = (r, w1, s1)" by (metis prod_cases3)
  then have "reachable lms w1 s1" using reachable.step [OF Cons.prems(1), of "Upsert_Device d"] by simp
  then show ?case using Cons.IH [of w1 s1] Cons.prems(2) up by simp
qed simp

lemma load_links_reachable: "reachable lms w s \<Longrightarrow> load_links lms ls w s = (w', s') \<Longrightarrow> reachable lms w' s'"
proof (induction ls arbitrary: w s)
  case (Cons l ls)
  obtain r w1 s1 where up: "upsert_link lms l w s = (r, w1, s1)" by (metis prod_cases3)
  then have "reachable lms w1 s1" using reachable.step [OF Cons.prems(1), of "Upsert_Link l"] by simp
  then show ?case using Cons.IH [of w1 s1] Cons.prems(2) up by simp
qed simp

lemma load_synthetic_reachable: "load_synthetic lms spec w = Some (w', s) \<Longrightarrow> reachable lms w' s"
  by (auto simp: load_synthetic_def split: prod.splits sum.splits)
    (metis load_links_reachable load_devices_reachable reachable.start)

lemma load_synthetic_total: obtains w' s where "load_synthetic lms spec w = Some (w', s)"
proof -
  have "load_synthetic lms spec w \<noteq> None"
    by (auto simp: load_synthetic_def synthetic_discover_devices_def synthetic_discover_links_def split: prod.splits)
  then show thesis using that by auto
qed

text \<open>What the discovery loops produce.\<close>

lemma unat_succ: "unat (x :: u64) + 1 < 2 ^ 64 \<Longrightarrow> unat (x + 1) = unat x + 1"
  by (simp add: unat_word_ariths)

lemma synthetic_devices_made:
  assumes "make_all synthetic_device xs w = (ds, w')" "\<forall>x \<in> set xs. \<not> is_nil (sd_id x)"
    "unat (generation_counter w DeviceGenerationTag) + length xs < 2 ^ 64"
  shows "map dev_id ds = map sd_id xs \<and> (\<forall>d \<in> set ds. gen_valid (dev_generation d)) \<and>
    id_counter w' = id_counter w \<and>
    generation_counter w' LinkGenerationTag = generation_counter w LinkGenerationTag"
  using assms
proof (induction xs arbitrary: w ds)
  case (Cons x xs)
  let ?g = "generation_counter w DeviceGenerationTag + 1"
  let ?w1 = "w\<lparr>generation_counter := (generation_counter w)(DeviceGenerationTag := ?g)\<rparr>"
  obtain d ds' where ds: "ds = d # ds'" "synthetic_device x w = (d, ?w1)" "make_all synthetic_device xs ?w1 = (ds', w')"
  proof -
    have "\<exists>d. synthetic_device x w = (d, ?w1)"
      using Cons.prems(2) by (simp add: synthetic_device_def fresh_generation_def Let_def)
    then show ?thesis using Cons.prems(1) that by (auto split: prod.splits)
  qed
  have g: "unat ?g = unat (generation_counter w DeviceGenerationTag) + 1" using Cons.prems(3) by (intro unat_succ) simp
  then have "?g \<noteq> 0" by (metis add_eq_0_iff_both_eq_0 one_neq_zero unat_0)
  then have "dev_id d = sd_id x" "gen_valid (dev_generation d)"
    using ds(2) Cons.prems(2) by (auto simp: synthetic_device_def fresh_generation_def Let_def gen_valid_def)
  moreover have "map dev_id ds' = map sd_id xs \<and> (\<forall>d \<in> set ds'. gen_valid (dev_generation d)) \<and>
      id_counter w' = id_counter ?w1 \<and> generation_counter w' LinkGenerationTag = generation_counter ?w1 LinkGenerationTag"
    by (rule Cons.IH [OF ds(3)]) (use Cons.prems(2,3) g in simp_all)
  ultimately show ?case using ds(1) by simp
qed simp

lemma synthetic_links_made:
  assumes "make_all synthetic_link xs w = (ls, w')"
    "unat (generation_counter w LinkGenerationTag) + length xs < 2 ^ 64" "unat (id_counter w LinkTag) + length xs < 2 ^ 64"
  shows "map (\<lambda>l. (lk_source l, lk_target l)) ls = map (\<lambda>x. (sl_source x, sl_target x)) xs \<and>
    (\<forall>l \<in> set ls. gen_valid (lk_generation l) \<and> unat (id_counter w LinkTag) < unat (id_value (lk_id l))) \<and>
    distinct (map lk_id ls)"
  using assms
proof (induction xs arbitrary: w ls)
  case (Cons x xs)
  let ?i = "id_counter w LinkTag + 1" and ?g = "generation_counter w LinkGenerationTag + 1"
  let ?w1 = "w\<lparr>id_counter := (id_counter w)(LinkTag := ?i),
    generation_counter := (generation_counter w)(LinkGenerationTag := ?g), clock_reads := Suc (clock_reads w)\<rparr>"
  obtain l ls' where ls: "ls = l # ls'" "synthetic_link x w = (l, ?w1)" "make_all synthetic_link xs ?w1 = (ls', w')"
  proof -
    have "\<exists>l. synthetic_link x w = (l, ?w1)"
      by (simp add: synthetic_link_def fresh_id_def fresh_generation_def now_timestamp_def Let_def)
    then show ?thesis using Cons.prems(1) that by (auto split: prod.splits)
  qed
  have u: "unat ?i = unat (id_counter w LinkTag) + 1" "unat ?g = unat (generation_counter w LinkGenerationTag) + 1"
    using Cons.prems(2,3) by (intro unat_succ, simp)+
  then have "?g \<noteq> 0" by (metis add_eq_0_iff_both_eq_0 one_neq_zero unat_0)
  then have l: "lk_source l = sl_source x" "lk_target l = sl_target x" "gen_valid (lk_generation l)" "lk_id l = Ident ?i"
    using ls(2) by (auto simp: synthetic_link_def fresh_id_def fresh_generation_def now_timestamp_def Let_def gen_valid_def)
  have IH: "map (\<lambda>l. (lk_source l, lk_target l)) ls' = map (\<lambda>x. (sl_source x, sl_target x)) xs \<and>
      (\<forall>l \<in> set ls'. gen_valid (lk_generation l) \<and> unat (id_counter ?w1 LinkTag) < unat (id_value (lk_id l))) \<and>
      distinct (map lk_id ls')"
    by (rule Cons.IH [OF ls(3)]) (use Cons.prems(2,3) u in simp_all)
  then have above: "unat (id_counter w LinkTag) + 1 < unat (id_value (lk_id k))" if "k \<in> set ls'" for k
    using that u(1) by simp
  then have "lk_id l \<notin> lk_id ` set ls'" using l(4) u(1) by force
  moreover have "unat (id_counter w LinkTag) < unat (id_value (lk_id k))" if "k \<in> set ls" for k
    using that above [of k] ls(1) l(4) u(1) by auto
  ultimately show ?case using IH ls(1) l by auto
qed simp

text \<open>
  The shape of a specification the registry accepts as it is: devices with their own distinct
  identities, links between two of them, and no more of either, or of parallel links, than the
  limits allow.
\<close>

definition spec_pair_count :: "synthetic_link_spec \<Rightarrow> synthetic_link_spec list \<Rightarrow> nat" where
  "spec_pair_count x xs =
     length (filter (\<lambda>y. {sl_source y, sl_target y} = {sl_source x, sl_target x}) xs)"

definition spec_ok :: "limits \<Rightarrow> synthetic_topology_spec \<Rightarrow> bool" where
  "spec_ok lms spec \<longleftrightarrow>
     (\<forall>x \<in> set (sp_devices spec). \<not> is_nil (sd_id x)) \<and> distinct (map sd_id (sp_devices spec)) \<and>
     length (sp_devices spec) \<le> max_devices lms \<and> length (sp_links spec) \<le> max_links lms \<and>
     (\<forall>x \<in> set (sp_links spec). sl_source x \<noteq> sl_target x \<and>
        {sl_source x, sl_target x} \<subseteq> sd_id ` set (sp_devices spec) \<and>
        spec_pair_count x (sp_links spec) \<le> max_parallel_links_per_pair lms)"

definition counters_ok :: "synthetic_topology_spec \<Rightarrow> world \<Rightarrow> bool" where
  \<comment> \<open>the 64-bit counters do not wrap during discovery\<close>
  "counters_ok spec w \<longleftrightarrow>
     unat (generation_counter w DeviceGenerationTag) + length (sp_devices spec) < 2 ^ 64 \<and>
     unat (generation_counter w LinkGenerationTag) + length (sp_links spec) < 2 ^ 64 \<and>
     unat (id_counter w LinkTag) + length (sp_links spec) < 2 ^ 64"

lemma same_unordered_sets: "same_unordered a b \<longleftrightarrow> {lk_source a, lk_target a} = {lk_source b, lk_target b}"
  by (auto simp: same_unordered_def doubleton_eq_iff)

lemma pair_count_spec:
  assumes "map (\<lambda>l. (lk_source l, lk_target l)) ls = map (\<lambda>x. (sl_source x, sl_target x)) xs"
    and "lk_source l = sl_source x" "lk_target l = sl_target x"
  shows "pair_count l ls = spec_pair_count x xs"
proof -
  have "pair_count l ls = length (filter (\<lambda>p. {fst p, snd p} = {sl_source x, sl_target x}) (map (\<lambda>l. (lk_source l, lk_target l)) ls))"
    using assms(2,3) by (simp add: pair_count_def same_unordered_sets filter_map comp_def)
  also have "\<dots> = spec_pair_count x xs" by (simp only: assms(1)) (simp add: spec_pair_count_def filter_map comp_def)
  finally show ?thesis .
qed

lemma synthetic_links_loadable:
  assumes "spec_ok lms spec" "counters_ok spec w" "id_counter w1 = id_counter w"
    "generation_counter w1 LinkGenerationTag = generation_counter w LinkGenerationTag"
    "make_all synthetic_link (sp_links spec) w1 = (ls, w2)"
    "fst ` set (devices s) = sd_id ` set (sp_devices spec)" "links s = []"
  shows "distinct (map lk_id ls)" "length ls = length (sp_links spec)"
    "\<forall>l \<in> set ls. link_loadable s l \<and> pair_count l ls \<le> max_parallel_links_per_pair lms"
proof -
  have made: "map (\<lambda>l. (lk_source l, lk_target l)) ls = map (\<lambda>x. (sl_source x, sl_target x)) (sp_links spec)"
    "\<forall>l \<in> set ls. gen_valid (lk_generation l) \<and> unat (id_counter w LinkTag) < unat (id_value (lk_id l))"
    "distinct (map lk_id ls)"
    using synthetic_links_made [OF assms(5)] assms(2,3,4) by (auto simp: counters_ok_def)
  show "distinct (map lk_id ls)" by (fact made(3))
  show "length ls = length (sp_links spec)" using made(1) by (rule map_eq_imp_length_eq)
  have "link_loadable s l \<and> pair_count l ls \<le> max_parallel_links_per_pair lms" if l: "l \<in> set ls" for l
  proof -
    have "(lk_source l, lk_target l) \<in> set (map (\<lambda>x. (sl_source x, sl_target x)) (sp_links spec))"
      using l by (simp flip: made(1))
    then obtain x where x: "x \<in> set (sp_links spec)" "lk_source l = sl_source x" "lk_target l = sl_target x" by auto
    have "\<not> is_nil (lk_id l)" using made(2) l by (auto simp: is_nil_def)
    then show ?thesis using made(2) l x assms(1,6,7) pair_count_spec [OF made(1) x(2,3)]
      by (auto simp: link_loadable_def spec_ok_def um_find_def map_of_eq_None_iff)
  qed
  then show "\<forall>l \<in> set ls. link_loadable s l \<and> pair_count l ls \<le> max_parallel_links_per_pair lms" by blast
qed


lemma unstamp_map:
  assumes "map unstamp xs = map unstamp ys" "\<And>l. f (unstamp l) = f l"
  shows "map f xs = map f ys"
proof -
  have "map f zs = map f (map unstamp zs)" for zs by (simp add: assms(2))
  then show ?thesis using assms(1) by metis
qed

lemma synthetic_link_ends: "make_all synthetic_link xs w = (ls, w') \<Longrightarrow>
  map (\<lambda>l. (lk_source l, lk_target l, lk_state l)) ls = map (\<lambda>x. (sl_source x, sl_target x, sl_state x)) xs"
proof (induction xs arbitrary: w ls)
  case (Cons x xs)
  obtain l w1 where l: "synthetic_link x w = (l, w1)" by force
  then have "lk_source l = sl_source x" "lk_target l = sl_target x" "lk_state l = sl_state x"
    by (auto simp: synthetic_link_def Let_def split: prod.splits)
  then show ?case using Cons.prems Cons.IH [of w1] l by (auto split: prod.splits)
qed simp

lemma load_synthetic_complete:
  assumes "spec_ok lms spec" "counters_ok spec w"
    and ds: "make_all synthetic_device (sp_devices spec) w = (ds, w1)"
    and ls: "make_all synthetic_link (sp_links spec) w1 = (ls, w2)"
  shows "\<exists>w' s. load_synthetic lms spec w = Some (w', s) \<and> devices s = map (\<lambda>d. (dev_id d, d)) ds \<and>
    map (apsnd unstamp) (links s) = map (\<lambda>l. (lk_id l, unstamp l)) ls"
proof -
  obtain w3 s1 where d: "load_devices lms ds w2 initial_state = (w3, s1)" by force
  obtain w4 s2 where l: "load_links lms ls w3 s1 = (w4, s2)" by force
  note made = synthetic_devices_made [OF ds]
  then have ids: "map dev_id ds = map sd_id (sp_devices spec)" and gens: "\<forall>d \<in> set ds. gen_valid (dev_generation d)"
    and w1: "id_counter w1 = id_counter w" "generation_counter w1 LinkGenerationTag = generation_counter w LinkGenerationTag"
    using assms(1,2) by (auto simp: spec_ok_def counters_ok_def)
  have len: "length ds = length (sp_devices spec)" using ids by (rule map_eq_imp_length_eq)
  have named: "dev_id ` set ds = sd_id ` set (sp_devices spec)" using ids by (metis list.set_map)
  have "\<not> is_nil (dev_id d)" if "d \<in> set ds" for d
  proof -
    have "dev_id d \<in> sd_id ` set (sp_devices spec)" using named that by blast
    then show ?thesis using assms(1) by (auto simp: spec_ok_def)
  qed
  then have s1: "devices s1 = map (\<lambda>d. (dev_id d, d)) ds" "links s1 = []"
    using load_new_devices [OF d] ids gens len assms(1) by (auto simp: spec_ok_def initial_state_def um_find_def)
  have "fst ` set (devices s1) = sd_id ` set (sp_devices spec)" using s1(1) named by (simp add: image_image)
  note lks = synthetic_links_loadable [OF assms(1,2) w1 ls this s1(2)]
  have "devices s2 = devices s1 \<and>
      map (apsnd unstamp) (links s2) = map (apsnd unstamp) (links s1) @ map (\<lambda>l. (lk_id l, unstamp l)) ls"
    using lks assms(1) s1(2) by (intro load_new_links [OF l]) (auto simp: spec_ok_def)
  then show ?thesis
    using d l ds ls s1 by (auto simp: load_synthetic_def synthetic_discover_devices_def synthetic_discover_links_def)
qed

lemma load_synthetic_contents:
  assumes "spec_ok lms spec" "counters_ok spec w"
  shows "\<exists>w' s. load_synthetic lms spec w = Some (w', s) \<and>
    map fst (devices s) = map sd_id (sp_devices spec) \<and>
    map (\<lambda>l. (lk_source l, lk_target l, lk_state l)) (map snd (links s)) =
      map (\<lambda>x. (sl_source x, sl_target x, sl_state x)) (sp_links spec) \<and>
    list_all (\<lambda>d. ev_class (dev_evidence d) = EV_SYNTHETIC) (map snd (devices s)) \<and>
    list_all (\<lambda>l. ev_class (lk_evidence l) = EV_SYNTHETIC) (map snd (links s))"
proof -
  obtain ds w1 where ds: "make_all synthetic_device (sp_devices spec) w = (ds, w1)" by force
  obtain ls w2 where ls: "make_all synthetic_link (sp_links spec) w1 = (ls, w2)" by force
  obtain w' s where s: "load_synthetic lms spec w = Some (w', s)" "devices s = map (\<lambda>d. (dev_id d, d)) ds"
    "map (apsnd unstamp) (links s) = map (\<lambda>l. (lk_id l, unstamp l)) ls"
    using load_synthetic_complete [OF assms ds ls] by blast
  have un: "map unstamp (map snd (links s)) = map unstamp ls"
    using arg_cong [OF s(3), of "map snd"] by (simp add: comp_def)
  have "map dev_id ds = map sd_id (sp_devices spec)"
    using synthetic_devices_made [OF ds] assms by (auto simp: spec_ok_def counters_ok_def)
  then have "map fst (devices s) = map sd_id (sp_devices spec)" by (simp add: s(2) comp_def)
  moreover have "map (\<lambda>l. (lk_source l, lk_target l, lk_state l)) (map snd (links s)) =
      map (\<lambda>x. (sl_source x, sl_target x, sl_state x)) (sp_links spec)"
    using unstamp_map [OF un, of "\<lambda>l. (lk_source l, lk_target l, lk_state l)"] synthetic_link_ends [OF ls]
    by (simp add: unstamp_def)
  moreover have "list_all (\<lambda>d. ev_class (dev_evidence d) = EV_SYNTHETIC) (map snd (devices s))"
    using syn.devices_class [of spec w ds w1] ds s(2)
    by (auto simp: list_all_iff synthetic_discover_devices_def synthetic_capabilities_def synthetic_evidence_def Evidence_def)
  moreover have "list_all (\<lambda>l. ev_class (lk_evidence l) = EV_SYNTHETIC) (map snd (links s))"
  proof -
    have "(\<lambda>l. ev_class (lk_evidence l)) ` set (map snd (links s)) = (\<lambda>l. ev_class (lk_evidence l)) ` set ls"
      using arg_cong [OF unstamp_map [OF un, of "\<lambda>l. ev_class (lk_evidence l)"], of set]
      by (simp add: unstamp_def image_image)
    moreover have "ev_class (lk_evidence l) = EV_SYNTHETIC" if "l \<in> set ls" for l
      using syn.links_class [of spec ds w1 ls w2 l] ls that
      by (simp add: synthetic_discover_links_def synthetic_capabilities_def synthetic_evidence_def Evidence_def)
    ultimately show ?thesis by (force simp: list_all_iff image_iff)
  qed
  ultimately show ?thesis using s(1) by blast
qed

text \<open>
  C31: Loading a well-formed synthetic topology loses nothing. When the specification gives its
  devices distinct identities, links only listed devices and stays within the limits, and the
  64-bit counters do not wrap, discovery followed by the two \<open>upsert\<close> loops succeeds: the registry
  holds exactly the specified devices, in order, one link per specified link between the specified
  ends, in the specified operational state, and every record carries the synthetic evidence class.
\<close>

theorem synthetic_topology_loads:
  assumes "spec_ok lms spec" "counters_ok spec w"
  shows "\<exists>w' s. load_synthetic lms spec w = Some (w', s) \<and>
    map fst (devices s) = map sd_id (sp_devices spec) \<and>
    map (\<lambda>l. (lk_source l, lk_target l, lk_state l)) (map snd (links s)) =
      map (\<lambda>x. (sl_source x, sl_target x, sl_state x)) (sp_links spec) \<and>
    list_all (\<lambda>d. ev_class (dev_evidence d) = EV_SYNTHETIC) (map snd (devices s)) \<and>
    list_all (\<lambda>l. ev_class (lk_evidence l) = EV_SYNTHETIC) (map snd (links s))"
  using load_synthetic_contents [OF assms] .

theorem synthetic_topology_loads_witness:
  "\<exists>w' s. load_synthetic default_limits inspect_spec example_world = Some (w', s) \<and>
    map fst (devices s) = [Ident 1000, Ident 1001, Ident 1002, Ident 2000] \<and> length (links s) = 4"
proof -
  have "spec_ok default_limits inspect_spec"
    by (auto simp: spec_ok_def inspect_spec_def spec_pair_count_def default_limits_def is_nil_def Let_def doubleton_eq_iff)
  moreover have "counters_ok inspect_spec example_world"
    by (simp add: counters_ok_def inspect_spec_def example_world_def initial_world_def Let_def)
  ultimately obtain w' s where s: "load_synthetic default_limits inspect_spec example_world = Some (w', s)"
    "map fst (devices s) = map sd_id (sp_devices inspect_spec)"
    "map (\<lambda>l. (lk_source l, lk_target l, lk_state l)) (map snd (links s)) =
      map (\<lambda>x. (sl_source x, sl_target x, sl_state x)) (sp_links inspect_spec)"
    using synthetic_topology_loads [of default_limits inspect_spec example_world] by blast
  have "length (links s) = 4"
    using arg_cong [OF s(3), of length] by (simp add: inspect_spec_def Let_def)
  then show ?thesis using s(1,2) by (simp add: inspect_spec_def Let_def)
qed

end
