(* ===== verification/Self_Check.thy ===== *)
theory Self_Check
  imports Backends
begin

text \<open>
  \<open>run_cuda_self_check\<close> (\<open>src/backend/nvidia_backend.cpp\<close>): allocation, transfers, an
  NVRTC-compiled kernel and the comparison with a CPU reference. What CUDA and NVRTC answer is the
  parameter \<open>cuda_env\<close>, one answer per call site; the function keeps its result record, its flag
  \<open>ok\<close> and, in the model, a trace of the resources it acquires and releases. A pointer of
  the code is non-null exactly when its resource has been acquired.

  The kernel source, which the code compiles at run time, is modelled by \<open>addf\<close> and its launch by
  \<open>launch_addf\<close>. All its values are integers below \<open>2 ^ 24\<close>, which \<open>float\<close> and
  \<open>f64\<close> both hold exactly.
\<close>

section \<open>The calls and the state of a run\<close>

datatype cuda_call =
    GetDeviceCount | GetDeviceCount2 | GetDeviceProperties | MemGetInfo | CuInit | CuDeviceGet
  | CtxRetain | CtxSetCurrent | Malloc_in | Malloc_out | Memcpy_H2D | CreateProgram | CompileProgram
  | GetPTXSize | GetPTX | ModuleLoad | ModuleGetFunction | LaunchKernel | CtxSynchronize | Memcpy_D2H
  | MemGetInfo2

record cuda_env =
  ce_ok :: "cuda_call \<Rightarrow> bool" \<comment> \<open>the call at this site succeeds\<close>
  ce_error_name :: string
  ce_count :: nat
  ce_name :: string
  ce_free :: u64 \<comment> \<open>free memory of the first \<open>cudaMemGetInfo\<close>\<close>
  ce_free2 :: u64
  ce_log :: string
  ce_run :: "nat \<Rightarrow> (nat \<Rightarrow> f64) \<Rightarrow> nat \<Rightarrow> f64" \<comment> \<open>\<open>d_out\<close> after the launch, from \<open>n\<close> and \<open>d_in\<close>\<close>

record cuda_validation_result =
  cv_cuda_available :: bool
  cv_device_count :: nat
  cv_device_name :: string
  cv_error :: string
  cv_parity :: bool
  cv_bytes_allocated :: u64
  cv_bytes_baseline :: u64
  cv_bytes_after_free :: u64
  cv_memory_returned :: bool
  cv_evidence :: evidence

datatype cuda_resource = R_Context | R_In | R_Out | R_Program | R_Module

datatype cuda_event = Acquire cuda_resource | Release cuda_resource

record check_run =
  ck_res :: cuda_validation_result
  ck_ok :: bool
  ck_trace :: "cuda_event list"

section \<open>The kernel\<close>

definition self_check_n :: nat where
  "self_check_n = 1024 * 1024"

definition host_in :: "nat \<Rightarrow> f64" where
  "host_in i = f64_of_nat (i mod 1000)"

definition host_expected :: "nat \<Rightarrow> f64" where
  "host_expected i = f64_add (f64_of_nat (i mod 1000)) (F64 1)"

definition addf :: "nat \<Rightarrow> nat \<Rightarrow> nat \<Rightarrow> nat \<Rightarrow> (nat \<Rightarrow> f64) \<Rightarrow> (nat \<Rightarrow> f64) \<Rightarrow> nat \<Rightarrow> f64" where
  \<comment> \<open>thread \<open>t\<close> of block \<open>b\<close>\<close>
  "addf block_dim n b t d_in out =
     (let i = b * block_dim + t in if i < n then out(i := f64_add (d_in i) (F64 1)) else out)"

definition self_check_threads :: nat where
  "self_check_threads = 256"

definition self_check_blocks :: nat where
  "self_check_blocks = (self_check_n + self_check_threads - 1) div self_check_threads"

definition launch_addf :: "nat \<Rightarrow> nat \<Rightarrow> nat \<Rightarrow> (nat \<Rightarrow> f64) \<Rightarrow> (nat \<Rightarrow> f64) \<Rightarrow> nat \<Rightarrow> f64" where
  \<comment> \<open>every thread of the grid once\<close>
  "launch_addf blocks threads n d_in out =
     fold (\<lambda>(b, t). addf threads n b t d_in) (List.product [0..<blocks] [0..<threads]) out"

section \<open>The self-check\<close>

definition initial_validation :: cuda_validation_result where
  "initial_validation = \<lparr>cv_cuda_available = False, cv_device_count = 0, cv_device_name = [], cv_error = [],
     cv_parity = False, cv_bytes_allocated = 0, cv_bytes_baseline = 0, cv_bytes_after_free = 0,
     cv_memory_returned = False,
     cv_evidence = Evidence EV_UNSUPPORTED PROV_NONE ''cuda_self_check'' ''not yet available''\<rparr>"

definition set_error :: "string \<Rightarrow> check_run \<Rightarrow> check_run" where
  "set_error msg st = st\<lparr>ck_res := (ck_res st)\<lparr>cv_error := msg\<rparr>, ck_ok := False\<rparr>"

definition attempt :: "cuda_env \<Rightarrow> cuda_call \<Rightarrow> string \<Rightarrow> cuda_event list \<Rightarrow> check_run \<Rightarrow> check_run" where
  \<comment> \<open>\<open>if (ok && call != SUCCESS) { res.error = msg; ok = false; }\<close>\<close>
  "attempt env c msg acquired st =
     (if \<not> ck_ok st then st
      else if ce_ok env c then st\<lparr>ck_trace := ck_trace st @ acquired\<rparr>
      else set_error msg st)"

definition self_check_work :: "cuda_env \<Rightarrow> check_run \<Rightarrow> check_run" where
  \<comment> \<open>from the allocations to the copy back\<close>
  "self_check_work env st =
     (let st = attempt env Malloc_in ''cudaMalloc(d_in) failed'' [Acquire R_In] st;
          st = attempt env Malloc_out ''cudaMalloc(d_out) failed'' [Acquire R_Out] st;
          st = attempt env Memcpy_H2D ''cudaMemcpy H2D failed'' [] st;
          st = st\<lparr>ck_res := (ck_res st)\<lparr>cv_bytes_allocated :=
                 (if ck_ok st then word_of_nat (self_check_n * 4) * 2 else 0)\<rparr>\<rparr>;
          st = attempt env CreateProgram ''nvrtcCreateProgram failed'' [Acquire R_Program] st;
          st = attempt env CompileProgram (''nvrtcCompileProgram failed: '' @ ce_log env) [] st;
          st = attempt env GetPTXSize ''nvrtcGetPTXSize failed'' [] st;
          st = attempt env GetPTX ''nvrtcGetPTX failed'' [] st;
          st = attempt env ModuleLoad ''cuModuleLoadDataEx failed'' [Acquire R_Module] st;
          st = attempt env ModuleGetFunction ''cuModuleGetFunction failed'' [] st;
          st = attempt env LaunchKernel ''cuLaunchKernel failed'' [] st;
          st = attempt env CtxSynchronize ''cuCtxSynchronize failed'' [] st
      in attempt env Memcpy_D2H ''cudaMemcpy D2H failed'' [] st)"

definition parity_holds :: "(nat \<Rightarrow> f64) \<Rightarrow> bool" where
  "parity_holds out \<longleftrightarrow> list_all (\<lambda>i. f64_eq (out i) (host_expected i)) [0..<self_check_n]"

definition self_check_compare :: "cuda_env \<Rightarrow> check_run \<Rightarrow> check_run" where
  "self_check_compare env st =
     (if \<not> ck_ok st then st
      else let parity = parity_holds (ce_run env self_check_n host_in);
               st = st\<lparr>ck_res := (ck_res st)\<lparr>cv_parity := parity\<rparr>\<rparr>
      in if parity then st else st\<lparr>ck_res := (ck_res st)\<lparr>cv_error := ''CPU-reference parity mismatch''\<rparr>\<rparr>)"

definition release_if :: "cuda_resource \<Rightarrow> check_run \<Rightarrow> check_run" where
  \<comment> \<open>\<open>if (p) release(p);\<close>\<close>
  "release_if r st = (if Acquire r \<in> set (ck_trace st) then st\<lparr>ck_trace := ck_trace st @ [Release r]\<rparr> else st)"

definition self_check_cleanup :: "cuda_env \<Rightarrow> check_run \<Rightarrow> check_run" where
  "self_check_cleanup env st =
     (let st = release_if R_Module (release_if R_Program (release_if R_Out (release_if R_In st)));
          st = (if ce_ok env MemGetInfo2 then st\<lparr>ck_res := (ck_res st)\<lparr>cv_bytes_after_free := ce_free2 env\<rparr>\<rparr> else st);
          st = st\<lparr>ck_res := (ck_res st)\<lparr>cv_memory_returned :=
                 (cv_bytes_after_free (ck_res st) + 2 * 1024 * 1024 \<ge> cv_bytes_baseline (ck_res st))\<rparr>\<rparr>
      in release_if R_Context st)"

definition self_check_device :: "cuda_env \<Rightarrow> cuda_validation_result \<Rightarrow> cuda_validation_result" where
  \<comment> \<open>what is reported once the runtime has answered\<close>
  "self_check_device env res = res\<lparr>cv_device_count := ce_count env,
     cv_device_name := (if ce_count env > 0 \<and> ce_ok env GetDeviceProperties then ce_name env else [])\<rparr>"

definition run_cuda_self_check :: "cuda_env \<Rightarrow> cuda_validation_result result \<times> cuda_event list" where
  "run_cuda_self_check env =
     (let res = initial_validation
      in if \<not> ce_ok env GetDeviceCount
         then (ok (res\<lparr>cv_error := ''CUDA runtime unavailable: '' @ ce_error_name env\<rparr>), [])
      else let res = res\<lparr>cv_cuda_available := True,
                 cv_evidence := Evidence EV_REAL PROV_CUDA_RUNTIME ''cuda_self_check'' ''real CUDA device validation''\<rparr>
      in if \<not> ce_ok env GetDeviceCount2 then (ok (res\<lparr>cv_error := ''cudaGetDeviceCount failed''\<rparr>), [])
      else let res = self_check_device env res
      in if \<not> ce_ok env MemGetInfo then (ok (res\<lparr>cv_error := ''cudaMemGetInfo failed''\<rparr>), [])
      else let res = res\<lparr>cv_bytes_baseline := ce_free env\<rparr>
      in if \<not> ce_ok env CuInit then (ok (res\<lparr>cv_error := ''cuInit failed''\<rparr>), [])
      else if \<not> ce_ok env CuDeviceGet then (ok (res\<lparr>cv_error := ''cuDeviceGet failed''\<rparr>), [])
      else if \<not> ce_ok env CtxRetain then (ok (res\<lparr>cv_error := ''cuDevicePrimaryCtxRetain failed''\<rparr>), [])
      else if \<not> ce_ok env CtxSetCurrent
      then (ok (res\<lparr>cv_error := ''cuCtxSetCurrent failed''\<rparr>), [Acquire R_Context, Release R_Context])
      else let st = \<lparr>ck_res = res, ck_ok = True, ck_trace = [Acquire R_Context]\<rparr>;
               st = self_check_cleanup env (self_check_compare env (self_check_work env st))
      in (ok (ck_res st), ck_trace st))"

section \<open>Every resource is released\<close>

definition all_resources :: "cuda_resource list" where
  "all_resources = [R_Context, R_In, R_Out, R_Program, R_Module]"

definition balanced :: "cuda_event list \<Rightarrow> bool" where
  \<comment> \<open>each acquired resource is released once, after it was acquired, and nothing else is released\<close>
  "balanced tr \<longleftrightarrow> list_all (\<lambda>r. filter (\<lambda>e. e = Acquire r \<or> e = Release r) tr \<in> {[], [Acquire r, Release r]}) all_resources"

lemma attempt_simps [simp]:
  "ck_ok (attempt env c msg a st) \<longleftrightarrow> ck_ok st \<and> ce_ok env c"
  "ck_trace (attempt env c msg a st) = ck_trace st @ (if ck_ok st \<and> ce_ok env c then a else [])"
  "cv_error (ck_res (attempt env c msg a st)) = (if ck_ok st \<and> \<not> ce_ok env c then msg else cv_error (ck_res st))"
  "cv_parity (ck_res (attempt env c msg a st)) = cv_parity (ck_res st)"
  "cv_bytes_allocated (ck_res (attempt env c msg a st)) = cv_bytes_allocated (ck_res st)"
  "cv_bytes_baseline (ck_res (attempt env c msg a st)) = cv_bytes_baseline (ck_res st)"
  "cv_bytes_after_free (ck_res (attempt env c msg a st)) = cv_bytes_after_free (ck_res st)"
  "cv_cuda_available (ck_res (attempt env c msg a st)) = cv_cuda_available (ck_res st)"
  "cv_evidence (ck_res (attempt env c msg a st)) = cv_evidence (ck_res st)"
  by (auto simp: attempt_def set_error_def)

lemma compare_simps [simp]:
  "ck_trace (self_check_compare env st) = ck_trace st"
  "cv_parity (ck_res (self_check_compare env st)) =
     (if ck_ok st then parity_holds (ce_run env self_check_n host_in) else cv_parity (ck_res st))"
  "cv_error (ck_res (self_check_compare env st)) =
     (if ck_ok st \<and> \<not> parity_holds (ce_run env self_check_n host_in) then ''CPU-reference parity mismatch''
      else cv_error (ck_res st))"
  "cv_bytes_allocated (ck_res (self_check_compare env st)) = cv_bytes_allocated (ck_res st)"
  "cv_bytes_baseline (ck_res (self_check_compare env st)) = cv_bytes_baseline (ck_res st)"
  "cv_bytes_after_free (ck_res (self_check_compare env st)) = cv_bytes_after_free (ck_res st)"
  "cv_cuda_available (ck_res (self_check_compare env st)) = cv_cuda_available (ck_res st)"
  "cv_evidence (ck_res (self_check_compare env st)) = cv_evidence (ck_res st)"
  by (auto simp: self_check_compare_def Let_def)

definition work_calls :: "cuda_call list" where
  "work_calls = [Malloc_in, Malloc_out, Memcpy_H2D, CreateProgram, CompileProgram, GetPTXSize, GetPTX,
     ModuleLoad, ModuleGetFunction, LaunchKernel, CtxSynchronize, Memcpy_D2H]"

lemma work_ok: "ck_ok (self_check_work env st) \<longleftrightarrow> ck_ok st \<and> list_all (ce_ok env) work_calls"
  by (simp add: self_check_work_def work_calls_def Let_def conj_assoc)

lemma work_error:
  "ck_ok st \<Longrightarrow> cv_error (ck_res st) = [] \<Longrightarrow>
    cv_error (ck_res (self_check_work env st)) = [] \<longleftrightarrow> list_all (ce_ok env) work_calls"
  by (simp add: self_check_work_def work_calls_def Let_def)

lemma work_keeps:
  "cv_parity (ck_res (self_check_work env st)) = cv_parity (ck_res st)"
  "cv_bytes_baseline (ck_res (self_check_work env st)) = cv_bytes_baseline (ck_res st)"
  "cv_bytes_after_free (ck_res (self_check_work env st)) = cv_bytes_after_free (ck_res st)"
  "cv_cuda_available (ck_res (self_check_work env st)) = cv_cuda_available (ck_res st)"
  "cv_evidence (ck_res (self_check_work env st)) = cv_evidence (ck_res st)"
  by (simp_all add: self_check_work_def Let_def)

lemma work_allocated: "list_all (ce_ok env) work_calls \<Longrightarrow> ck_ok st \<Longrightarrow>
    cv_bytes_allocated (ck_res (self_check_work env st)) = 8388608"
  by (simp add: self_check_work_def work_calls_def Let_def self_check_n_def)

lemma work_trace:
  "\<exists>a b c d. ck_trace (self_check_work env st) = ck_trace st @ (if a then [Acquire R_In] else []) @
    (if b then [Acquire R_Out] else []) @ (if c then [Acquire R_Program] else []) @ (if d then [Acquire R_Module] else [])"
  unfolding self_check_work_def Let_def by (simp only: attempt_simps check_run.simps) (intro exI, simp)

lemma cleanup_trace: "ck_trace (self_check_cleanup env st) =
    ck_trace (release_if R_Context (release_if R_Module (release_if R_Program (release_if R_Out (release_if R_In st)))))"
  by (auto simp: self_check_cleanup_def release_if_def Let_def)

lemma cleanup_balanced:
  assumes "ck_trace st = [Acquire R_Context] @ (if a then [Acquire R_In] else []) @ (if b then [Acquire R_Out] else []) @
    (if c then [Acquire R_Program] else []) @ (if d then [Acquire R_Module] else [])"
  shows "balanced (ck_trace (self_check_cleanup env st))"
  by (cases a; cases b; cases c; cases d) (simp_all add: cleanup_trace release_if_def assms balanced_def all_resources_def)

text \<open>
  C32: The CUDA self-check leaks nothing. Whatever subset of the CUDA, driver and NVRTC calls fails,
  when the function returns, each of the context, the two device buffers, the program and the module
  was either never acquired or was acquired once and afterwards released once; and the function always
  returns a value, never an error.
\<close>

theorem self_check_releases_everything:
  "has_value (fst (run_cuda_self_check env)) \<and> balanced (snd (run_cuda_self_check env))"
proof -
  have "balanced (ck_trace (self_check_cleanup env (self_check_compare env (self_check_work env
      \<lparr>ck_res = res, ck_ok = True, ck_trace = [Acquire R_Context]\<rparr>))))" for res
  proof -
    let ?st = "\<lparr>ck_res = res, ck_ok = True, ck_trace = [Acquire R_Context]\<rparr>"
    obtain a b c d where "ck_trace (self_check_work env ?st) = [Acquire R_Context] @
        (if a then [Acquire R_In] else []) @ (if b then [Acquire R_Out] else []) @
        (if c then [Acquire R_Program] else []) @ (if d then [Acquire R_Module] else [])"
      using work_trace [of env ?st] by auto
    then show ?thesis by (intro cleanup_balanced [where a = a and b = b and c = c and d = d]) simp
  qed
  moreover have "balanced []" "balanced [Acquire R_Context, Release R_Context]"
    by (simp_all add: balanced_def all_resources_def)
  ultimately show ?thesis by (simp add: run_cuda_self_check_def Let_def)
qed

section \<open>What the verdict means\<close>

lemma addf_fold_miss: "\<forall>p \<in> set ps. fst p * bd + snd p \<noteq> i \<Longrightarrow>
    fold (\<lambda>(b, t). addf bd n b t d_in) ps out i = out i"
  by (induction ps arbitrary: out) (auto simp: addf_def Let_def split: prod.splits)

lemma addf_fold_hit: "\<exists>p \<in> set ps. fst p * bd + snd p = i \<Longrightarrow> i < n \<Longrightarrow>
    fold (\<lambda>(b, t). addf bd n b t d_in) ps out i = f64_add (d_in i) (F64 1)"
proof (induction ps rule: rev_induct)
  case (snoc p ps)
  then show ?case by (cases p) (auto simp: addf_def Let_def)
qed simp

text \<open>The grid of the launch reaches every index below \<open>n\<close>.\<close>

lemma launch_addf_computes:
  assumes "0 < threads" "i < n"
  shows "launch_addf ((n + threads - 1) div threads) threads n d_in out i = f64_add (d_in i) (F64 1)"
proof -
  have "i div threads < (n + threads - 1) div threads"
  proof -
    have "i + threads \<le> n + threads - 1" using assms by simp
    then have "(i + threads) div threads \<le> (n + threads - 1) div threads" by (rule div_le_mono)
    then show ?thesis using assms(1) by simp
  qed
  moreover have "i mod threads < threads" using assms(1) by simp
  moreover have "i div threads * threads + i mod threads = i" by simp
  ultimately show ?thesis unfolding launch_addf_def
    by (intro addf_fold_hit bexI [of _ "(i div threads, i mod threads)"]) (use assms in auto)
qed

lemma f64_round_number: "f64_round x \<noteq> F64_NaN"
  by (simp add: f64_round_def Let_def)

lemma host_expected_number: "host_expected i \<noteq> F64_NaN"
  using f64_round_number [of "of_nat (i mod 1000)"]
  by (cases "f64_of_nat (i mod 1000)") (simp_all add: host_expected_def f64_of_nat_def f64_round_number)

definition kernel_faithful :: "cuda_env \<Rightarrow> bool" where
  \<comment> \<open>the device executes the compiled source on its grid and copies are exact\<close>
  "kernel_faithful env \<longleftrightarrow> (\<forall>d_in. \<exists>out. ce_run env self_check_n d_in =
     launch_addf self_check_blocks self_check_threads self_check_n d_in out)"

lemma kernel_faithful_parity: "kernel_faithful env \<Longrightarrow> parity_holds (ce_run env self_check_n host_in)"
proof -
  assume "kernel_faithful env"
  then obtain out where "ce_run env self_check_n host_in =
      launch_addf self_check_blocks self_check_threads self_check_n host_in out"
    unfolding kernel_faithful_def by blast
  moreover have "launch_addf self_check_blocks self_check_threads self_check_n host_in out i = host_expected i"
    if "i < self_check_n" for i
    using launch_addf_computes [of self_check_threads i self_check_n host_in out] that
    by (simp add: self_check_blocks_def self_check_threads_def host_expected_def host_in_def)
  ultimately show ?thesis using host_expected_number
    by (auto simp: parity_holds_def list_all_iff f64_eq_def)
qed

definition setup_calls :: "cuda_call list" where
  "setup_calls = [GetDeviceCount, GetDeviceCount2, MemGetInfo, CuInit, CuDeviceGet, CtxRetain, CtxSetCurrent]"

lemma cleanup_keeps:
  "cv_parity (ck_res (self_check_cleanup env st)) = cv_parity (ck_res st)"
  "cv_error (ck_res (self_check_cleanup env st)) = cv_error (ck_res st)"
  "cv_cuda_available (ck_res (self_check_cleanup env st)) = cv_cuda_available (ck_res st)"
  "cv_evidence (ck_res (self_check_cleanup env st)) = cv_evidence (ck_res st)"
  "cv_bytes_allocated (ck_res (self_check_cleanup env st)) = cv_bytes_allocated (ck_res st)"
  by (simp_all add: self_check_cleanup_def release_if_def Let_def)

lemmas run_facts = cleanup_keeps work_keeps work_ok work_error

definition device_adds_one :: "cuda_env \<Rightarrow> bool" where
  \<comment> \<open>the buffer copied back holds the input plus one at every index\<close>
  "device_adds_one env \<longleftrightarrow>
     (\<forall>i < self_check_n. ce_run env self_check_n host_in i = f64_add (f64_of_nat (i mod 1000)) (F64 1))"

lemma parity_holds_iff: "parity_holds (ce_run env self_check_n host_in) \<longleftrightarrow> device_adds_one env"
proof -
  have "f64_eq x (host_expected i) \<longleftrightarrow> x = host_expected i" for x i
    using host_expected_number [of i] by (auto simp: f64_eq_def)
  then show ?thesis by (simp add: parity_holds_def list_all_iff device_adds_one_def host_expected_def atLeast0LessThan Ball_def)
qed

lemma kernel_faithful_adds_one: "kernel_faithful env \<Longrightarrow> device_adds_one env"
  using kernel_faithful_parity parity_holds_iff by blast

text \<open>
  C33: What the verdict of the self-check means. Parity is reported exactly when each of the set-up calls and
  each of the calls from the first allocation to the copy back succeeded and the buffer copied back holds the
  input plus one at every index. No error is reported exactly when parity is; if every call succeeded and
  the buffer is wrong, the error is the parity mismatch. A device that executes the compiled source over the grid
  of the launch fills the buffer rightly. With parity the function reports the 8 MiB it allocated. The evidence
  is announced as real exactly when the CUDA runtime was available.
\<close>

theorem self_check_verdict:
  assumes "run_cuda_self_check env = (Inr res, tr)"
  defines "calls_succeed \<equiv> list_all (ce_ok env) (setup_calls @ work_calls)"
  shows "(cv_parity res \<longleftrightarrow> calls_succeed \<and> device_adds_one env) \<and>
    (cv_error res = [] \<longleftrightarrow> cv_parity res) \<and>
    (calls_succeed \<and> \<not> device_adds_one env \<longrightarrow> cv_error res = ''CPU-reference parity mismatch'') \<and>
    (kernel_faithful env \<longrightarrow> device_adds_one env) \<and>
    (cv_parity res \<longrightarrow> cv_bytes_allocated res = 8388608) \<and>
    (ev_class (cv_evidence res) = EV_REAL \<longleftrightarrow> cv_cuda_available res) \<and>
    (cv_cuda_available res \<longleftrightarrow> ce_ok env GetDeviceCount)"
proof (cases "list_all (ce_ok env) setup_calls")
  case True
  define r0 where "r0 = (self_check_device env (initial_validation\<lparr>cv_cuda_available := True,
     cv_evidence := Evidence EV_REAL PROV_CUDA_RUNTIME ''cuda_self_check'' ''real CUDA device validation''\<rparr>))
     \<lparr>cv_bytes_baseline := ce_free env\<rparr>"
  define st where "st = \<lparr>ck_res = r0, ck_ok = True, ck_trace = [Acquire R_Context]\<rparr>"
  have r0: "cv_parity r0 = False" "cv_error r0 = []" "cv_cuda_available r0" "ev_class (cv_evidence r0) = EV_REAL"
    by (simp_all add: r0_def self_check_device_def initial_validation_def Evidence_def)
  have res: "res = ck_res (self_check_cleanup env (self_check_compare env (self_check_work env st)))"
    using assms(1) True by (simp add: run_cuda_self_check_def setup_calls_def Let_def st_def r0_def)
  have "ce_ok env GetDeviceCount" using True by (simp add: setup_calls_def)
  then show ?thesis
    using True r0 kernel_faithful_adds_one [of env]
    by (auto simp: res run_facts st_def work_allocated calls_succeed_def parity_holds_iff)
next
  case False
  then show ?thesis using assms(1) kernel_faithful_adds_one [of env]
    by (auto simp: run_cuda_self_check_def setup_calls_def Let_def self_check_device_def initial_validation_def
        Evidence_def calls_succeed_def split: if_splits)
qed

definition example_cuda :: cuda_env where
  "example_cuda = \<lparr>ce_ok = (\<lambda>_. True), ce_error_name = [], ce_count = 1, ce_name = ''gpu'', ce_free = 100,
     ce_free2 = 100, ce_log = [],
     ce_run = (\<lambda>n d_in. launch_addf self_check_blocks self_check_threads n d_in (\<lambda>_. F64 0))\<rparr>"

theorem self_check_verdict_witness:
  "\<exists>res tr. run_cuda_self_check example_cuda = (Inr res, tr) \<and> cv_parity res \<and> cv_error res = [] \<and> cv_bytes_allocated res = 8388608"
proof -
  have "kernel_faithful example_cuda" by (auto simp: kernel_faithful_def example_cuda_def)
  moreover obtain res tr where run: "run_cuda_self_check example_cuda = (Inr res, tr)"
    by (simp add: run_cuda_self_check_def example_cuda_def Let_def)
  moreover have "list_all (ce_ok example_cuda) (setup_calls @ work_calls)"
    by (simp add: example_cuda_def setup_calls_def work_calls_def)
  ultimately show ?thesis using self_check_verdict [OF run] by blast
qed

end
