(* ===== verification/Inspect.thy ===== *)
theory Inspect
  imports Backends Route_Properties Worker_Client
begin

text \<open>
  The inspection tool (\<open>tools/nvlink_fabric_inspect.cpp\<close>): argument parsing, the choice and loading
  of a backend, and the text and JSON reports of the registry, its paths and route decisions. A run
  is a function from the arguments to the exit code and what is printed; \<open>Aborted\<close> is an
  exception that nothing catches. The JSON report is related to a small reference reader of JSON
  documents: what it prints is read back as the data of the snapshot.
\<close>

section \<open>Strings\<close>

definition c_str :: "string \<Rightarrow> string" where
  \<comment> \<open>\<open>%s\<close> of \<open>c_str()\<close> stops at the first NUL\<close>
  "c_str s = takeWhile (\<lambda>c. c \<noteq> CHR 0x00) s"

definition jesc_char :: "char \<Rightarrow> string" where
  "jesc_char c =
     (if c = CHR 0x22 then [CHR 0x5C, CHR 0x22]
      else if c = CHR 0x5C then [CHR 0x5C, CHR 0x5C]
      else if c = CHR 0x0A then [CHR 0x5C, CHR ''n'']
      else if c = CHR 0x0D then [CHR 0x5C, CHR ''r'']
      else if c = CHR 0x09 then [CHR 0x5C, CHR ''t'']
      else if (of_char c :: nat) < 32 then CHR 0x5C # CHR ''u'' # hex_pad 4 (of_char c)
      else [c])"

definition jesc :: "string \<Rightarrow> string" where
  "jesc s = concat (map jesc_char s)"

definition quoted :: "string \<Rightarrow> string" where
  "quoted s = CHR 0x22 # s @ [CHR 0x22]"

definition jkey :: "string \<Rightarrow> string" where
  \<comment> \<open>a member name and its colon\<close>
  "jkey k = quoted k @ '':''"

definition bit_string :: "bool \<Rightarrow> string" where
  "bit_string b = (if b then ''1'' else ''0'')"

section \<open>Arguments and backends\<close>

datatype run_end = Exit nat string | Aborted

fun inspect_args :: "string list \<Rightarrow> string \<Rightarrow> bool \<Rightarrow> string list \<Rightarrow> string \<times> bool \<times> string list" where
  "inspect_args [] bname json args = (bname, json, args)"
| "inspect_args (a # rest) bname json args =
     (if a = ''--backend''
      then (case rest of [] \<Rightarrow> (bname, json, args) | b # rest' \<Rightarrow> inspect_args rest' b json args)
      else if a = ''--json'' then inspect_args rest bname True args
      else inspect_args rest bname json (args @ [a]))"

definition inspect_measurement :: "world \<Rightarrow> measurement_record \<times> world" where
  "inspect_measurement w =
     (let (i, w) = fresh_id MeasurementTag w
      in (default_measurement\<lparr>m_id := i, m_source := Ident 1000, m_target := Ident 1001,
            m_payload_bytes := 4 * 1024 * 1024, m_iterations := 8, m_warmup_iterations := 2,
            m_completed_transfers := 8, m_bandwidth_bps := F64 360000000000,
            m_latency_seconds := f64_round (7 / 1000000), m_integrity_verified := True, m_valid := True,
            m_evidence := Evidence EV_SYNTHETIC (PROV_BENCHMARK OR PROV_SYNTHETIC_FIXTURE) ''synthetic''
              ''synthetic measurement''\<rparr>, w))"

definition inspect_nvidia :: "nvidia_env \<Rightarrow> world \<Rightarrow> run_end + world \<times> Registry.state" where
  "inspect_nvidia env w =
     (case make_nvidia_backend env of
        Inl e \<Rightarrow> Inl (Exit 3 (''nvidia backend unavailable: '' @ c_str (error_to_string e) @ [CHR 0x0A]))
      | Inr _ \<Rightarrow>
          (case nvidia_discover_devices env False w of
             (Inl e, _, _) \<Rightarrow> Inl (Exit 3 (''nvidia device discovery failed: '' @ c_str (error_to_string e) @ [CHR 0x0A]))
           | (Inr devs, inited, w) \<Rightarrow>
               let (w, s) = load_devices default_limits devs w initial_state
               in (case nvidia_discover_links env inited of
                     (Inl _, _) \<Rightarrow> Inl Aborted
                   | (Inr lks, _) \<Rightarrow> Inr (load_links default_limits lks w s))))"

definition inspect_load :: "bool \<Rightarrow> nvidia_env \<Rightarrow> string \<Rightarrow> world \<Rightarrow> run_end + world \<times> Registry.state" where
  \<comment> \<open>the flag is \<open>NVF_WITH_NVIDIA\<close>\<close>
  "inspect_load with_nvidia env bname w =
     (if bname = ''synthetic''
      then (case load_synthetic default_limits inspect_spec w of
              None \<Rightarrow> Inl Aborted
            | Some (w, s) \<Rightarrow>
                let (m, w) = inspect_measurement w; (_, w, s) = publish_measurement default_limits m w s in Inr (w, s))
      else if bname = ''nop''
      then (case nop_discover_devices w of
              (Inl _, _) \<Rightarrow> Inl Aborted
            | (Inr devs, w) \<Rightarrow> Inr (load_devices default_limits devs w initial_state))
      else if with_nvidia \<and> bname = ''nvidia'' then inspect_nvidia env w
      else Inl (Exit 2 (''unknown backend: '' @ c_str bname @ [CHR 0x0A])))"

section \<open>The JSON report\<close>

definition json_device :: "device_record \<Rightarrow> string" where
  "json_device d = '','' @ jkey ''device'' @ ''{'' @ jkey ''id'' @ id_to_string (dev_id d) @
     '','' @ jkey ''name'' @ quoted (jesc (dev_logical_name d)) @
     '','' @ jkey ''arch'' @ quoted (jesc (dev_architecture d)) @
     '','' @ jkey ''health'' @ quoted (device_health_name (dev_health d)) @
     '','' @ jkey ''evidence'' @ quoted (evidence_class_name (ev_class (dev_evidence d))) @ ''}''"

definition json_link :: "link_record \<Rightarrow> string" where
  "json_link l = '','' @ jkey ''link'' @ ''{'' @ jkey ''id'' @ id_to_string (lk_id l) @
     '','' @ jkey ''src'' @ id_to_string (lk_source l) @
     '','' @ jkey ''tgt'' @ id_to_string (lk_target l) @
     '','' @ jkey ''state'' @ quoted (link_state_name (lk_state l)) @
     '','' @ jkey ''tech'' @ quoted (interconnect_technology_name (lk_technology l)) @
     '','' @ jkey ''evidence'' @ quoted (evidence_class_name (ev_class (lk_evidence l))) @ ''}''"

definition json_path :: "path \<Rightarrow> string" where
  "json_path p = '','' @ jkey ''path'' @ ''{'' @ jkey ''id'' @ id_to_string (p_id p) @
     '','' @ jkey ''hops'' @ nat_to_string (p_hop_count p) @
     '','' @ jkey ''direct'' @ bit_string (p_direct p) @ ''}''"

definition json_counts :: "topology_snapshot \<Rightarrow> string" where
  "json_counts snap = '','' @ jkey ''devices'' @ nat_to_string (length (snap_devices snap)) @
     '','' @ jkey ''links'' @ nat_to_string (length (snap_links snap))"

definition endpoints :: "string list \<Rightarrow> (device_id \<times> device_id) option" where
  "endpoints args = (if length args < 2 then None
     else Some (Ident (c_strtou (args ! 0)), Ident (c_strtou (args ! 1))))"

definition inspect_json_paths :: "string \<Rightarrow> string list \<Rightarrow> Registry.state \<Rightarrow> world \<Rightarrow> run_end + string" where
  "inspect_json_paths cmd args s w =
     (case endpoints args of
        None \<Rightarrow> Inl (Exit 2 (''paths/route requires SRC TGT'' @ [CHR 0x0A]))
      | Some (src, tgt) \<Rightarrow>
          if cmd = ''paths''
          then (case enumerate_paths default_limits s src tgt w of
                  (Inl e, _) \<Rightarrow> Inl (Exit 4 (''path enumeration error: '' @ c_str (error_to_string e) @ [CHR 0x0A]))
                | (Inr paths, _) \<Rightarrow> Inr (concat (map json_path paths)))
          else (case decide_route default_limits s s src tgt default_policy w of
                  (Inl e, _) \<Rightarrow> Inl (Exit 4 (''route error: '' @ c_str (error_to_string e) @ [CHR 0x0A]))
                | (Inr dec, _) \<Rightarrow> Inr ('','' @ jkey ''outcome'' @ quoted (route_outcome_name (rd_outcome dec)) @
                    '','' @ jkey ''executable'' @ bit_string (rd_executable dec) @
                    '','' @ jkey ''explanation'' @ quoted (jesc (rd_explanation dec)))))"

definition inspect_json_body :: "string \<Rightarrow> string list \<Rightarrow> topology_snapshot \<Rightarrow> Registry.state \<Rightarrow> world \<Rightarrow> run_end + string" where
  "inspect_json_body cmd args snap s w =
     (if cmd = ''devices'' then Inr (concat (map json_device (snap_devices snap)))
      else if cmd = ''links'' then Inr (concat (map json_link (snap_links snap)))
      else if cmd = ''topology'' then Inr (json_counts snap)
      else if cmd = ''paths'' \<or> cmd = ''route'' then inspect_json_paths cmd args s w
      else if cmd = ''status''
      then Inr (json_counts snap @ '','' @ jkey ''measurements'' @ nat_to_string (measurement_count s))
      else Inl (Exit 2 (''unknown command: '' @ c_str cmd @ [CHR 0x0A])))"

definition inspect_json :: "string \<Rightarrow> string \<Rightarrow> string list \<Rightarrow> topology_snapshot \<Rightarrow> Registry.state \<Rightarrow> world \<Rightarrow> run_end" where
  "inspect_json bname cmd args snap s w =
     (let j = ''{'' @ jkey ''backend'' @ quoted (jesc bname) @ '','' @ jkey ''topology_gen'' @
            nat_to_string (unat (gen_value (topology_gen s))) @
            '','' @ jkey ''cmd'' @ quoted (jesc cmd)
      in case inspect_json_body cmd args snap s w of
           Inl e \<Rightarrow> e
         | Inr body \<Rightarrow> Exit 0 (c_str (j @ body) @ ''}'' @ [CHR 0x0A]))"

section \<open>The text report\<close>

definition text_device :: "device_record \<Rightarrow> string" where
  "text_device d = ''  device id='' @ id_to_string (dev_id d) @ '' name='' @ c_str (dev_logical_name d) @
     '' arch='' @ c_str (dev_architecture d) @ '' health='' @ device_health_name (dev_health d) @
     '' evidence='' @ c_str (evidence_describe (dev_evidence d)) @ [CHR 0x0A]"

definition text_link :: "link_record \<Rightarrow> string" where
  "text_link l = ''  link id='' @ id_to_string (lk_id l) @ '' src='' @ id_to_string (lk_source l) @
     '' tgt='' @ id_to_string (lk_target l) @ '' state='' @ link_state_name (lk_state l) @
     '' tech='' @ interconnect_technology_name (lk_technology l) @
     '' evidence='' @ c_str (evidence_describe (lk_evidence l)) @ [CHR 0x0A]"

fun text_paths :: "Registry.state \<Rightarrow> path list \<Rightarrow> world \<Rightarrow> string" where
  "text_paths s [] w = []"
| "text_paths s (p # ps) w = (let (e, w) = explain_path s p w in ''  '' @ c_str e @ [CHR 0x0A] @ text_paths s ps w)"

definition text_rejected :: "rejected_candidate \<Rightarrow> string" where
  "text_rejected rc = ''  rejected path='' @ id_to_string (rc_path rc) @
     '' reason='' @ rejection_reason_name (rc_reason rc) @ '' ('' @ c_str (rc_detail rc) @ '')'' @ [CHR 0x0A]"

definition text_route :: "route_decision \<Rightarrow> string" where
  "text_route dec = ''  outcome='' @ route_outcome_name (rd_outcome dec) @
     '' executable='' @ bit_string (rd_executable dec) @ [CHR 0x0A] @
     ''  explanation: '' @ c_str (rd_explanation dec) @ [CHR 0x0A] @ concat (map text_rejected (rd_rejected dec))"

definition inspect_text_paths :: "string \<Rightarrow> string list \<Rightarrow> Registry.state \<Rightarrow> world \<Rightarrow> nat \<times> string" where
  "inspect_text_paths cmd args s w =
     (case endpoints args of
        None \<Rightarrow> (2, ''paths/route requires SRC TGT'' @ [CHR 0x0A])
      | Some (src, tgt) \<Rightarrow>
          if cmd = ''paths''
          then (case enumerate_paths default_limits s src tgt w of
                  (Inl e, _) \<Rightarrow> (4, ''path enumeration error: '' @ c_str (error_to_string e) @ [CHR 0x0A])
                | (Inr paths, w) \<Rightarrow> (0, text_paths s paths w))
          else (case decide_route default_limits s s src tgt default_policy w of
                  (Inl e, _) \<Rightarrow> (4, ''route error: '' @ c_str (error_to_string e) @ [CHR 0x0A])
                | (Inr dec, _) \<Rightarrow> (0, text_route dec)))"

definition inspect_text_body :: "string \<Rightarrow> string list \<Rightarrow> topology_snapshot \<Rightarrow> Registry.state \<Rightarrow> world \<Rightarrow> nat \<times> string" where
  "inspect_text_body cmd args snap s w =
     (if cmd = ''devices'' then (0, concat (map text_device (snap_devices snap)))
      else if cmd = ''links'' then (0, concat (map text_link (snap_links snap)))
      else if cmd = ''topology''
      then (0, ''  devices='' @ nat_to_string (length (snap_devices snap)) @
               '' links='' @ nat_to_string (length (snap_links snap)) @ [CHR 0x0A])
      else if cmd = ''paths'' \<or> cmd = ''route'' then inspect_text_paths cmd args s w
      else if cmd = ''status''
      then (0, ''  topology_generation='' @ nat_to_string (unat (gen_value (topology_gen s))) @
               '' devices='' @ nat_to_string (length (snap_devices snap)) @
               '' links='' @ nat_to_string (length (snap_links snap)) @
               '' measurements='' @ nat_to_string (measurement_count s) @ [CHR 0x0A])
      else (2, ''unknown command: '' @ c_str cmd @ [CHR 0x0A]))"

definition inspect_text :: "string \<Rightarrow> string \<Rightarrow> string list \<Rightarrow> topology_snapshot \<Rightarrow> Registry.state \<Rightarrow> world \<Rightarrow> run_end" where
  "inspect_text bname cmd args snap s w =
     (let (code, body) = inspect_text_body cmd args snap s w
      in Exit code (''=== '' @ c_str cmd @ '' (backend='' @ c_str bname @ '', topology_generation='' @
           nat_to_string (unat (gen_value (topology_gen s))) @ '') ==='' @ [CHR 0x0A] @ body))"

definition inspect_usage :: string where
  "inspect_usage = ''usage: nvlink_fabric_inspect <cmd> [SRC TGT] [--backend synthetic|nvidia|nop] [--json]'' @ [CHR 0x0A] @
     ''cmds: devices links topology paths SRC TGT route SRC TGT status'' @ [CHR 0x0A]"

definition inspect_main :: "bool \<Rightarrow> nvidia_env \<Rightarrow> string list \<Rightarrow> world \<Rightarrow> run_end" where
  \<comment> \<open>\<open>argv\<close> without the program name\<close>
  "inspect_main with_nvidia env argv w =
     (case argv of
        [] \<Rightarrow> Exit 2 inspect_usage
      | cmd # rest \<Rightarrow>
          let (bname, json, args) = inspect_args rest ''synthetic'' False []
          in case inspect_load with_nvidia env bname w of
               Inl e \<Rightarrow> e
             | Inr (w, s) \<Rightarrow>
                 let (snap, w) = build_snapshot s w
                 in if json then inspect_json bname cmd args snap s w else inspect_text bname cmd args snap s w)"

section \<open>Reading JSON documents\<close>

datatype json = JNum nat | JStr string | JObj "(string \<times> json) list"

definition hex_value :: "char \<Rightarrow> nat option" where
  "hex_value c =
     (let v = of_char c :: nat
      in if 48 \<le> v \<and> v \<le> 57 then Some (v - 48) else if 97 \<le> v \<and> v \<le> 102 then Some (v - 87)
      else if 65 \<le> v \<and> v \<le> 70 then Some (v - 55) else None)"

definition simple_escape :: "char \<Rightarrow> char option" where
  "simple_escape e = map_of [(CHR 0x22, CHR 0x22), (CHR 0x5C, CHR 0x5C), (CHR ''/'', CHR ''/''), (CHR ''b'', CHR 0x08),
     (CHR ''f'', CHR 0x0C), (CHR ''n'', CHR 0x0A), (CHR ''r'', CHR 0x0D), (CHR ''t'', CHR 0x09)] e"

fun read_hex :: "nat \<Rightarrow> nat \<Rightarrow> string \<Rightarrow> (nat \<times> string) option" where
  "read_hex 0 acc s = Some (acc, s)"
| "read_hex (Suc k) acc [] = None"
| "read_hex (Suc k) acc (c # s) = (case hex_value c of None \<Rightarrow> None | Some v \<Rightarrow> read_hex k (acc * 16 + v) s)"

definition read_char :: "string \<Rightarrow> (char \<times> string) option" where
  \<comment> \<open>one character of a string literal, at the byte level: code points above one byte are refused\<close>
  "read_char s =
     (case s of
        [] \<Rightarrow> None
      | c # s \<Rightarrow>
          if c = CHR 0x5C
          then (case s of
                  [] \<Rightarrow> None
                | e # s \<Rightarrow>
                    if e = CHR ''u''
                    then (case read_hex 4 0 s of
                            None \<Rightarrow> None | Some (v, s) \<Rightarrow> if v < 256 then Some (char_of v, s) else None)
                    else map_option (\<lambda>c. (c, s)) (simple_escape e))
          else if (of_char c :: nat) < 32 \<or> c = CHR 0x22 then None
          else Some (c, s))"

fun read_string :: "nat \<Rightarrow> string \<Rightarrow> (string \<times> string) option" where
  \<comment> \<open>up to and including the closing quotation mark\<close>
  "read_string 0 s = None"
| "read_string (Suc n) s =
     (if s \<noteq> [] \<and> hd s = CHR 0x22 then Some ([], tl s)
      else case read_char s of
             None \<Rightarrow> None
           | Some (c, s) \<Rightarrow> map_option (\<lambda>(cs, s). (c # cs, s)) (read_string n s))"

fun read_value :: "nat \<Rightarrow> string \<Rightarrow> (json \<times> string) option"
  and read_members :: "nat \<Rightarrow> string \<Rightarrow> ((string \<times> json) list \<times> string) option" where
  "read_value 0 s = None"
| "read_value (Suc n) s =
     (case s of
        [] \<Rightarrow> None
      | c # s' \<Rightarrow>
          if c = CHR 0x22 then map_option (\<lambda>(v, r). (JStr v, r)) (read_string (length s) s')
          else if c = CHR ''{''
          then (if s' \<noteq> [] \<and> hd s' = CHR ''}'' then Some (JObj [], tl s')
                else map_option (\<lambda>(ms, r). (JObj ms, r)) (read_members n s'))
          else if is_digit c \<and> (c = CHR ''0'' \<longrightarrow> s' = [] \<or> \<not> is_digit (hd s'))
          then Some (JNum (parse_digits 0 s), dropWhile is_digit s)
          else None)"
| "read_members 0 s = None"
| "read_members (Suc n) s =
     (if s = [] \<or> hd s \<noteq> CHR 0x22 then None
      else case read_string (length s) (tl s) of
        Some (k, c # r) \<Rightarrow>
          if c \<noteq> CHR '':'' then None
          else (case read_value n r of
                  Some (v, d # r) \<Rightarrow>
                    if d = CHR ''}'' then Some ([(k, v)], r)
                    else if d = CHR '','' then map_option (\<lambda>(ms, r). ((k, v) # ms, r)) (read_members n r)
                    else None
                | _ \<Rightarrow> None)
      | _ \<Rightarrow> None)"

definition read_json :: "string \<Rightarrow> json option" where
  "read_json s = (case read_value (length s) s of Some (v, []) \<Rightarrow> Some v | _ \<Rightarrow> None)"

section \<open>Printing and reading are inverse\<close>

fun jprint :: "json \<Rightarrow> string" and jtail :: "(string \<times> json) list \<Rightarrow> string" where
  "jprint (JNum n) = nat_to_string n"
| "jprint (JStr s) = quoted (jesc s)"
| "jprint (JObj []) = ''{}''"
| "jprint (JObj ((k, v) # ms)) = ''{'' @ jkey (jesc k) @ jprint v @ jtail ms @ ''}''"
| "jtail [] = []"
| "jtail ((k, v) # ms) = '','' @ jkey (jesc k) @ jprint v @ jtail ms"

definition hex_char :: "nat \<Rightarrow> char" where
  "hex_char m = char_of (if m < 10 then 48 + m else 87 + m)"

lemma hex_value_char: "m < 16 \<Longrightarrow> hex_value (hex_char m) = Some m"
  by (simp add: hex_value_def hex_char_def Let_def)

lemma hex_pad_control: "n < 32 \<Longrightarrow> hex_pad 4 n = [CHR ''0'', CHR ''0'', hex_char (n div 16), hex_char (n mod 16)]"
proof -
  assume n: "n < 32"
  have one: "hex_digits m = [hex_char m]" if "m < 16" for m
    using that by (subst hex_digits.simps) (simp add: hex_char_def)
  have two: "hex_digits n = [hex_char (n div 16), hex_char (n mod 16)]" if "\<not> n < 16"
    using that n one [of "n div 16"] by (subst hex_digits.simps) (simp add: hex_char_def)
  show ?thesis
  proof (cases "n < 16")
    case True
    moreover have "hex_char 0 = CHR ''0''" by code_simp
    ultimately have "hex_char (n div 16) = CHR ''0''" by simp
    then show ?thesis using one [OF True] True by (simp add: hex_pad_def numeral_3_eq_3)
  next
    case False
    then show ?thesis using two by (simp add: hex_pad_def numeral_2_eq_2)
  qed
qed

lemma read_hex_control: "n < 32 \<Longrightarrow> read_hex 4 0 (hex_pad 4 n @ r) = Some (n, r)"
proof -
  assume n: "n < 32"
  have "hex_value (CHR ''0'') = Some 0" by (simp add: hex_value_def)
  moreover have "hex_value (hex_char (n div 16)) = Some (n div 16)" "hex_value (hex_char (n mod 16)) = Some (n mod 16)"
    using n by (auto intro!: hex_value_char)
  moreover have four: "(4 :: nat) = Suc (Suc (Suc (Suc 0)))" by simp
  ultimately show ?thesis by (subst hex_pad_control [OF n], subst four) simp
qed

lemma of_char_small: "(of_char c :: nat) < 256"
  by (metis of_char_mod_256 mod_less_divisor zero_less_numeral)

lemma read_char_jesc: "read_char (jesc_char c @ r) = Some (c, r)"
proof (cases "c \<in> {CHR 0x22, CHR 0x5C, CHR 0x0A, CHR 0x0D, CHR 0x09}")
  case True
  then show ?thesis by (auto simp: jesc_char_def read_char_def simple_escape_def)
next
  case False
  then show ?thesis
  proof (cases "(of_char c :: nat) < 32")
    case True
    with False show ?thesis by (simp add: jesc_char_def read_char_def read_hex_control)
  qed (simp add: jesc_char_def read_char_def)
qed

lemma jesc_char_head: "jesc_char c \<noteq> []" "hd (jesc_char c) \<noteq> CHR 0x22"
  by (auto simp: jesc_char_def)

lemma read_string_jesc: "length s < n \<Longrightarrow> read_string n (jesc s @ CHR 0x22 # r) = Some (s, r)"
proof (induction s arbitrary: n)
  case (Cons c s)
  obtain k where n: "n = Suc k" using Cons.prems by (cases n) auto
  have "jesc (c # s) @ CHR 0x22 # r = jesc_char c @ (jesc s @ CHR 0x22 # r)" by (simp add: jesc_def)
  moreover have "hd (jesc_char c @ x) \<noteq> CHR 0x22" for x using jesc_char_head [of c] by simp
  ultimately show ?case using Cons n jesc_char_head(1) [of c] by (simp add: read_char_jesc)
next
  case Nil
  then show ?case by (cases n) (simp_all add: jesc_def)
qed

lemma length_jesc: "length s \<le> length (jesc s)"
proof (induction s)
  case (Cons c s)
  then show ?case using jesc_char_head(1) [of c] by (cases "jesc_char c") (simp_all add: jesc_def)
qed simp

definition ends_number :: "string \<Rightarrow> bool" where
  "ends_number r \<longleftrightarrow> r = [] \<or> \<not> is_digit (hd r)"

lemma read_number:
  assumes "ends_number r"
  shows "read_value (Suc n) (nat_to_string k @ r) = Some (JNum k, r)"
proof -
  obtain c cs where cs: "nat_to_string k = c # cs" using nat_to_string_digits [of k] by (cases "nat_to_string k") auto
  have dig: "list_all is_digit (c # cs)" using nat_to_string_digits [of k] cs by simp
  have zero: "c = CHR ''0'' \<Longrightarrow> cs = []"
    using nat_to_string_zero [of k] cs by (auto simp: nat_to_string.simps)
  have rest: "dropWhile is_digit (c # cs @ r) = r"
    using dig assms by (cases r) (auto simp: ends_number_def dropWhile_append list_all_iff)
  have "parse_digits k r = k" using assms by (cases r) (auto simp: ends_number_def is_digit_def Let_def)
  then have "parse_digits 0 ((c # cs) @ r) = k" using parse_digits_append [OF dig, of 0 r] parse_nat_to_string [of k] cs by simp
  then show ?thesis using dig zero rest assms
    by (auto simp: cs ends_number_def is_digit_def)
qed

lemma read_members_step:
  assumes "\<And>n r. ends_number r \<Longrightarrow> length (jprint v) \<le> n \<Longrightarrow> read_value n (jprint v @ r) = Some (v, r)"
    and "length (jprint v) \<le> n" "ends_number (d # r)"
  shows "read_members (Suc n) (jkey (jesc k) @ jprint v @ d # r) =
    (if d = CHR ''}'' then Some ([(k, v)], r)
     else if d = CHR '','' then map_option (\<lambda>(ms, r). ((k, v) # ms, r)) (read_members n r) else None)"
proof -
  have "jkey (jesc k) @ jprint v @ d # r = CHR 0x22 # jesc k @ CHR 0x22 # CHR '':'' # jprint v @ d # r"
    by (simp add: jkey_def quoted_def)
  moreover have "read_string (Suc m) (jesc k @ CHR 0x22 # x) = Some (k, x)" if "length (jesc k) \<le> m" for m x
    using read_string_jesc [of k "Suc m" x] length_jesc [of k] that by simp
  ultimately show ?thesis using assms(1) [OF assms(3,2)] by simp
qed

lemma read_jprint:
  "ends_number r \<Longrightarrow> length (jprint v) \<le> n \<Longrightarrow> read_value n (jprint v @ r) = Some (v, r)"
  "(\<And>n r. ends_number r \<Longrightarrow> length (jprint v) \<le> n \<Longrightarrow> read_value n (jprint v @ r) = Some (v, r)) \<Longrightarrow>
    length (jprint v @ jtail ms) < n \<Longrightarrow>
    read_members n (jkey (jesc k) @ jprint v @ jtail ms @ CHR ''}'' # r) = Some ((k, v) # ms, r)"
proof (induction v and ms arbitrary: n r and n r k v rule: jprint_jtail.induct)
  case (1 k)
  then show ?case using nat_to_string_digits [of k] read_number by (cases n) auto
next
  case (2 s)
  then show ?case
    using read_string_jesc [of s _ r] length_jesc [of s] by (cases n) (auto simp: quoted_def simp del: read_string.simps)
next
  case 3
  then show ?case by (cases n) auto
next
  case (4 k v ms)
  obtain m where n: "n = Suc m" using "4.prems" by (cases n) auto
  have "read_members m (jkey (jesc k) @ jprint v @ jtail ms @ CHR ''}'' # r) = Some ((k, v) # ms, r)"
    using "4.prems" n by (intro "4.IH"(2) "4.IH"(1)) (auto simp: jkey_def quoted_def)
  then show ?case by (simp add: n jkey_def quoted_def)
next
  case 5
  then show ?case
    using read_members_step [of v _ "CHR ''}''" r k] by (cases n) (auto simp: ends_number_def is_digit_def)
next
  case (6 k' v' ms)
  obtain m where n: "n = Suc m" using "6.prems"(2) by (cases n) auto
  have "read_members m (jkey (jesc k') @ jprint v' @ jtail ms @ CHR ''}'' # r) = Some ((k', v') # ms, r)"
    using "6.prems" n by (intro "6.IH"(2) "6.IH"(1)) auto
  then show ?case
    using read_members_step [OF "6.prems"(1), of m "CHR '',''" _ k] "6.prems"(2)
    by (simp add: n ends_number_def is_digit_def)
qed

lemma read_json_jprint: "read_json (jprint v) = Some v"
  using read_jprint(1) [of "[]" v "length (jprint v)"] by (simp add: read_json_def ends_number_def)

section \<open>The reports as data\<close>

definition report_device :: "device_record \<Rightarrow> string \<times> json" where
  "report_device d = (''device'', JObj [(''id'', JNum (unat (id_value (dev_id d)))), (''name'', JStr (dev_logical_name d)),
     (''arch'', JStr (dev_architecture d)), (''health'', JStr (device_health_name (dev_health d))),
     (''evidence'', JStr (evidence_class_name (ev_class (dev_evidence d))))])"

definition report_link :: "link_record \<Rightarrow> string \<times> json" where
  "report_link l = (''link'', JObj [(''id'', JNum (unat (id_value (lk_id l)))), (''src'', JNum (unat (id_value (lk_source l)))),
     (''tgt'', JNum (unat (id_value (lk_target l)))), (''state'', JStr (link_state_name (lk_state l))),
     (''tech'', JStr (interconnect_technology_name (lk_technology l))),
     (''evidence'', JStr (evidence_class_name (ev_class (lk_evidence l))))])"

definition report_path :: "path \<Rightarrow> string \<times> json" where
  "report_path p = (''path'', JObj [(''id'', JNum (unat (id_value (p_id p)))), (''hops'', JNum (p_hop_count p)),
     (''direct'', JNum (of_bool (p_direct p)))])"

definition report_route :: "route_decision \<Rightarrow> (string \<times> json) list" where
  "report_route dec = [(''outcome'', JStr (route_outcome_name (rd_outcome dec))),
     (''executable'', JNum (of_bool (rd_executable dec))), (''explanation'', JStr (rd_explanation dec))]"

definition report_counts :: "topology_snapshot \<Rightarrow> (string \<times> json) list" where
  "report_counts snap = [(''devices'', JNum (length (snap_devices snap))), (''links'', JNum (length (snap_links snap)))]"

definition report_members :: "string \<Rightarrow> string list \<Rightarrow> topology_snapshot \<Rightarrow> Registry.state \<Rightarrow> world \<Rightarrow> (string \<times> json) list option" where
  "report_members cmd args snap s w =
     (if cmd = ''devices'' then Some (map report_device (snap_devices snap))
      else if cmd = ''links'' then Some (map report_link (snap_links snap))
      else if cmd = ''topology'' then Some (report_counts snap)
      else if cmd = ''status'' then Some (report_counts snap @ [(''measurements'', JNum (measurement_count s))])
      else case endpoints args of
             None \<Rightarrow> None
           | Some (src, tgt) \<Rightarrow>
               if cmd = ''paths''
               then (case enumerate_paths default_limits s src tgt w of (Inl _, _) \<Rightarrow> None | (Inr ps, _) \<Rightarrow> Some (map report_path ps))
               else if cmd = ''route''
               then (case decide_route default_limits s s src tgt default_policy w of
                       (Inl _, _) \<Rightarrow> None | (Inr dec, _) \<Rightarrow> Some (report_route dec))
               else None)"

lemma jtail_append [simp]: "jtail (xs @ ys) = jtail xs @ jtail ys"
  by (induction xs) auto

lemma jtail_map: "(\<And>x. jtail [f x] = g x) \<Longrightarrow> jtail (map f xs) = concat (map g xs)"
proof (induction xs)
  case (Cons x xs)
  then show ?case using jtail_append [of "[f x]" "map f xs"] by simp
qed simp

lemma jesc_simps: "jesc [] = []" "jesc (c # s) = jesc_char c @ jesc s"
  by (simp_all add: jesc_def)

lemma jesc_names [simp]:
  "jesc (device_health_name h) = device_health_name h" "jesc (evidence_class_name e) = evidence_class_name e"
  "jesc (link_state_name l) = link_state_name l" "jesc (interconnect_technology_name t) = interconnect_technology_name t"
  "jesc (route_outcome_name u) = route_outcome_name u"
proof -
  show "jesc (device_health_name h) = device_health_name h" by (cases h) (simp_all add: jesc_simps jesc_char_def)
  show "jesc (evidence_class_name e) = evidence_class_name e" by (cases e) (simp_all add: jesc_simps jesc_char_def)
  show "jesc (link_state_name l) = link_state_name l" by (cases l) (simp_all add: jesc_simps jesc_char_def)
  show "jesc (interconnect_technology_name t) = interconnect_technology_name t"
    by (cases t) (simp_all add: jesc_simps jesc_char_def)
  show "jesc (route_outcome_name u) = route_outcome_name u" by (cases u) (simp_all add: jesc_simps jesc_char_def)
qed

lemma bit_string_nat: "bit_string b = nat_to_string (of_bool b)"
  by (cases b) (simp_all add: bit_string_def nat_to_string.simps, code_simp+)

lemma report_prints:
  "jtail [report_device d] = json_device d" "jtail [report_link l] = json_link l" "jtail [report_path p] = json_path p"
  "jtail (report_counts snap) = json_counts snap"
  by (simp_all add: report_device_def json_device_def report_link_def json_link_def report_path_def json_path_def
      report_counts_def json_counts_def id_to_string_def bit_string_nat jesc_simps jesc_char_def)

text \<open>Everything that is printed is at least a space, so \<open>c_str\<close> cuts nothing off.\<close>

definition printable :: "char \<Rightarrow> bool" where
  "printable c \<longleftrightarrow> 32 \<le> (of_char c :: nat)"

lemma printable_chars [simp]:
  "printable (CHR 0x5C)" "printable (CHR 0x22)" "printable (CHR ''n'')" "printable (CHR ''r'')" "printable (CHR ''t'')"
  "printable (CHR ''u'')" "printable (CHR ''0'')" "printable (CHR ''{'')" "printable (CHR ''}'')" "printable (CHR '','')"
  "printable (CHR '':'')"
  by (simp_all add: printable_def)

lemma jesc_printable: "list_all printable (jesc s)"
proof (induction s)
  case (Cons c s)
  have "list_all printable (jesc_char c)"
  proof (cases "(of_char c :: nat) < 32")
    case True
    have hex: "printable (hex_char m)" if "m < 16" for m using that by (simp add: printable_def hex_char_def)
    have "(of_char c :: nat) div 16 < 16" using True by simp
    then have "list_all printable (hex_pad 4 (of_char c))" using hex by (simp add: hex_pad_control [OF True])
    then show ?thesis using True by (simp add: jesc_char_def)
  qed (auto simp: jesc_char_def printable_def)
  then show ?case using Cons by (simp add: jesc_simps)
qed (simp add: jesc_simps)

lemma jprint_printable: "list_all printable (jprint v)" "list_all printable (jtail ms)"
proof (induction v and ms rule: jprint_jtail.induct)
  case (1 n)
  show ?case using nat_to_string_digits [of n] by (auto simp: list_all_iff is_digit_def printable_def)
qed (simp_all add: jesc_printable quoted_def jkey_def)

lemma c_str_printable: "list_all printable s \<Longrightarrow> c_str s = s"
  by (auto simp: c_str_def list_all_iff printable_def takeWhile_eq_all_conv)

lemma body_reports:
  "case report_members cmd args snap s w of
     Some ms \<Rightarrow> inspect_json_body cmd args snap s w = Inr (jtail ms)
   | None \<Rightarrow> \<exists>code out. inspect_json_body cmd args snap s w = Inl (Exit code out) \<and> code \<in> {2, 4}"
proof -
  have lists: "jtail (map report_device ds) = concat (map json_device ds)" "jtail (map report_link ls) = concat (map json_link ls)"
    "jtail (map report_path ps) = concat (map json_path ps)" for ds ls ps
    by (simp_all add: jtail_map report_prints)
  have route: "jtail (report_route dec) = '','' @ jkey ''outcome'' @ quoted (route_outcome_name (rd_outcome dec)) @
      '','' @ jkey ''executable'' @ bit_string (rd_executable dec) @
      '','' @ jkey ''explanation'' @ quoted (jesc (rd_explanation dec))" for dec
    by (simp add: report_route_def bit_string_nat jesc_simps jesc_char_def)
  have "jesc ''measurements'' = ''measurements''" by (simp add: jesc_simps jesc_char_def)
  then show ?thesis
    by (auto simp: report_members_def inspect_json_body_def inspect_json_paths_def lists route report_prints
        split: option.splits sum.splits prod.splits)
qed

text \<open>
  C34: The JSON report is a JSON document of the data it reports. For every backend name, command and
  argument list the tool either exits with code 2 or 4 or prints one line: printable characters only, and a
  reader of JSON documents gets back the backend name and the command as they were given, the topology
  generation, and then one member per device, link or path of the snapshot, in its order and with
  the names as they are stored, whatever characters they contain.
\<close>

theorem inspect_json_reads_back:
  "case report_members cmd args snap s w of
     Some ms \<Rightarrow> \<exists>doc. inspect_json bname cmd args snap s w = Exit 0 (doc @ [CHR 0x0A]) \<and> list_all printable doc \<and>
       read_json doc = Some (JObj ((''backend'', JStr bname) #
         (''topology_gen'', JNum (unat (gen_value (topology_gen s)))) # (''cmd'', JStr cmd) # ms))
   | None \<Rightarrow> \<exists>code out. inspect_json bname cmd args snap s w = Exit code out \<and> code \<in> {2, 4}"
proof (cases "report_members cmd args snap s w")
  case None
  then show ?thesis using body_reports [of cmd args snap s w] by (auto simp: inspect_json_def)
next
  case (Some ms)
  let ?v = "JObj ((''backend'', JStr bname) # (''topology_gen'', JNum (unat (gen_value (topology_gen s)))) #
    (''cmd'', JStr cmd) # ms)"
  define j where "j = ''{'' @ jkey ''backend'' @ quoted (jesc bname) @ '','' @ jkey ''topology_gen'' @
    nat_to_string (unat (gen_value (topology_gen s))) @ '','' @ jkey ''cmd'' @ quoted (jesc cmd) @ jtail ms"
  have doc: "jprint ?v = j @ ''}''" by (simp add: j_def jesc_simps jesc_char_def)
  have "list_all printable (jprint ?v)" by (rule jprint_printable)
  then have "list_all printable j" unfolding doc by simp
  then have "c_str j = j" by (rule c_str_printable)
  then have "inspect_json bname cmd args snap s w = Exit 0 (jprint ?v @ [CHR 0x0A])"
    unfolding doc using body_reports [of cmd args snap s w] Some by (simp add: inspect_json_def j_def)
  then show ?thesis using jprint_printable(1) [of ?v] read_json_jprint [of ?v] Some by auto
qed

section \<open>Exit codes\<close>

definition known_backend :: "bool \<Rightarrow> string \<Rightarrow> bool" where
  "known_backend with_nvidia b \<longleftrightarrow> b = ''synthetic'' \<or> b = ''nop'' \<or> with_nvidia \<and> b = ''nvidia''"

lemma nvidia_links_empty: "fst (nvidia_discover_links env inited) = ok []"
  by (auto simp: nvidia_discover_links_def Let_def split: prod.splits option.splits)

lemma inspect_load_cases:
  "case inspect_load with_nvidia env b w of
     Inr _ \<Rightarrow> known_backend with_nvidia b
   | Inl e \<Rightarrow> \<exists>code out. e = Exit code out \<and>
       (code = 2 \<and> \<not> known_backend with_nvidia b \<or> code = 3 \<and> with_nvidia \<and> b = ''nvidia'')"
proof -
  have "load_synthetic default_limits inspect_spec w \<noteq> None"
    using load_synthetic_total [of default_limits inspect_spec w] by force
  moreover have "case inspect_nvidia env w of Inr _ \<Rightarrow> True | Inl e \<Rightarrow> \<exists>out. e = Exit 3 out"
    using nvidia_links_empty [of env]
    by (auto simp: inspect_nvidia_def split: sum.splits prod.splits) (metis fst_conv sum.distinct(1))+
  ultimately show ?thesis
    by (auto simp: inspect_load_def known_backend_def nop_discover_devices_def split: option.splits sum.splits prod.splits)
qed

lemma text_body_code: "fst (inspect_text_body cmd args snap s w) =
    (case report_members cmd args snap s w of Some _ \<Rightarrow> 0
     | None \<Rightarrow> if cmd = ''paths'' \<and> endpoints args \<noteq> None then 4 else 2)"
  by (auto simp: inspect_text_body_def inspect_text_paths_def report_members_def decide_route_def
      split: option.splits sum.splits prod.splits)

lemma json_code: "\<exists>out. inspect_json b cmd args snap s w = Exit
    (case report_members cmd args snap s w of Some _ \<Rightarrow> 0
     | None \<Rightarrow> if cmd = ''paths'' \<and> endpoints args \<noteq> None then 4 else 2) out"
  by (auto simp: inspect_json_def inspect_json_body_def inspect_json_paths_def report_members_def decide_route_def
      split: option.splits sum.splits prod.splits)

text \<open>
  C35: The exit code of the inspection tool. No run is ended by an exception. Once a known backend has
  been loaded, the text and the JSON form of the same command end with the same code: 0 when there is a
  report, 4 when the endpoints of \<open>paths\<close> are refused, 2 when the command is unknown or its
  endpoints are missing; before that the code is 2 without a command or with an unknown backend and
  3 when the NVIDIA backend has nothing to offer.
\<close>

theorem inspect_main_exits:
  "case argv of
     [] \<Rightarrow> inspect_main with_nvidia env argv w = Exit 2 inspect_usage
   | cmd # rest \<Rightarrow>
       (case inspect_args rest ''synthetic'' False [] of (b, json, args) \<Rightarrow>
         (case inspect_load with_nvidia env b w of
            Inl _ \<Rightarrow> \<exists>code out. inspect_main with_nvidia env argv w = Exit code out \<and>
              (code = 2 \<and> \<not> known_backend with_nvidia b \<or> code = 3 \<and> with_nvidia \<and> b = ''nvidia'')
          | Inr (w', s) \<Rightarrow> known_backend with_nvidia b \<and>
              (\<exists>out. inspect_main with_nvidia env argv w = Exit
                (case report_members cmd args (fst (build_snapshot s w')) s (snd (build_snapshot s w')) of
                   Some _ \<Rightarrow> 0
                 | None \<Rightarrow> if cmd = ''paths'' \<and> endpoints args \<noteq> None then 4 else 2) out)))"
proof (cases argv)
  case (Cons cmd rest)
  obtain b json args where parsed: "inspect_args rest ''synthetic'' False [] = (b, json, args)" by (metis prod_cases3)
  show ?thesis
  proof (cases "inspect_load with_nvidia env b w")
    case (Inl e)
    then show ?thesis using inspect_load_cases [where with_nvidia = with_nvidia and env = env and b = b and w = w] Cons parsed by (auto simp: inspect_main_def)
  next
    case (Inr ws)
    obtain w' s where ws: "ws = (w', s)" by force
    let ?snap = "fst (build_snapshot s w')" and ?w = "snd (build_snapshot s w')"
    have "inspect_main with_nvidia env argv w =
        (if json then inspect_json b cmd args ?snap s ?w else inspect_text b cmd args ?snap s ?w)"
      using Cons parsed Inr ws by (simp add: inspect_main_def case_prod_beta)
    moreover have "\<exists>out. inspect_text b cmd args ?snap s ?w = Exit (fst (inspect_text_body cmd args ?snap s ?w)) out"
      by (simp add: inspect_text_def case_prod_beta)
    ultimately show ?thesis
      using Cons parsed Inr ws inspect_load_cases [where with_nvidia = with_nvidia and env = env and b = b and w = w] json_code [of b cmd args ?snap s ?w]
      by (auto simp: text_body_code)
  qed
qed (simp add: inspect_main_def)

end
