(* ===== verification/Timestamps.thy ===== *)
theory Timestamps
  imports Text_Format "HOL-Library.Signed_Division"
begin

text \<open>
  \<open>Timestamp::to_string\<close> (\<open>time.hpp\<close>): the calendar form of a wall-clock reading. \<open>localtime_r\<close> is
  modelled as the C library documents it, the Gregorian calendar of the seconds since the epoch moved by
  the offset of the local time zone; the time zone database is the parameter \<open>tz\<close>.
  Shown: the printed text reads back as the instant moved by the zone's offset, and in UTC as the instant itself.
\<close>

section \<open>The Gregorian calendar\<close>

record broken_time =
  tm_year :: int \<comment> \<open>years since 1900\<close>
  tm_mon :: nat \<comment> \<open>months since January\<close>
  tm_mday :: int
  tm_hour :: int
  tm_min :: int
  tm_sec :: int

definition leap_year :: "int \<Rightarrow> bool" where
  "leap_year y \<longleftrightarrow> y mod 4 = 0 \<and> (y mod 100 \<noteq> 0 \<or> y mod 400 = 0)"

definition year_length :: "int \<Rightarrow> int" where
  "year_length y = (if leap_year y then 366 else 365)"

definition leap_years_upto :: "int \<Rightarrow> int" where
  "leap_years_upto y = y div 4 - y div 100 + y div 400"

definition days_before_year :: "int \<Rightarrow> int" where
  \<comment> \<open>days from the epoch to the first of January\<close>
  "days_before_year y = 365 * (y - 1970) + leap_years_upto (y - 1) - leap_years_upto 1969"

lemma div_pred: "0 < k \<Longrightarrow> y div k = (y - 1) div k + (if y mod k = 0 then 1 else 0)" for y k :: int
proof -
  assume k: "0 < k"
  show ?thesis
  proof (cases "y mod k = 0")
    case True
    then obtain q where "y = k * q" by (metis mod_0_imp_dvd dvdE)
    moreover have "(k * q - 1) div k = q - 1"
      using k by (intro int_div_pos_eq [where r = "k - 1"]) (simp_all add: algebra_simps)
    ultimately show ?thesis using True k by simp
  next
    case False
    then have "0 < y mod k" using k pos_mod_sign [of k y] by linarith
    moreover have "y - 1 = k * (y div k) + (y mod k - 1)" by simp
    ultimately have "(y - 1) div k = y div k"
      using k pos_mod_bound [of k y] by (intro int_div_pos_eq [where r = "y mod k - 1"]) linarith+
    then show ?thesis using False by simp
  qed
qed

lemma leap_rule: "p = p' + of_bool a \<Longrightarrow> q = q' + of_bool b \<Longrightarrow> r = r' + of_bool c \<Longrightarrow> (c \<Longrightarrow> b) \<Longrightarrow> (b \<Longrightarrow> a) \<Longrightarrow>
    p - q + r = p' - q' + r' + of_bool (a \<and> (\<not> b \<or> c))" for p q r :: int
  by (cases a; cases b; cases c) auto

lemma leap_years_step: "leap_years_upto y = leap_years_upto (y - 1) + of_bool (leap_year y)"
  unfolding leap_years_upto_def leap_year_def
proof (rule leap_rule)
  show "y mod 400 = 0 \<Longrightarrow> y mod 100 = 0" "y mod 100 = 0 \<Longrightarrow> y mod 4 = 0"
    using dvd_trans [of 100 400 y] dvd_trans [of 4 100 y] by (simp_all add: dvd_eq_mod_eq_0)
qed (simp_all only: of_bool_def, (rule div_pred; simp)+)

lemma days_before_next: "days_before_year (y + 1) = days_before_year y + year_length y"
  using leap_years_step [of y] by (simp add: days_before_year_def year_length_def)

lemma days_before_strict: "y < y' \<Longrightarrow> days_before_year y < days_before_year y'"
proof (induction "nat (y' - y)" arbitrary: y')
  case (Suc n)
  have "days_before_year (y' - 1) < days_before_year y'"
    using days_before_next [of "y' - 1"] by (simp add: year_length_def split: if_splits)
  moreover have "y = y' - 1 \<or> days_before_year y < days_before_year (y' - 1)"
    using Suc.hyps(1) [of "y' - 1"] Suc.hyps(2) Suc.prems by force
  ultimately show ?case by fastforce
qed simp

function year_from :: "int \<Rightarrow> int \<Rightarrow> int" where
  "year_from z y = (if days_before_year (y + 1) \<le> z then year_from z (y + 1) else y)"
  by pat_completeness auto
termination
  by (relation "measure (\<lambda>(z, y). nat (z - days_before_year y))")
    (auto simp: days_before_next year_length_def split: if_splits)

declare year_from.simps [simp del]

definition year_of :: "int \<Rightarrow> int" where
  \<comment> \<open>the year of a day, searched upwards from a year that is not too late\<close>
  "year_of z = year_from z (1970 + z div (if z < 0 then 365 else 366))"

lemma year_from_bounds: "days_before_year y \<le> z \<Longrightarrow>
    days_before_year (year_from z y) \<le> z \<and> z < days_before_year (year_from z y + 1)"
proof (induction z y rule: year_from.induct)
  case (1 z y)
  then show ?case by (cases "days_before_year (y + 1) \<le> z") (auto simp: year_from.simps [of z y])
qed

lemma leap_years_bounds:
  "leap_years_upto (1969 + int n) - leap_years_upto 1969 \<le> int n" "leap_years_upto (1969 - int n) \<le> leap_years_upto 1969"
proof (induction n)
  case (Suc n)
  { case 1 show ?case using Suc(1) leap_years_step [of "1969 + int (Suc n)"] by (simp add: of_bool_def split: if_splits) }
  { case 2 show ?case using Suc(2) leap_years_step [of "1969 - int n"] by (simp add: of_bool_def algebra_simps split: if_splits) }
qed simp_all

lemma year_of_bounds: "days_before_year (year_of z) \<le> z" "z < days_before_year (year_of z + 1)"
proof -
  have "days_before_year (1970 + z div (if z < 0 then 365 else 366)) \<le> z"
  proof (cases "z < 0")
    case True
    then have "z div 365 < 0" by (simp add: neg_imp_zdiv_neg_iff)
    then obtain n where "- (z div 365) = int n" using zero_le_imp_eq_int [of "- (z div 365)"] by auto
    then have n: "z div 365 = - int n" by linarith
    have "365 * (z div 365) \<le> z" by simp
    then show ?thesis using leap_years_bounds(2) [of n] True n by (simp add: days_before_year_def)
  next
    case False
    then have "0 \<le> z div 366" by (simp add: pos_imp_zdiv_nonneg_iff)
    then obtain n where n: "z div 366 = int n" using zero_le_imp_eq_int by blast
    have "366 * (z div 366) \<le> z" by simp
    then show ?thesis using leap_years_bounds(1) [of n] False n by (simp add: days_before_year_def)
  qed
  from year_from_bounds [OF this] show "days_before_year (year_of z) \<le> z" "z < days_before_year (year_of z + 1)"
    by (simp_all add: year_of_def)
qed

lemma days_before_mono: "y \<le> y' \<Longrightarrow> days_before_year y \<le> days_before_year y'"
  using days_before_strict [of y y'] by (cases "y = y'") auto

lemma year_of_between:
  assumes "days_before_year a \<le> z" "z < days_before_year b"
  shows "a \<le> year_of z" "year_of z < b"
proof -
  show "a \<le> year_of z" using days_before_mono [of "year_of z + 1" a] year_of_bounds(2) [of z] assms(1) by linarith
  show "year_of z < b" using days_before_mono [of b "year_of z"] year_of_bounds(1) [of z] assms(2) by linarith
qed

section \<open>Broken-down time\<close>

definition month_lengths :: "int \<Rightarrow> int list" where
  "month_lengths y = [31, if leap_year y then 29 else 28, 31, 30, 31, 30, 31, 31, 30, 31, 30, 31]"

fun month_day :: "int list \<Rightarrow> int \<Rightarrow> nat \<times> int" where
  \<comment> \<open>the month in which a day of the year falls, and the days before it in that month\<close>
  "month_day [] d = (0, d)"
| "month_day (l # ls) d = (if d < l then (0, d) else let (m, r) = month_day ls (d - l) in (Suc m, r))"

definition broken_down :: "int \<Rightarrow> broken_time" where
  "broken_down t =
     (let z = t div 86400; r = t mod 86400; y = year_of z;
          (m, d) = month_day (month_lengths y) (z - days_before_year y)
      in \<lparr>tm_year = y - 1900, tm_mon = m, tm_mday = d + 1, tm_hour = r div 3600, tm_min = r mod 3600 div 60,
          tm_sec = r mod 60\<rparr>)"

definition localtime :: "(int \<Rightarrow> int) \<Rightarrow> int \<Rightarrow> broken_time" where
  "localtime tz secs = broken_down (secs + tz secs)"

definition seconds_of :: "int \<Rightarrow> nat \<Rightarrow> int \<Rightarrow> int \<Rightarrow> int \<Rightarrow> int \<Rightarrow> int" where
  \<comment> \<open>the seconds from the epoch to a date and time, month and day counted from one\<close>
  "seconds_of y m d h mi s =
     (days_before_year y + sum_list (take (m - 1) (month_lengths y)) + (d - 1)) * 86400 + h * 3600 + mi * 60 + s"

lemma month_day_counts:
  "0 \<le> d \<Longrightarrow> d < sum_list ls \<Longrightarrow> month_day ls d = (m, r) \<Longrightarrow>
    m < length ls \<and> sum_list (take m ls) + r = d \<and> 0 \<le> r \<and> r < ls ! m"
proof (induction ls arbitrary: d m)
  case (Cons l ls)
  show ?case
  proof (cases "d < l")
    case False
    obtain m' where m': "month_day ls (d - l) = (m', r)" "m = Suc m'"
      using Cons.prems(3) False by (auto split: prod.splits)
    then show ?thesis using Cons.IH [OF _ _ m'(1)] Cons.prems False by simp
  qed (use Cons.prems in auto)
qed simp

lemma month_lengths_sum: "sum_list (month_lengths y) = year_length y" "length (month_lengths y) = 12"
  by (simp_all add: month_lengths_def year_length_def)

definition valid_time :: "int \<Rightarrow> nat \<Rightarrow> int \<Rightarrow> int \<Rightarrow> int \<Rightarrow> int \<Rightarrow> bool" where
  "valid_time y m d h mi s \<longleftrightarrow> 1 \<le> m \<and> m \<le> 12 \<and> 1 \<le> d \<and> d \<le> month_lengths y ! (m - 1) \<and>
     0 \<le> h \<and> h < 24 \<and> 0 \<le> mi \<and> mi < 60 \<and> 0 \<le> s \<and> s < 60"

lemma day_split: "(t div 86400) * 86400 + (t mod 86400 div 3600) * 3600 + (t mod 86400 mod 3600 div 60) * 60 + t mod 86400 mod 60 = t"
  for t :: int
proof -
  have "t mod 86400 mod 3600 mod 60 = t mod 86400 mod 60" by (rule mod_mod_cancel) simp
  then show ?thesis
    using div_mult_mod_eq [of t 86400] div_mult_mod_eq [of "t mod 86400" 3600] div_mult_mod_eq [of "t mod 86400 mod 3600" 60]
    by linarith
qed

lemma broken_down_correct:
  assumes "broken_down t = b"
  shows "valid_time (tm_year b + 1900) (tm_mon b + 1) (tm_mday b) (tm_hour b) (tm_min b) (tm_sec b)"
    "seconds_of (tm_year b + 1900) (tm_mon b + 1) (tm_mday b) (tm_hour b) (tm_min b) (tm_sec b) = t"
    "tm_year b + 1900 = year_of (t div 86400)"
proof -
  let ?z = "t div 86400"
  let ?y = "year_of ?z"
  obtain m d where md: "month_day (month_lengths ?y) (?z - days_before_year ?y) = (m, d)" by force
  have "0 \<le> ?z - days_before_year ?y" "?z - days_before_year ?y < sum_list (month_lengths ?y)"
    using year_of_bounds [of ?z] days_before_next [of ?y] by (simp_all add: month_lengths_sum)
  note m = month_day_counts [OF this md]
  have b: "b = \<lparr>tm_year = ?y - 1900, tm_mon = m, tm_mday = d + 1, tm_hour = t mod 86400 div 3600,
      tm_min = t mod 86400 mod 3600 div 60, tm_sec = t mod 86400 mod 60\<rparr>"
    using assms md by (simp add: broken_down_def Let_def)
  show "tm_year b + 1900 = ?y" by (simp add: b)
  have r: "0 \<le> t mod 86400" "t mod 86400 < 86400" "0 \<le> t mod 86400 mod 3600" "t mod 86400 mod 3600 < 3600" by simp_all
  have "t mod 86400 div 3600 * 3600 \<le> t mod 86400" "t mod 86400 mod 3600 div 60 * 60 \<le> t mod 86400 mod 3600" by simp_all
  then have "t mod 86400 div 3600 < 24" "t mod 86400 mod 3600 div 60 < 60" using r by linarith+
  moreover have "0 \<le> t mod 86400 div 3600" "0 \<le> t mod 86400 mod 3600 div 60" by (simp_all add: pos_imp_zdiv_nonneg_iff)
  ultimately show "valid_time (tm_year b + 1900) (tm_mon b + 1) (tm_mday b) (tm_hour b) (tm_min b) (tm_sec b)"
    using m by (simp add: b valid_time_def month_lengths_sum)
  show "seconds_of (tm_year b + 1900) (tm_mon b + 1) (tm_mday b) (tm_hour b) (tm_min b) (tm_sec b) = t"
  proof -
    have "days_before_year ?y + sum_list (take m (month_lengths ?y)) + d = ?z" using m by linarith
    then show ?thesis using day_split [of t] by (simp only: b seconds_of_def broken_time.simps add_diff_cancel_right' diff_add_cancel)
  qed
qed

section \<open>The printed form\<close>

lemma truncating_nonneg: "0 \<le> a \<Longrightarrow> a sdiv k = sgn k * (a div \<bar>k\<bar>)" "0 \<le> a \<Longrightarrow> 0 < k \<Longrightarrow> a smod k = a mod k" for a k :: int
  by (cases "a = 0"; simp add: signed_divide_int_def signed_modulo_int_def)+

definition timestamp_to_string :: "(int \<Rightarrow> int) \<Rightarrow> timestamp \<Rightarrow> string" where
  \<comment> \<open>\<open>/\<close> and \<open>%\<close> truncate towards zero; \<open>snprintf\<close> writes at most 39 characters\<close>
  "timestamp_to_string tz t =
     (if \<not> ts_valid t then ''invalid''
      else let secs = sint (unix_ns t) sdiv 1000000000;
               ms = (sint (unix_ns t) smod 1000000000) sdiv 1000000;
               tmv = localtime tz secs
      in take 39 (int_pad 4 (tm_year tmv + 1900) @ ''-'' @ int_pad 2 (int (tm_mon tmv) + 1) @ ''-'' @
           int_pad 2 (tm_mday tmv) @ ''T'' @ int_pad 2 (tm_hour tmv) @ '':'' @ int_pad 2 (tm_min tmv) @ '':'' @
           int_pad 2 (tm_sec tmv) @ ''.'' @ int_pad 3 ms))"

definition field :: "string \<Rightarrow> nat \<Rightarrow> nat \<Rightarrow> nat" where
  \<comment> \<open>the number in a column of the text\<close>
  "field s i k = parse_digits 0 (take k (drop i s))"

definition read_milliseconds :: "string \<Rightarrow> int" where
  "read_milliseconds s =
     seconds_of (int (field s 0 4)) (field s 5 2) (int (field s 8 2)) (int (field s 11 2)) (int (field s 14 2))
       (int (field s 17 2)) * 1000 + int (field s 20 3)"

definition iso_text :: "string \<Rightarrow> bool" where
  \<comment> \<open>\<open>YYYY-MM-DDThh:mm:ss.mmm\<close> with a date of the calendar and a time of the day\<close>
  "iso_text s \<longleftrightarrow> length s = 23 \<and> map ((!) s) [4, 7, 10, 13, 16, 19] = ''--T::.'' \<and>
     valid_time (int (field s 0 4)) (field s 5 2) (int (field s 8 2)) (int (field s 11 2)) (int (field s 14 2))
       (int (field s 17 2)) \<and> field s 20 3 < 1000"

lemma int_pad_nat: "0 \<le> i \<Longrightarrow> int_pad k i = dec_pad k (nat i)"
  by (simp add: int_pad_def)

lemma fields_of_text:
  assumes "length a = 4" "length b = 2" "length c = 2" "length d = 2" "length e = 2" "length f = 2" "length g = 3"
  defines "text \<equiv> a @ ''-'' @ b @ ''-'' @ c @ ''T'' @ d @ '':'' @ e @ '':'' @ f @ ''.'' @ g"
  shows "field text 0 4 = parse_digits 0 a" "field text 5 2 = parse_digits 0 b" "field text 8 2 = parse_digits 0 c"
    "field text 11 2 = parse_digits 0 d" "field text 14 2 = parse_digits 0 e" "field text 17 2 = parse_digits 0 f"
    "field text 20 3 = parse_digits 0 g" "length text = 23" "map ((!) text) [4, 7, 10, 13, 16, 19] = ''--T::.''"
  using assms(1-7) by (simp_all add: text_def field_def nth_append)

lemma text_reads_back:
  assumes "valid_time y m d h mi s" "0 \<le> y" "y < 10000" "0 \<le> ms" "ms < 1000"
  defines "text \<equiv> int_pad 4 y @ ''-'' @ int_pad 2 (int m) @ ''-'' @ int_pad 2 d @ ''T'' @ int_pad 2 h @ '':'' @
    int_pad 2 mi @ '':'' @ int_pad 2 s @ ''.'' @ int_pad 3 ms"
  shows "iso_text text" "read_milliseconds text = seconds_of y m d h mi s * 1000 + ms" "length text = 23"
proof -
  have d: "1 \<le> d" "d < 100"
  proof -
    have "m - 1 < length (month_lengths y)" using assms(1) by (auto simp: valid_time_def month_lengths_sum)
    then have "month_lengths y ! (m - 1) \<in> set (month_lengths y)" by (rule nth_mem)
    then have "month_lengths y ! (m - 1) \<le> 31" by (auto simp: month_lengths_def split: if_splits)
    then show "1 \<le> d" "d < 100" using assms(1) by (auto simp: valid_time_def)
  qed
  have len: "length (int_pad k i) = k" if "0 < k" "0 \<le> i" "i < 10 ^ k" for k i
  proof -
    have "nat i < 10 ^ k" using that by (simp add: nat_less_iff)
    then show ?thesis using that dec_pad_length by (simp add: int_pad_nat)
  qed
  note fits = len [of 4 y] len [of 2 "int m"] len [of 2 d] len [of 2 h] len [of 2 mi] len [of 2 s] len [of 3 ms]
  have lens: "length (int_pad 4 y) = 4" "length (int_pad 2 (int m)) = 2" "length (int_pad 2 d) = 2"
    "length (int_pad 2 h) = 2" "length (int_pad 2 mi) = 2" "length (int_pad 2 s) = 2" "length (int_pad 3 ms) = 3"
    using fits assms(1-5) d by (simp_all add: valid_time_def)
  note fields = fields_of_text [OF lens, folded text_def]
  show "length text = 23" by (rule fields(8))
  show "iso_text text" "read_milliseconds text = seconds_of y m d h mi s * 1000 + ms"
    using assms(1-5) d fields(9)
    by (simp_all add: iso_text_def read_milliseconds_def fields(1-8) int_pad_nat parse_dec_pad valid_time_def nat_less_iff)
qed

text \<open>
  In any time zone at most a day off, the text of a valid reading that is not before the epoch is the instant
  moved by the offset of the zone.
\<close>

lemma timestamp_string_local:
  assumes "ts_valid t" "0 \<le> sint (unix_ns t)" "\<bar>tz (sint (unix_ns t) div 1000000000)\<bar> \<le> 86400"
  shows "iso_text (timestamp_to_string tz t) \<and>
    read_milliseconds (timestamp_to_string tz t) =
      sint (unix_ns t) div 1000000 + 1000 * tz (sint (unix_ns t) div 1000000000)"
proof -
  define n where "n = sint (unix_ns t)"
  define secs where "secs = n div 1000000000"
  define ms where "ms = n mod 1000000000 div 1000000"
  define b where "b = localtime tz secs"
  have n: "0 \<le> n" "n < 9223372036854775808" using assms(2) sint_less [of "unix_ns t"] by (simp_all add: n_def)
  have trunc: "n sdiv 1000000000 = secs" "(n smod 1000000000) sdiv 1000000 = ms"
    using n(1) by (simp_all add: secs_def ms_def truncating_nonneg)
  have m: "0 \<le> n mod 1000000000" "n mod 1000000000 < 1000000000" "ms * 1000000 \<le> n mod 1000000000"
    "secs * 1000000000 \<le> n" by (simp_all add: ms_def secs_def)
  have ms: "0 \<le> ms" "ms < 1000" using m by (simp_all add: ms_def pos_imp_zdiv_nonneg_iff)
  have "n = n mod 1000000000 + 1000000 * (secs * 1000)" using div_mult_mod_eq [of n 1000000000] by (simp add: secs_def)
  then have "n div 1000000 = (n mod 1000000000 + 1000000 * (secs * 1000)) div 1000000" by (rule arg_cong)
  then have parts: "secs * 1000 + ms = n div 1000000" by (simp add: ms_def)
  let ?z = "(secs + tz secs) div 86400"
  have z: "-1 \<le> ?z" "?z < 1000000" 
    using assms(3) n m(4) pos_imp_zdiv_nonneg_iff [of 1000000000 n] by (simp_all add: secs_def n_def [symmetric])
  have "days_before_year 1969 \<le> ?z" "?z < days_before_year 10000"
    using z by (simp_all add: days_before_year_def leap_years_upto_def)
  note year = year_of_between [OF this]
  note b = broken_down_correct [OF b_def [symmetric, unfolded localtime_def]]
  have form: "timestamp_to_string tz t = take 39 (int_pad 4 (tm_year b + 1900) @ ''-'' @ int_pad 2 (int (tm_mon b + 1)) @ ''-'' @
      int_pad 2 (tm_mday b) @ ''T'' @ int_pad 2 (tm_hour b) @ '':'' @ int_pad 2 (tm_min b) @ '':'' @
      int_pad 2 (tm_sec b) @ ''.'' @ int_pad 3 ms)"
    using assms(1) trunc by (simp add: timestamp_to_string_def Let_def n_def [symmetric] b_def add.commute)
  note exact = text_reads_back [OF b(1) _ _ ms]
  show ?thesis unfolding form using exact b(2,3) year parts by (simp add: n_def [symmetric] secs_def [symmetric])
qed

definition utc :: "int \<Rightarrow> int" where
  "utc secs = 0"

text \<open>
  C36: Where the local time zone is UTC, the text of a timestamp is the UTC form the header promises, exact to
  the millisecond. For every valid reading that is not before the epoch the text has the 23 characters
  \<open>YYYY-MM-DDThh:mm:ss.mmm\<close> with a date of the Gregorian calendar and a time of the day, so the buffer of 40
  cuts nothing off, and taken back through the calendar it is the instant, to the millisecond.
\<close>

theorem timestamp_string_reads_back:
  assumes "ts_valid t" "0 \<le> sint (unix_ns t)"
  shows "iso_text (timestamp_to_string utc t) \<and>
    read_milliseconds (timestamp_to_string utc t) = sint (unix_ns t) div 1000000"
  using timestamp_string_local [of t utc] assms by (simp add: utc_def)

theorem timestamp_string_reads_back_witness:
  "iso_text (timestamp_to_string utc \<lparr>unix_ns = 1700000000123456789, ts_valid = True\<rparr>) \<and>
   read_milliseconds (timestamp_to_string utc \<lparr>unix_ns = 1700000000123456789, ts_valid = True\<rparr>) = 1700000000123"
proof -
  have "sint (1700000000123456789 :: u64) = 1700000000123456789" by simp
  then show ?thesis
    using timestamp_string_reads_back [of "\<lparr>unix_ns = 1700000000123456789, ts_valid = True\<rparr>"] by simp
qed

end
