(* ===== verification/Coordinator_Shutdown.thy ===== *)
theory Coordinator_Shutdown
  imports Coordinator_Properties
begin

text \<open>
  The end of a coordinator: \<open>CoordinatorServer::stop\<close> clears \<open>running\<close>, closes the listener and joins
  the accept thread and then every handler. \<open>shutdown_step\<close> is what can still happen while it waits. The
  accept thread is at the test of its loop or inside the body, past the test; from there \<open>select\<close> may
  time out, \<open>accept\<close> may fail, or one more connection may be accepted and handed to a new handler, before
  the flag is read again. A handler that has not ended takes its next step. The theorem says that no
  schedule of these threads goes on forever and that none of them gets stuck before all have ended.
\<close>

datatype accept_point = Loop_Check | Loop_Body | Loop_Ended

inductive shutdown_step :: "accept_point \<times> server \<Rightarrow> accept_point \<times> server \<Rightarrow> bool" where
  loop_ends: "\<not> sv_running sv \<Longrightarrow> shutdown_step (Loop_Check, sv) (Loop_Ended, sv\<lparr>sv_accepting := False\<rparr>)"
| select_idle: "shutdown_step (Loop_Body, sv) (Loop_Check, sv)"
| accept_fails: "\<not> sv_running sv \<Longrightarrow> shutdown_step (Loop_Body, sv) (Loop_Ended, sv\<lparr>sv_accepting := False\<rparr>)"
| accept_late: "shutdown_step (Loop_Body, sv) (Loop_Check, sv\<lparr>sv_conns := sv_conns sv @ [new_connection segs acc]\<rparr>)"
| handler: "i < length (sv_conns sv) \<Longrightarrow> \<not> phase_closed (cn_phase (sv_conns sv ! i)) \<Longrightarrow>
    conn_step (sv_co sv) (sv_conns sv ! i) = (c', cn') \<Longrightarrow>
    shutdown_step (pt, sv) (pt, sv\<lparr>sv_co := c', sv_conns := (sv_conns sv)[i := cn']\<rparr>)"

inductive_cases shutdown_stepE: "shutdown_step (pt, sv) (pt', sv')"

section \<open>Every schedule ends\<close>

definition conn_work :: "connection \<Rightarrow> nat" where
  \<comment> \<open>every byte may be read as part of a frame that takes the handler through its phases again\<close>
  "conn_work cn = 7 * length (concat (cn_in cn)) + phase_rank (cn_phase cn)"

fun loop_rank :: "accept_point \<Rightarrow> nat" where
  "loop_rank Loop_Body = 2"
| "loop_rank Loop_Check = 1"
| "loop_rank Loop_Ended = 0"

definition shutdown_order :: "((accept_point \<times> server) \<times> (accept_point \<times> server)) set" where
  \<comment> \<open>the accept thread is nearer to its end, or where it was and the handlers have less to do\<close>
  "shutdown_order = measures [\<lambda>(pt, sv). loop_rank pt, \<lambda>(pt, sv). sum_list (map conn_work (sv_conns sv))]"

lemma phase_rank_bound: "phase_rank p \<le> 6"
  by (cases p) simp_all

lemma conn_step_work:
  assumes "\<not> phase_closed (cn_phase cn)" "conn_step c cn = (c', cn')"
  shows "conn_work cn' < conn_work cn"
  using conn_step_progress [OF assms] phase_rank_bound [of "cn_phase cn'"]
  by (auto simp: conn_order_iff conn_work_def)

lemma handler_work:
  assumes "i < length cns" "\<not> phase_closed (cn_phase (cns ! i))" "conn_step c (cns ! i) = (c', cn')"
  shows "sum_list (map conn_work (cns[i := cn'])) < sum_list (map conn_work cns)"
proof -
  let ?w = "map conn_work cns"
  have "sum_list (?w[i := conn_work cn']) = sum_list ?w + conn_work cn' - ?w ! i" "?w ! i \<le> sum_list ?w"
    using assms(1) elem_le_sum_list [of i ?w] by (simp_all add: sum_list_update)
  moreover have "conn_work cn' < ?w ! i" using conn_step_work [OF assms(2,3)] assms(1) by simp
  ultimately show ?thesis by (simp add: map_update)
qed

lemma shutdown_step_decreases: "shutdown_step x y \<Longrightarrow> (y, x) \<in> shutdown_order"
  by (induction rule: shutdown_step.induct) (auto simp: shutdown_order_def handler_work)

lemma shutdown_wf: "wf {(y, x). shutdown_step x y}"
proof (rule wf_subset)
  show "wf shutdown_order" by (simp add: shutdown_order_def)
  show "{(y, x). shutdown_step x y} \<subseteq> shutdown_order" using shutdown_step_decreases by blast
qed

section \<open>No thread is stuck\<close>

definition stopping :: "accept_point \<Rightarrow> server \<Rightarrow> bool" where
  "stopping pt sv \<longleftrightarrow> \<not> sv_running sv \<and> (pt = Loop_Ended \<longleftrightarrow> \<not> sv_accepting sv)"

lemma shutdown_step_keeps:
  assumes "shutdown_step (pt, sv) (pt', sv')" "stopping pt sv"
  shows "stopping pt' sv' \<and>
    length (sv_conns sv') + of_bool (pt' = Loop_Body) \<le> length (sv_conns sv) + of_bool (pt = Loop_Body)"
  using assms by (auto simp: stopping_def elim!: shutdown_stepE)

lemma shutdown_step_reachable:
  assumes "server_reachable lms w sv" "shutdown_step (pt, sv) (pt', sv')" "stopping pt sv"
  shows "server_reachable lms w sv'"
proof -
  have "sv' = sv \<or> server_step sv sv'"
    using assms(2,3) by (auto simp: stopping_def elim!: shutdown_stepE intro: server_step.intros)
  then show ?thesis using assms(1) server_reachable.step by blast
qed

lemma shutdown_run:
  assumes "shutdown_step\<^sup>*\<^sup>* (pt, sv) (pt', sv')" "stopping pt sv" "server_reachable lms w sv"
  shows "stopping pt' sv' \<and> server_reachable lms w sv' \<and>
    length (sv_conns sv') + of_bool (pt' = Loop_Body) \<le> length (sv_conns sv) + of_bool (pt = Loop_Body)"
  using assms(1)
proof (induction rule: rtranclp_induct2)
  case (step p1 s1 p2 s2)
  then show ?case using shutdown_step_keeps [OF step.hyps(2)] shutdown_step_reachable [OF _ step.hyps(2)] by auto
qed (use assms(2,3) in simp)

lemma shutdown_not_stuck:
  assumes "stopping pt sv" "\<not> stop_returns sv"
  shows "\<exists>y. shutdown_step (pt, sv) y"
proof (cases pt)
  case Loop_Ended
  then obtain cn where "cn \<in> set (sv_conns sv)" "\<not> phase_closed (cn_phase cn)"
    using assms by (auto simp: stopping_def stop_returns_def list_all_iff)
  then obtain i where i: "i < length (sv_conns sv)" "\<not> phase_closed (cn_phase (sv_conns sv ! i))"
    by (auto simp: in_set_conv_nth)
  obtain c' cn' where "conn_step (sv_co sv) (sv_conns sv ! i) = (c', cn')" by force
  from shutdown_step.handler [OF i this] show ?thesis by blast
qed (use assms(1) shutdown_step.intros in \<open>auto simp: stopping_def\<close>)

lemma shutdown_reaches_end:
  "stopping pt sv \<Longrightarrow> \<exists>pt' sv'. shutdown_step\<^sup>*\<^sup>* (pt, sv) (pt', sv') \<and> stop_returns sv'"
proof (induction "(pt, sv)" arbitrary: pt sv rule: wf_induct_rule [OF shutdown_wf])
  case 1
  show ?case
  proof (cases "stop_returns sv")
    case False
    then obtain p1 s1 where first: "shutdown_step (pt, sv) (p1, s1)" using shutdown_not_stuck 1(2) by (metis surj_pair)
    then obtain pt' sv' where "shutdown_step\<^sup>*\<^sup>* (p1, s1) (pt', sv')" "stop_returns sv'"
      using 1(1) [of p1 s1] shutdown_step_keeps [OF first 1(2)] by auto
    then show ?thesis using first converse_rtranclp_into_rtranclp by metis
  qed blast
qed

text \<open>
  C37: \<open>stop\<close> returns whenever the streams of the connected workers are finite. Wherever the accept thread is
  when \<open>running\<close> is cleared, no schedule of the accept thread and the handlers runs on forever. After any steps
  the server is still a reachable one, at most one connection has been accepted late, and only if the
  accept thread was past its test, and either every thread that \<open>stop\<close> joins has ended or some thread can take
  its next step; so every schedule that keeps running threads comes to a state in which \<open>stop\<close> returns.
\<close>

theorem stop_returns_eventually:
  assumes "server_reachable lms w sv" "pt = Loop_Ended \<longleftrightarrow> \<not> sv_accepting sv"
  shows "(\<nexists>run. run 0 = (pt, stop_begin sv) \<and> (\<forall>n. shutdown_step (run n) (run (Suc n)))) \<and>
    (\<forall>pt' sv'. shutdown_step\<^sup>*\<^sup>* (pt, stop_begin sv) (pt', sv') \<longrightarrow>
      server_reachable lms w sv' \<and>
      length (sv_conns sv') \<le> length (sv_conns sv) + of_bool (pt = Loop_Body) \<and>
      (stop_returns sv' \<or> (\<exists>next. shutdown_step (pt', sv') next))) \<and>
    (\<exists>pt' sv'. shutdown_step\<^sup>*\<^sup>* (pt, stop_begin sv) (pt', sv') \<and> stop_returns sv')"
proof -
  have start: "stopping pt (stop_begin sv)" "server_reachable lms w (stop_begin sv)"
    using assms server_reachable.step [OF assms(1) server_step.stop] by (auto simp: stopping_def stop_begin_def)
  have "\<nexists>run. run 0 = (pt, stop_begin sv) \<and> (\<forall>n. shutdown_step (run n) (run (Suc n)))"
    using shutdown_wf unfolding wf_iff_no_infinite_down_chain by auto
  moreover have "server_reachable lms w sv' \<and> length (sv_conns sv') \<le> length (sv_conns sv) + of_bool (pt = Loop_Body) \<and>
      (stop_returns sv' \<or> (\<exists>next. shutdown_step (pt', sv') next))"
    if "shutdown_step\<^sup>*\<^sup>* (pt, stop_begin sv) (pt', sv')" for pt' sv'
    using shutdown_run [OF that start] shutdown_not_stuck [of pt' sv'] by (auto simp: stop_begin_def)
  ultimately show ?thesis using shutdown_reaches_end [OF start(1)] by blast
qed

theorem stop_returns_eventually_witness:
  "\<exists>sv pt pt' sv'. length (sv_conns sv) = 1 \<and> conn_desc (sv_conns sv) 0 = Some example_desc \<and>
    shutdown_step\<^sup>*\<^sup>* (pt, stop_begin sv) (pt', sv') \<and> stop_returns sv'"
proof -
  obtain sv where sv: "server_reachable default_limits example_world sv" "conn_desc (sv_conns sv) 0 = Some example_desc"
    "length (sv_conns sv) = 1" using example_server by metis
  define pt where "pt = (if sv_accepting sv then Loop_Body else Loop_Ended)"
  then have "pt = Loop_Ended \<longleftrightarrow> \<not> sv_accepting sv" by simp
  from stop_returns_eventually [OF sv(1) this] obtain pt' sv' where
    "shutdown_step\<^sup>*\<^sup>* (pt, stop_begin sv) (pt', sv')" "stop_returns sv'" by (elim conjE exE)
  then show ?thesis using sv(2,3) by blast
qed

end
