(* ===== verification/Example_Programs.thy ===== *)
theory Example_Programs
  imports Inspect
begin

text \<open>
  The example programs (\<open>examples/\<close>), each as a function from the world in which it starts to its exit
  code and output. They put discovery, the registry, path search, route decisions and their
  revalidation together; the theorem computes what the stale-topology example prints.
\<close>

definition newline :: string where
  "newline = [CHR 0x0A]"

section \<open>A synthetic topology\<close>

definition example_gpu :: "u64 \<Rightarrow> string \<Rightarrow> synthetic_device_spec" where
  \<comment> \<open>the accelerators of the examples differ in identity and name only\<close>
  "example_gpu i name = \<lparr>sd_id = Ident i, sd_name = name, sd_kind = NK_ACCELERATOR, sd_generation = ''SYNTHETIC'',
     sd_nominal_bandwidth_bps = 400000000000, sd_link_count = 1, sd_peer_access_supported = True\<rparr>"

definition example_up :: "u64 \<Rightarrow> u64 \<Rightarrow> string \<Rightarrow> synthetic_link_spec" where
  "example_up a b name = \<lparr>sl_source = Ident a, sl_target = Ident b, sl_directed = False, sl_state = LS_UP,
     sl_nominal_bandwidth_bps = 400000000000, sl_lane_width = 8, sl_physical_identifier = name,
     sl_degraded = False, sl_degradation_note = []\<rparr>"

definition synthetic_example_spec :: synthetic_topology_spec where
  "synthetic_example_spec = \<lparr>sp_devices = [example_gpu 1 ''gpu0'', example_gpu 2 ''gpu1'', example_gpu 3 ''gpu2'',
       \<lparr>sd_id = Ident 4, sd_name = ''switch0'', sd_kind = NK_SWITCH, sd_generation = ''SYNTHETIC'',
        sd_nominal_bandwidth_bps = 800000000000, sd_link_count = 2, sd_peer_access_supported = True\<rparr>],
     sp_links = [example_up 1 2 ''NVLink 0'', example_up 1 4 ''NVLink 1'', example_up 4 3 ''NVLink 2'',
       \<lparr>sl_source = Ident 2, sl_target = Ident 3, sl_directed = False, sl_state = LS_DEGRADED,
        sl_nominal_bandwidth_bps = 200000000000, sl_lane_width = 8, sl_physical_identifier = ''NVLink 3'',
        sl_degraded = True, sl_degradation_note = ''degraded''\<rparr>],
     sp_synth_bandwidth_bps = F64 0, sp_synth_latency_seconds = F64 0\<rparr>"

fun print_paths :: "Registry.state \<Rightarrow> path list \<Rightarrow> world \<Rightarrow> string \<times> world" where
  "print_paths s [] w = ([], w)"
| "print_paths s (p # ps) w =
     (let (e, w) = explain_path s p w; (out, w) = print_paths s ps w in (''path '' @ c_str e @ newline @ out, w))"

definition synthetic_example_main :: "world \<Rightarrow> run_end" where
  "synthetic_example_main w =
     (case load_synthetic default_limits synthetic_example_spec w of
        None \<Rightarrow> Aborted
      | Some (w, s) \<Rightarrow>
          let counts = ''devices='' @ nat_to_string (device_count s) @ '' links='' @ nat_to_string (link_count s) @
                '' topology_generation='' @ nat_to_string (unat (gen_value (topology_gen s))) @ newline;
              (paths, w) = enumerate_paths default_limits s (Ident 1) (Ident 3) w;
              (shown, w) = (case paths of Inl _ \<Rightarrow> ([], w) | Inr ps \<Rightarrow> print_paths s ps w);
              (dec, w) = decide_route default_limits s s (Ident 1) (Ident 3) default_policy w
          in Exit 0 (counts @ shown @
               (case dec of
                  Inl _ \<Rightarrow> []
                | Inr d \<Rightarrow> ''route outcome='' @ route_outcome_name (rd_outcome d) @
                    '' executable='' @ bit_string (rd_executable d) @ newline @
                    ''explanation: '' @ c_str (rd_explanation d) @ newline)))"

section \<open>Stale-topology invalidation\<close>

definition stale_example_spec :: synthetic_topology_spec where
  "stale_example_spec = \<lparr>sp_devices = [example_gpu 10 ''gpuA'', example_gpu 11 ''gpuB''],
     sp_links = [example_up 10 11 ''NVLink 0''], sp_synth_bandwidth_bps = F64 0, sp_synth_latency_seconds = F64 0\<rparr>"

definition stale_example_after :: "route_decision \<Rightarrow> world \<Rightarrow> Registry.state \<Rightarrow> string" where
  \<comment> \<open>the part after the topology was advanced\<close>
  "stale_example_after d w s =
     (let (current, w) = is_route_executable s d w;
          (reval, w) = revalidate_route s d w
      in ''after topology change: is_executable='' @ bit_string current @ '' (route must be revalidated/refreshed)'' @ newline @
         (case reval of
            Inl _ \<Rightarrow> [] | Inr r \<Rightarrow> ''revalidation outcome='' @ route_outcome_name (rd_outcome r) @ newline))"

definition stale_example_main :: "world \<Rightarrow> run_end" where
  "stale_example_main w =
     (case load_synthetic default_limits stale_example_spec w of
        None \<Rightarrow> Aborted
      | Some (w, s) \<Rightarrow>
          let (dec, w) = decide_route default_limits s s (Ident 10) (Ident 11) default_policy w;
              (before, w) = (case dec of
                 Inl _ \<Rightarrow> ([], w)
               | Inr d \<Rightarrow>
                   let (current, w) = is_route_executable s d w
                   in (''before topology change: outcome='' @ route_outcome_name (rd_outcome d) @
                       '' executable='' @ bit_string (rd_executable d) @ newline @
                       ''  is_executable='' @ bit_string current @ newline, w));
              (_, w, s) = advance_topology default_limits (Evidence EV_REAL PROV_DERIVED ''example'' ''topology advanced'') w s
          in Exit 0 (before @ (case dec of Inl _ \<Rightarrow> [] | Inr d \<Rightarrow> stale_example_after d w s)))"

section \<open>NVIDIA discovery\<close>

definition nvidia_example_device :: "device_record \<Rightarrow> string" where
  "nvidia_example_device d = ''device name='' @ c_str (dev_logical_name d) @ '' arch='' @ c_str (dev_architecture d) @
     '' pci='' @ c_str (dev_pci_identity d) @ '' evidence='' @ c_str (evidence_describe (dev_evidence d)) @ newline"

definition default_request :: measurement_request where
  "default_request = \<lparr>mr_source = Ident 0, mr_target = Ident 0, mr_payload_bytes = 4194304, mr_iterations = 8,
     mr_warmup_iterations = 2, mr_verify_integrity = True\<rparr>"

definition nvidia_example_main :: "nvidia_env \<Rightarrow> world \<Rightarrow> run_end" where
  \<comment> \<open>\<open>*devs\<close> is taken after the check of \<open>devs\<close>, outside it: it throws when discovery failed\<close>
  "nvidia_example_main env w =
     (case make_nvidia_backend env of
        Inl e \<Rightarrow> Exit 3 (''nvidia backend unavailable: '' @ c_str (error_to_string e) @ newline)
      | Inr _ \<Rightarrow>
          let caps = nvidia_capabilities;
              shown = ''backend='' @ c_str (bc_backend_name caps) @ '' device_discovery='' @ bit_string (bc_device_discovery caps) @
                '' link_discovery='' @ bit_string (bc_link_discovery caps) @ '' measurement='' @ bit_string (bc_measurement caps) @ newline
          in (case nvidia_discover_devices env False w of
                (Inl _, _, _) \<Rightarrow> Aborted
              | (Inr devs, inited, w) \<Rightarrow>
                  let shown = shown @ concat (map nvidia_example_device devs) @
                        ''device_count='' @ nat_to_string (length devs) @ newline;
                      shown = shown @ (case nvidia_discover_links env inited of
                        (Inl _, _) \<Rightarrow> []
                      | (Inr lks, _) \<Rightarrow> ''nvlink_links='' @ nat_to_string (length lks) @
                          '' (empty means no NVLink adjacency on this hardware)'' @ newline);
                      (m, w) = nvidia_measure default_request w
                  in Exit 0 (shown @ (case m of
                       Inr _ \<Rightarrow> [] | Inl e \<Rightarrow> ''measurement unsupported: '' @ c_str (error_to_string e) @ newline))))"

section \<open>What the stale-topology example prints\<close>

lemmas synthetic_eval = load_synthetic_def synthetic_discover_devices_def synthetic_discover_links_def
  synthetic_device_def synthetic_link_def example_gpu_def example_up_def synthetic_evidence_def

lemma stale_example_loaded:
  obtains w s where "load_synthetic default_limits stale_example_spec (initial_world clk mv) = Some (w, s)"
    "\<And>d w'. decide_route default_limits s s (Ident 10) (Ident 11) default_policy w = (ok d, w') \<Longrightarrow>
      rd_executable d \<and> rd_outcome d = RD_ROUTE_ALLOWED"
proof -
  obtain w s where s: "load_synthetic default_limits stale_example_spec (initial_world clk mv) = Some (w, s)"
    by (rule load_synthetic_total)
  show thesis
    using s by (intro that [OF s]) (auto simp: stale_example_spec_def synthetic_eval route_eval Evidence_def Let_def)
qed

text \<open>
  The stale-topology example does what it demonstrates. In a fresh process, whatever the clock
  says, it exits with code 0 and prints that the decided route is allowed and executable, that after the
  topology was advanced the same decision is no longer executable, and that it has to be revalidated.
\<close>

theorem stale_example_output:
  "stale_example_main (initial_world clk mv) = Exit 0
    (''before topology change: outcome=ROUTE_ALLOWED executable=1'' @ newline @ ''  is_executable=1'' @ newline @
     ''after topology change: is_executable=0 (route must be revalidated/refreshed)'' @ newline @
     ''revalidation outcome=REVALIDATION_REQUIRED'' @ newline)"
proof -
  obtain w s where s: "load_synthetic default_limits stale_example_spec (initial_world clk mv) = Some (w, s)"
    and decides: "\<And>d w'. decide_route default_limits s s (Ident 10) (Ident 11) default_policy w = (ok d, w') \<Longrightarrow>
      rd_executable d \<and> rd_outcome d = RD_ROUTE_ALLOWED" using stale_example_loaded [of clk mv] by metis
  have wf: "wf_state default_limits s" using load_synthetic_reachable [OF s] by (rule reachable_wf)
  obtain d w1 where d: "decide_route default_limits s s (Ident 10) (Ident 11) default_policy w = (ok d, w1)"
    using that by (simp add: decide_route_def case_prod_beta)
  note exe = decides [OF d] and stamps = decide_route_stamps [OF wf d]
  obtain b w2 where before: "is_route_executable s d w1 = (b, w2)" by force
  have b: "b" using is_route_executable_iff [OF wf, of d w1] before exe stamps by simp
  obtain u w3 s3 where adv: "advance_topology default_limits (Evidence EV_REAL PROV_DERIVED ''example'' ''topology advanced'') w2 s = (u, w3, s3)"
    by (metis prod_cases3)
  then have "topology_gen s3 = gen_next (topology_gen s)"
    by (auto simp: advance_topology_def topology_gen_advance split: prod.splits)
  moreover have "wf_state default_limits s3" using adv wf by (rule adv.keeps_wf [rotated])
  ultimately have stale: "\<not> fst (is_route_executable s3 d v)" for v
    using is_route_executable_iff [of default_limits s3 d v] stamps exe by simp
  have "stale_example_after d w3 s3 = ''after topology change: is_executable=0 (route must be revalidated/refreshed)'' @ newline @
      ''revalidation outcome=REVALIDATION_REQUIRED'' @ newline"
    using stale by (simp add: stale_example_after_def revalidate_route_def bit_string_def Let_def case_prod_beta)
  then show ?thesis using s d before b adv exe by (simp add: stale_example_main_def bit_string_def)
qed

end
