(* ===== verification/Spec2Isabelle.thy ===== *)
theory Spec2Isabelle
  imports Registry_Properties Route_Properties Persistence Worker_Client Backends Self_Check Inspect Timestamps
    Coordinator_Shutdown Example_Programs
begin

text \<open>
  NVLink Fabric keeps a registry of accelerators and the links between them, with the evidence for
  every entry, and decides routes over it. This development models the library, its two
  programs and the examples in HOL and proves the properties that make them correct. Paths below are relative to
  \<open>src/\<close>; headers are in \<open>include/nvlinkfabric/\<close>.

  \<^bold>\<open>The parts and how they interact.\<close> Backends discover devices and links; the registry
  accepts or refuses them and stamps every accepted change with a new topology generation;
  the path search and the route policy work on immutable snapshots of the registry; a decision is
  bound to the generation it was made in. The coordinator owns a registry and serves workers,
  which connect over stream sockets, say hello with a boot identity and the coordinator epoch, publish
  evidence and ask for routes in checksummed frames. The durable part of the registry is saved to and
  restored from a checksummed file. A tool inspects a registry loaded from a backend.

  \<^bold>\<open>Theories and what they model.\<close>
  \<^item> \<open>Prelude\<close>: machine integers, \<open>std::unordered_map\<close> as an association list in iteration order
    (locale \<open>unordered_map\<close>), bounded histories, and the shared lemma collections.
  \<^item> \<open>Enums\<close>, \<open>Fabric_Types\<close> (\<open>enums.hpp\<close>, \<open>identities.hpp\<close>, \<open>error.hpp\<close>, \<open>result.hpp\<close>,
    \<open>evidence.hpp\<close>, \<open>capability.hpp\<close>, \<open>topology.hpp\<close>, \<open>measurement.hpp\<close>, \<open>limits.hpp\<close>, \<open>route.hpp\<close>): every
    enumeration, with a \<open>RAW\<close> constructor where a byte may hold any value; every record; errors
    as values of \<open>error + 'a\<close>. The record \<open>world\<close> holds what the process has outside the registry: the
    identity and generation counters, the clock and what moved-from strings contain.
  \<^item> \<open>Binary64\<close>: IEEE double arithmetic by exact rationals and rounding, as far as scores and
    measurements use it.
  \<^item> \<open>Registry\<close>, \<open>Registry_Properties\<close> (\<open>registry.hpp\<close>, \<open>core/registry.cpp\<close>, \<open>detail/state.hpp\<close>): the
    state and every operation on it. Mutators hold a lock from their first to their last line, so
    concurrent use is a sequence of calls: \<open>reachable\<close> is the closure under \<open>apply_op\<close>. The locale
    \<open>registry_mutation\<close> is what every mutator promises, interpreted for each of them. Shown: every
    reachable state is well formed, generations only advance, what each mutator does on every branch,
    what survives capture and restore, and that snapshots do not depend on hash-map order.
  \<^item> \<open>Paths\<close>, \<open>Path_Properties\<close> (\<open>core/path.cpp\<close>, first half): adjacency, the bounded depth-first search
    (a \<open>function\<close> whose measure is the room left to the depth bound) and path quality. Shown: the
    search returns exactly the simple paths within the bound, and what a quality says of the links.
  \<^item> \<open>Policy\<close> (\<open>core/policy.cpp\<close>): factor values and scores, with bounds and the NaN case.
  \<^item> \<open>Route\<close>, \<open>Route_Properties\<close> (\<open>core/path.cpp\<close>, second half): hard constraints, ranking, the
    decision, its revalidation. The sort comparator is shown to be a strict weak order (locale
    \<open>strict_weak_order\<close>); an executable decision is sound and best, and dies with any topology change.
  \<^item> \<open>Bytes_IO\<close>, \<open>Checksum\<close>, \<open>Serialization\<close>, \<open>Serialization_Properties\<close> (\<open>core/serialization.cpp\<close>): the
    byte codecs (locale \<open>codec\<close>, interpreted for each primitive and record), the CRC-32, the durable
    frame. Shown: round trip, that no single-byte change of a frame is accepted,
    and what a timestamp is read back as in either order of evaluation.
  \<^item> \<open>Persistence\<close> (\<open>core/persistence.cpp\<close>): saving and loading over a model of files in which any step may
    fail and the process may stop between any two. Shown: the state file always holds the old or
    the complete new frame, and a restart brings the topology back.
  \<^item> \<open>Protocol\<close> (\<open>core/protocol.cpp\<close>): payload strings and frames; \<open>Transport\<close> (\<open>core/runtime.cpp\<close>): exact reads
    and writes over sockets that deliver any segmentation. Shown: the frame codec is a bijection onto
    the accepted byte strings, and receiving refines a parser of the whole stream.
  \<^item> \<open>Worker_Messages\<close>, \<open>Coordinator\<close>, \<open>Coordinator_Properties\<close> (\<open>core/runtime.cpp\<close>, \<open>runtime.hpp\<close>): payloads;
    the server's shared state; a connection handler as an automaton with one step per access to shared
    state; \<open>server_step\<close>, the interleaving of all handlers with the accept loop and \<open>stop\<close>. Shown by
    rule induction: the invariant of every reachable server (of its own threads: a program that changes the
    registry through the accessor \<open>registry()\<close> beside them is not part of the step relation); a simulation of the abstract boot fence
    (locale \<open>forward_simulation\<close>); and that a handler ends on every input.
  \<^item> \<open>Worker_Client\<close> (\<open>core/runtime.cpp\<close>, \<open>tools/nvlink_worker.cpp\<close>): the client, the process helpers and the
    worker program. Shown with the coordinator at the other end: agreement on the handshake, what a
    published device becomes, what a route request is answered with.
  \<^item> \<open>Backends\<close> (\<open>backend.hpp\<close>, \<open>backend/*.cpp\<close>): the three backends behind the locale \<open>backend\<close>, and
    the loops that load what they discover. Shown: a well-formed synthetic topology loads completely.
  \<^item> \<open>Self_Check\<close> (\<open>backend/nvidia_backend.cpp\<close>): the CUDA self-check with its kernel. Shown: it releases
    whatever it acquired on every failure, and what its verdict means.
  \<^item> \<open>Inspect\<close> (\<open>tools/nvlink_fabric_inspect.cpp\<close>): the inspection program from arguments to output.
    Shown: its JSON output read back is the data it reports; its exit codes.
  \<^item> \<open>Text_Format\<close>: decimal and hexadecimal conversions of the C library, with \<open>strtoull\<close>. \<open>Timestamps\<close>
    (\<open>time.hpp\<close>): the Gregorian calendar behind \<open>localtime_r\<close> and \<open>Timestamp::to_string\<close>. Shown: the calendar
    of every day, before or after the epoch, and that the printed text is the instant moved by the offset of the
    zone, in UTC the instant itself.
  \<^item> \<open>Coordinator_Shutdown\<close> (\<open>core/runtime.cpp\<close>, \<open>stop\<close>): what the threads still do while \<open>stop\<close> waits for
    them, a connection accepted late included. Shown: no schedule goes on forever, and none is stuck
    before \<open>stop\<close> returns, when the streams of the workers are finite.
  \<^item> \<open>Example_Programs\<close> (\<open>examples/*.cpp\<close>): the three examples, and what the stale-topology one prints.
  \<^item> This theory: the properties that span components. After a restore from a file, and after the
    evidence was marked because a worker was lost, no link carries a route; a state file with arbitrary contents cannot bring the registry
    into an ill-formed state; a route over a loaded synthetic topology runs over its specification.

  \<^bold>\<open>Parameters.\<close> Code outside the repository is an argument: \<open>clock\<close> and \<open>moved_from\<close> in \<open>world\<close>, the
  socket and file behaviour (\<open>net_env\<close>, \<open>connect_env\<close> and the file-system steps), what CUDA, NVML and
  NVRTC answer (\<open>nvidia_env\<close>, \<open>cuda_env\<close>), the order in which the compiler evaluates the two
  arguments of a timestamp, the time zone database (\<open>tz\<close>), and the iteration order of hash maps. A theorem that relies on a
  parameter names the assumption in its statement.

  \<^bold>\<open>Loops.\<close> Recursions are structural or have a termination proof. The handler of a connection and
  the receive loops consume their input, which is the measure. The heartbeat loop of the worker ends
  only when a send fails: it is a \<open>partial_function\<close> whose value is \<open>None\<close> when none ever does. The
  JSON reader takes fuel, and the length of the document is shown to be enough. The search for the year of a
  day starts at or before it and climbs, the days left being its measure.

  \<^bold>\<open>Not modelled.\<close> Console output of the worker, the process table of the operating
  system, and memory exhaustion. \<open>name()\<close> and the factories of the synthetic and no-op backends are
  constants. \<open>protocol.cpp\<close> repeats the checksum and the readers of \<open>serialization.cpp\<close>: one definition models
  both copies. The tests only call the library, the benchmarks report how long calls take, and
  the build files describe the whole.
\<close>

section \<open>Properties that span components\<close>

subsection \<open>Evidence that requires revalidation\<close>

definition suspect :: "'k \<times> link_record \<Rightarrow> bool" where
  "suspect kv \<longleftrightarrow> lk_state (snd kv) = LS_REVALIDATION_REQUIRED"

definition all_links_suspect :: "Registry.state \<Rightarrow> bool" where
  "all_links_suspect s \<longleftrightarrow> list_all suspect (links s)"

definition nothing_trusted :: "Registry.state \<Rightarrow> bool" where
  \<comment> \<open>every link and every worker-owned device waits for revalidation, there are no measurements, and the only
     observation says that a state was restored, as unsupported evidence\<close>
  "nothing_trusted s \<longleftrightarrow> all_links_suspect s \<and> measurement_history s = [] \<and>
     list_all (\<lambda>(_, d). dev_owner_worker d \<noteq> None \<or> dev_owner_boot d \<noteq> None \<longrightarrow> dev_health d = DH_REVALIDATION_REQUIRED)
       (devices s) \<and>
     list_all (\<lambda>ob. obs_kind ob = ''restore'' \<and> ev_class (obs_evidence ob) = EV_UNSUPPORTED) (observations s)"

lemma restore_links_suspect:
  "restore_links lms devs ls acc = ok lks \<Longrightarrow> list_all suspect acc \<Longrightarrow> list_all suspect lks"
proof (induction lms devs ls acc rule: restore_links.induct)
  case (2 lms devs l ls acc)
  have "list_all suspect (um_emplace k v acc)" if "lk_state v = LS_REVALIDATION_REQUIRED" for k v
    using "2.prems"(2) that by (simp add: um_emplace_def suspect_def [abs_def] split: option.split)
  then show ?case using "2.prems"(1) by (intro "2.IH") (auto split: if_splits)
qed simp

lemma suspect_stamp [simp]: "list_all suspect (um_transform (lk_topology_generation_update f) xs) \<longleftrightarrow> list_all suspect xs"
  by (simp add: um_transform_def suspect_def list_all_iff case_prod_beta)

lemma restored_suspect:
  assumes "restore_durable_state lms st w s = (ok (), w', s')"
  shows "nothing_trusted s'"
proof -
  obtain g devs lks ob where lks: "restore_links lms devs (ds_links st) [] = ok lks" and ob: "make_observation ''restore'' (Ident 0) (Ident 0)
      (Evidence EV_UNSUPPORTED PROV_PERSISTED ''persistence'' ''durable state restored; dynamic evidence requires revalidation'')
      ''durable state restored'' w = (ob, w')"
    and s': "s' = advance_from g \<lparr>topology_gen = g, devices = um_transform (\<lambda>d. if dev_owner_worker d \<noteq> None \<or> dev_owner_boot d \<noteq> None
      then d\<lparr>dev_health := DH_REVALIDATION_REQUIRED\<rparr> else d) devs, links = lks, measurement_history = [], observations = [ob]\<rparr>"
    using assms by (auto simp: restore_durable_state_def Let_def split: if_splits sum.splits prod.splits)
  have "list_all suspect lks" using restore_links_suspect [OF lks] by simp
  moreover have "obs_kind ob = ''restore'' \<and> ev_class (obs_evidence ob) = EV_UNSUPPORTED"
    using ob by (auto simp: make_observation_def Evidence_def split: prod.splits)
  ultimately show ?thesis
    by (simp add: s' nothing_trusted_def all_links_suspect_def advance_from_def stamp_links_def)
      (auto simp: um_transform_def list_all_iff)
qed

lemma marked_suspect: "mark_dynamic_evidence_revalidation_required lms w s = (w', s') \<Longrightarrow> all_links_suspect s'"
  by (auto simp: mark_dynamic_evidence_revalidation_required_def all_links_suspect_def advance_from_def stamp_links_def
      record_observation_def Let_def split: prod.splits) (simp add: um_transform_def suspect_def list_all_iff case_prod_beta)

lemma suspect_not_executable:
  assumes "wf_state lms s" "all_links_suspect s" "decide_route lms s s2 a b policy v = (ok d, v')"
  shows "\<not> rd_executable d"
proof
  assume exe: "rd_executable d"
  obtain view u where view: "Registry.consistent_view s v = (view, u)" by force
  obtain p where p: "p \<in> set (enumerate_paths_impl (view_topology view) a b lms)"
    "\<forall>i \<in> set (path_links (p_elements p)). \<exists>l. link s i = Some l \<and> link_usable l"
    using executable_route_sound [OF assms(1,3) exe view] by blast
  then obtain i where "i \<in> set (path_links (p_elements p))"
    using enumerated_path [OF p(1)] by (cases "path_links (p_elements p)") auto
  then obtain l where l: "link s i = Some l" "link_usable l" using p(2) by blast
  then have "(i, l) \<in> set (links s)" by (simp add: link_def um_find_def map_of_SomeD)
  then have "lk_state l = LS_REVALIDATION_REQUIRED" using assms(2) by (auto simp: all_links_suspect_def suspect_def list_all_iff)
  then show False using l(2) by (simp add: link_usable_def)
qed

text \<open>
  C39: No route runs over evidence that has to be revalidated. After a durable state was restored, or
  after the coordinator marked the dynamic evidence of a lost worker, \<open>decide_route\<close> gives no
  executable decision on the resulting registry, whatever the endpoints, the policy and the
  measurements.
\<close>

theorem suspect_evidence_not_routed:
  assumes "wf_state lms s"
    and "restore_durable_state lms st w s = (ok (), w', s') \<or> mark_dynamic_evidence_revalidation_required lms w s = (w', s')"
    and "decide_route lms s' s2 a b policy v = (ok d, v')"
  shows "\<not> rd_executable d"
proof -
  have "wf_state lms s'"
    using assms(2) rst.keeps_wf [OF assms(1)] mdy.keeps_wf [OF assms(1)] by (metis (mono_tags) case_prod_conv)
  moreover have "all_links_suspect s'" using assms(2) restored_suspect nothing_trusted_def marked_suspect by blast
  ultimately show ?thesis using suspect_not_executable assms(3) by blast
qed

theorem suspect_evidence_not_routed_witness:
  "\<exists>w' s' d v'. mark_dynamic_evidence_revalidation_required default_limits (fst route_example) (snd route_example) = (w', s') \<and>
    decide_route default_limits s' s' (Ident 1) (Ident 2) default_policy w' = (ok d, v') \<and> \<not> rd_executable d"
proof -
  obtain w' s' where mark: "mark_dynamic_evidence_revalidation_required default_limits (fst route_example) (snd route_example) = (w', s')"
    by force
  moreover obtain d v' where "decide_route default_limits s' s' (Ident 1) (Ident 2) default_policy w' = (ok d, v')"
    using that by (simp add: decide_route_def case_prod_beta)
  ultimately show ?thesis using suspect_evidence_not_routed [OF route_example_wf] by blast
qed

subsection \<open>State files that cannot be trusted\<close>

lemma load_error_codes:
  "load_durable_state ltr env fs path lms = Inl e \<Longrightarrow>
    err_code e \<in> {EC_NOT_FOUND, EC_BACKEND_ERROR, EC_RESOURCE_LIMIT, EC_INTEGRITY_FAILURE}"
  by (auto simp: load_durable_state_def fail_def make_error_def dest: deserialize_error_code split: option.splits if_splits)

lemma restore_error_codes:
  assumes "restore_durable_state lms st w s = (Inl e, w', s')"
  shows "err_code e \<in> {EC_RESOURCE_LIMIT, EC_INTEGRITY_FAILURE}"
proof -
  have "err_code e \<in> {EC_RESOURCE_LIMIT, EC_INTEGRITY_FAILURE}" if "restore_devices lms ds acc = Inl e" for ds acc
    using that by (induction lms ds acc rule: restore_devices.induct) (auto simp: fail_def make_error_def split: if_splits)
  moreover have "err_code e \<in> {EC_RESOURCE_LIMIT, EC_INTEGRITY_FAILURE}" if "restore_links lms devs ls acc = Inl e" for devs ls acc
    using that by (induction lms devs ls acc rule: restore_links.induct) (auto simp: fail_def make_error_def split: if_splits)
  ultimately show ?thesis using assms
    by (auto simp: restore_durable_state_def fail_def make_error_def Let_def split: if_splits sum.splits prod.splits)
qed

text \<open>
  C38: Whatever bytes the state file holds, the registry stays well typed. Loading ends with one of four
  error codes or with a state that restoring either refuses, with a named code and the registry
  untouched, or accepts; what it accepts is a well-formed registry within the limits in which every link and
  every worker-owned device waits for revalidation, no measurement is left and the only observation is
  that of the restore, even if the file was forged with a correct checksum.
\<close>

theorem untrusted_state_file:
  assumes "wf_state lms s"
  shows "case load_durable_state ltr env fs path lms of
      Inl e \<Rightarrow> err_code e \<in> {EC_NOT_FOUND, EC_BACKEND_ERROR, EC_RESOURCE_LIMIT, EC_INTEGRITY_FAILURE}
    | Inr st \<Rightarrow> (case restore_durable_state lms st w s of (r, w', s') \<Rightarrow> wf_state lms s' \<and>
        (case r of
           Inl e \<Rightarrow> w' = w \<and> s' = s \<and> err_code e \<in> {EC_RESOURCE_LIMIT, EC_INTEGRITY_FAILURE}
         | Inr u \<Rightarrow> nothing_trusted s'))"
proof (cases "load_durable_state ltr env fs path lms")
  case (Inl e)
  then show ?thesis using load_error_codes by simp
next
  case (Inr st)
  obtain r w' s' where run: "restore_durable_state lms st w s = (r, w', s')" by (metis prod_cases3)
  then have "wf_state lms s'" by (rule rst.keeps_wf [OF assms])
  then show ?thesis
    using Inr run rst.error_keeps restore_error_codes restored_suspect by (cases r) auto
qed

theorem untrusted_state_file_witness:
  "\<exists>fs w' s'. load_durable_state True fair_env fs ''s'' default_limits = ok example_capture \<and>
    restore_durable_state default_limits example_capture example_world initial_state = (ok (), w', s') \<and>
    wf_state default_limits s' \<and> nothing_trusted s'"
proof -
  have "length (frame_of example_capture) \<le> max_persisted_state_bytes default_limits"
    by (simp add: frame_of_def serialize_frame example_capture_length default_limits_def)
  then obtain ops where "save_durable_state fair_env example_capture ''s'' default_limits = (ok (), ops)"
    using save_succeeds [of fair_env example_capture default_limits "''s''"] by (auto simp: fair_env_def)
  then have load: "load_durable_state True fair_env (run_fs ops Map.empty) ''s'' default_limits = ok example_capture"
    using load_saved [OF _ example_capture_fits, where ltr = True and env' = fair_env] by (simp add: fair_env_def)
  obtain r w' s' where run: "restore_durable_state default_limits example_capture example_world initial_state = (r, w', s')"
    by (metis prod_cases3)
  obtain w1 where "capture_durable_state (snd example_state) (fst example_state) = (ok example_capture, w1)"
    using example_capture_run by blast
  from capture_restore [OF reachable_wf [OF example_reachable] example_generations this run] have r: "r = ok ()" by simp
  have "wf_state default_limits initial_state" by (rule reachable_wf [OF reachable.start])
  from untrusted_state_file [OF this, where ltr = True and env = fair_env and fs = "run_fs ops Map.empty" and path = "''s''" and w = example_world]
  have "wf_state default_limits s' \<and> nothing_trusted s'" using load run r by simp
  then show ?thesis using load run r by blast
qed

subsection \<open>Routes over a synthetic topology\<close>

text \<open>
  C40: A route decided on a loaded synthetic topology runs over the specified links. Both endpoints
  are devices of the specification; the decision selects one of the paths enumerated on the registry's
  snapshot, a simple path of at least one link from one endpoint to the other; and each of its links
  is stored with the ends and the state of a link of the specification, a state in which a link may
  carry traffic.
\<close>

theorem synthetic_route_follows_spec:
  assumes "spec_ok lms spec" "counters_ok spec w" "load_synthetic lms spec w = Some (w1, s)"
    and "decide_route lms s s2 a b policy v = (ok d, v')" "rd_executable d"
  shows "{a, b} \<subseteq> sd_id ` set (sp_devices spec) \<and>
    (\<exists>p \<in> set (enumerate_paths_impl (fst (build_snapshot s v)) a b lms).
      rd_selected d = Some (p_id p) \<and> simple_path (fst (build_snapshot s v)) a b (p_elements p) \<and>
      path_links (p_elements p) \<noteq> [] \<and>
      (\<forall>i \<in> set (path_links (p_elements p)). \<exists>l. \<exists>x \<in> set (sp_links spec). link s i = Some l \<and>
         lk_source l = sl_source x \<and> lk_target l = sl_target x \<and> lk_state l = sl_state x \<and> link_usable l))"
proof -
  have wf: "wf_state lms s" using load_synthetic_reachable [OF assms(3)] by (rule reachable_wf)
  have ids: "map fst (devices s) = map sd_id (sp_devices spec)"
    and ends: "map (\<lambda>l. (lk_source l, lk_target l, lk_state l)) (map snd (links s)) =
      map (\<lambda>x. (sl_source x, sl_target x, sl_state x)) (sp_links spec)"
    using load_synthetic_contents [OF assms(1,2)] assms(3) by auto
  obtain view u where view: "Registry.consistent_view s v = (view, u)" by force
  then have snap: "view_topology view = fst (build_snapshot s v)"
    by (auto simp: Registry.consistent_view_def split: prod.splits)
  obtain p where p: "device s a \<noteq> None" "device s b \<noteq> None" "p \<in> set (enumerate_paths_impl (fst (build_snapshot s v)) a b lms)"
    "rd_selected d = Some (p_id p)" "\<forall>i \<in> set (path_links (p_elements p)). \<exists>l. link s i = Some l \<and> link_usable l"
    using executable_route_sound [OF wf assms(4,5) view, unfolded snap] by blast
  have named: "i \<in> sd_id ` set (sp_devices spec)" if "device s i \<noteq> None" for i
  proof -
    have "i \<in> set (map fst (devices s))" using that by (auto simp: device_def um_find_def map_of_eq_None_iff)
    then show ?thesis unfolding ids by simp
  qed
  have specified: "\<exists>x \<in> set (sp_links spec). lk_source l = sl_source x \<and> lk_target l = sl_target x \<and> lk_state l = sl_state x"
    if "link s i = Some l" for i l
  proof -
    have "(lk_source l, lk_target l, lk_state l) \<in> set (map (\<lambda>l. (lk_source l, lk_target l, lk_state l)) (map snd (links s)))"
      using that by (force simp: link_def um_find_def dest: map_of_SomeD)
    then show ?thesis unfolding ends by auto
  qed
  have links: "\<forall>i \<in> set (path_links (p_elements p)). \<exists>l. \<exists>x \<in> set (sp_links spec). link s i = Some l \<and>
      lk_source l = sl_source x \<and> lk_target l = sl_target x \<and> lk_state l = sl_state x \<and> link_usable l"
    using p(5) specified by blast
  have path: "simple_path (fst (build_snapshot s v)) a b (p_elements p)" "path_links (p_elements p) \<noteq> []"
    using enumerated_path [OF p(3)] by auto
  show ?thesis
  proof (intro conjI bexI [of _ p])
    show "{a, b} \<subseteq> sd_id ` set (sp_devices spec)" using named [OF p(1)] named [OF p(2)] by simp
  qed (use links path p(3,4) in simp_all)
qed

theorem synthetic_route_follows_spec_witness:
  "\<exists>w s d v'. load_synthetic default_limits stale_example_spec example_world = Some (w, s) \<and>
    decide_route default_limits s s (Ident 10) (Ident 11) default_policy w = (ok d, v') \<and> rd_selected d \<noteq> None"
proof -
  obtain w s where s: "load_synthetic default_limits stale_example_spec example_world = Some (w, s)"
    and decides: "\<And>d w'. decide_route default_limits s s (Ident 10) (Ident 11) default_policy w = (ok d, w') \<Longrightarrow> rd_executable d"
    using stale_example_loaded unfolding example_world_def by metis
  obtain d v' where d: "decide_route default_limits s s (Ident 10) (Ident 11) default_policy w = (ok d, v')"
    using that by (simp add: decide_route_def case_prod_beta)
  have "spec_ok default_limits stale_example_spec"
    by (auto simp: spec_ok_def stale_example_spec_def example_gpu_def example_up_def spec_pair_count_def default_limits_def is_nil_def)
  moreover have "counters_ok stale_example_spec example_world"
    by (simp add: counters_ok_def stale_example_spec_def example_world_def initial_world_def)
  ultimately show ?thesis using synthetic_route_follows_spec [OF _ _ s d decides [OF d]] s d by auto
qed

end
